(* ===== verification/Prelude.thy ===== *)
theory Prelude
  imports Main "HOL-Library.Word" "HOL-Library.List_Lexorder" "HOL-Library.Char_ord"
    "HOL-Library.Product_Lexorder" "HOL-Library.Multiset" "HOL-Library.Code_Target_Numeral"
begin

text \<open>
  Shared ground of the development: the machine integers of the crate, Rust's \<open>Result\<close>
  and the \<open>?\<close> operator, checked, saturating and build-profile dependent arithmetic,
  big-endian byte encodings of fixed width, slices, and two interfaces that several
  components share: a wire codec and an invariant-preserving step machine.

  The collections of hints: \<open>result_simps\<close> computes with results, \<open>be_simps\<close>
  with big-endian encodings, \<open>arith_defs\<close> unfolds the machine arithmetic.
\<close>

named_theorems result_simps
named_theorems be_simps
named_theorems arith_defs

section \<open>Machine integers and bytes\<close>

type_synonym u8 = "8 word"
type_synonym u16 = "16 word"
type_synonym u32 = "32 word"
type_synonym u64 = "64 word"
type_synonym bytes = "u8 list"

section \<open>Results\<close>

text \<open>Rust's \<open>Result\<close>: the error on the left, the value on the right.\<close>

abbreviation Ok :: "'a \<Rightarrow> 'e + 'a" where
  "Ok \<equiv> Inr"

abbreviation Err :: "'e \<Rightarrow> 'e + 'a" where
  "Err \<equiv> Inl"

definition is_ok :: "'e + 'a \<Rightarrow> bool" where
  "is_ok r = (case r of Inl _ \<Rightarrow> False | Inr _ \<Rightarrow> True)"

lemma is_ok_simps [simp, result_simps]: "is_ok (Inr x)" "\<not> is_ok (Inl e)"
  by (simp_all add: is_ok_def)

lemma is_ok_iff: "is_ok r \<longleftrightarrow> (\<exists>x. r = Inr x)"
  by (cases r) auto

text \<open>The \<open>?\<close> operator on a pure result.\<close>

definition bind_result :: "'e + 'a \<Rightarrow> ('a \<Rightarrow> 'e + 'b) \<Rightarrow> 'e + 'b" where
  "bind_result r f = (case r of Inl e \<Rightarrow> Inl e | Inr x \<Rightarrow> f x)"

lemma bind_result_simps [simp, result_simps]:
  "bind_result (Inr x) f = f x" "bind_result (Inl e) f = Inl e"
  by (simp_all add: bind_result_def)

lemma bind_result_Inr_iff:
  "bind_result r f = Inr y \<longleftrightarrow> (\<exists>x. r = Inr x \<and> f x = Inr y)"
  by (cases r) auto

lemma bind_result_Inr_eq:
  "Inr y = bind_result r f \<longleftrightarrow> (\<exists>x. r = Inr x \<and> f x = Inr y)"
  by (cases r) auto

text \<open>A sequence of checks joined by \<open>?\<close>: the first error is returned.\<close>

fun check_all :: "('e + unit) list \<Rightarrow> 'e + unit" where
  "check_all [] = Inr ()"
| "check_all (c # cs) = (case c of Inl e \<Rightarrow> Inl e | Inr _ \<Rightarrow> check_all cs)"

lemma check_all_ok_iff: "check_all cs = Inr u \<longleftrightarrow> (\<forall>c \<in> set cs. c = Inr ())"
  by (induction cs) (auto split: sum.splits)

lemma check_all_ok [simp]:
  "check_all [] = Inr u" "check_all (c # cs) = Inr u \<longleftrightarrow> c = Inr () \<and> check_all cs = Inr ()"
  by (simp_all split: sum.split)

lemma is_ok_check_all: "is_ok (check_all cs) \<longleftrightarrow> (\<forall>c \<in> set cs. is_ok c)"
  by (induction cs) (auto split: sum.splits)

declare check_all.simps [simp del]

text \<open>Collecting an iterator of results stops at the first error.\<close>

fun map_result :: "('a \<Rightarrow> 'e + 'b) \<Rightarrow> 'a list \<Rightarrow> 'e + 'b list" where
  "map_result f [] = Inr []"
| "map_result f (x # xs) =
     (case f x of Inl e \<Rightarrow> Inl e
      | Inr y \<Rightarrow> (case map_result f xs of Inl e \<Rightarrow> Inl e | Inr ys \<Rightarrow> Inr (y # ys)))"

lemma map_result_Inr:
  "map_result f xs = Inr ys \<longleftrightarrow> list_all2 (\<lambda>x y. f x = Inr y) xs ys"
proof (induction xs arbitrary: ys)
  case Nil
  then show ?case by auto
next
  case (Cons x xs)
  show ?case
    by (cases "f x"; cases "map_result f xs") (auto simp: list_all2_Cons1 Cons.IH [symmetric])
qed

lemma map_result_all_ok: "(\<And>x. x \<in> set xs \<Longrightarrow> f x = Inr (g x)) \<Longrightarrow> map_result f xs = Inr (map g xs)"
  by (induction xs) auto

section \<open>Arithmetic with overflow\<close>

text \<open>
  A plain \<open>+\<close> on an unsigned integer panics on overflow when the crate is built with
  overflow checks (the dev and test profiles) and wraps around otherwise (the release
  profile). The flag \<open>oc\<close> is the build profile; None is the panic.
\<close>

definition rust_add :: "bool \<Rightarrow> 'a::len word \<Rightarrow> 'a word \<Rightarrow> 'a word option" where
  "rust_add oc a b =
     (if oc \<and> 2 ^ LENGTH('a) \<le> unat a + unat b then None else Some (a + b))"

definition checked_add :: "'a::len word \<Rightarrow> 'a word \<Rightarrow> 'a word option" where
  "checked_add a b = (if 2 ^ LENGTH('a) \<le> unat a + unat b then None else Some (a + b))"

definition saturating_add :: "'a::len word \<Rightarrow> 'a word \<Rightarrow> 'a word" where
  "saturating_add a b = (if 2 ^ LENGTH('a) \<le> unat a + unat b then - 1 else a + b)"

definition saturating_sub :: "'a::len word \<Rightarrow> 'a word \<Rightarrow> 'a word" where
  "saturating_sub a b = (if a < b then 0 else a - b)"

definition saturating_mul :: "'a::len word \<Rightarrow> 'a word \<Rightarrow> 'a word" where
  "saturating_mul a b = (if 2 ^ LENGTH('a) \<le> unat a * unat b then - 1 else a * b)"

definition saturating_pow :: "'a::len word \<Rightarrow> nat \<Rightarrow> 'a word" where
  "saturating_pow a n = (if 2 ^ LENGTH('a) \<le> unat a ^ n then - 1 else a ^ n)"

lemmas arith_unfold [arith_defs] =
  rust_add_def checked_add_def saturating_add_def saturating_sub_def
  saturating_mul_def saturating_pow_def

lemma unat_less_exp: "unat (w :: 'a::len word) < 2 ^ LENGTH('a)"
  by (rule unsigned_less)

lemma unat_of_nat_u8: "n < 256 \<Longrightarrow> unat (of_nat n :: u8) = n"
  by (simp add: unat_of_nat)

lemma unat_of_nat_u16: "n < 65536 \<Longrightarrow> unat (of_nat n :: u16) = n"
  by (simp add: unat_of_nat)

lemma unat_of_nat_u32: "n < 2 ^ 32 \<Longrightarrow> unat (of_nat n :: u32) = n"
  by (simp add: unat_of_nat)

lemma unat_max_word: "unat (- 1 :: 'a::len word) = 2 ^ LENGTH('a) - 1"
  by (simp add: unsigned_minus_1_eq_mask mask_eq_exp_minus_1)

lemma unat_add_no_overflow:
  fixes a b :: "'a::len word"
  shows "unat a + unat b < 2 ^ LENGTH('a) \<Longrightarrow> unat (a + b) = unat a + unat b"
  by (simp add: unat_word_ariths)

lemma checked_add_Some:
  "checked_add a b = Some c \<Longrightarrow> unat c = unat a + unat b"
  by (auto simp: checked_add_def not_le unat_add_no_overflow split: if_splits)

lemma rust_add_checked_Some:
  "rust_add True a b = Some c \<Longrightarrow> unat c = unat a + unat b"
  by (auto simp: rust_add_def not_le unat_add_no_overflow split: if_splits)

lemma rust_add_Some_eq: "rust_add oc a b = Some c \<Longrightarrow> c = a + b"
  by (auto simp: rust_add_def split: if_splits)

lemma checked_add_Some_eq: "checked_add a b = Some c \<Longrightarrow> c = a + b"
  by (auto simp: checked_add_def split: if_splits)

lemma unat_saturating_add:
  "unat (saturating_add a b) = min (2 ^ LENGTH('a) - 1) (unat (a :: 'a::len word) + unat b)"
  by (auto simp: saturating_add_def not_le unat_add_no_overflow unat_max_word)

lemma unat_saturating_mul:
  "unat (saturating_mul a b) = min (2 ^ LENGTH('a) - 1) (unat (a :: 'a::len word) * unat b)"
  by (auto simp: saturating_mul_def not_le unat_word_ariths unat_max_word)

lemma unat_saturating_sub: "unat (saturating_sub a b) = unat a - unat b"
  by (auto simp: saturating_sub_def not_less unat_sub word_less_nat_alt word_le_nat_alt)

lemma checked_add_SomeD:
  "checked_add a b = Some c \<Longrightarrow> c = a + b \<and> unat (a + b) = unat a + unat b"
  using checked_add_Some [of a b c] checked_add_Some_eq [of a b c] by auto

lemma rust_add_checked_SomeD:
  "rust_add True a b = Some c \<Longrightarrow> c = a + b \<and> unat (a + b) = unat a + unat b"
  using rust_add_checked_Some [of a b c] rust_add_Some_eq [of True a b c] by auto

section \<open>Slices\<close>

text \<open>\<open>xs[a..b]\<close> for indices in range (\<open>a \<le> b \<le> length xs\<close>).\<close>

definition slice :: "nat \<Rightarrow> nat \<Rightarrow> 'a list \<Rightarrow> 'a list" where
  "slice a b xs = take (b - a) (drop a xs)"

lemma length_slice: "b \<le> length xs \<Longrightarrow> length (slice a b xs) = b - a"
  by (simp add: slice_def)

lemma slice_append_right:
  "length xs \<le> a \<Longrightarrow> slice a b (xs @ ys) = slice (a - length xs) (b - length xs) ys"
  by (simp add: slice_def)

lemma slice_prefix: "length xs = b \<Longrightarrow> slice 0 b (xs @ ys) = xs"
  by (simp add: slice_def)

text \<open>\<open>xs.get(i)\<close>: the element at an index, if there is one.\<close>

definition nth_opt :: "'a list \<Rightarrow> nat \<Rightarrow> 'a option" where
  "nth_opt xs i = (if i < length xs then Some (xs ! i) else None)"

lemma nth_opt_simps [simp]:
  "nth_opt [] i = None" "nth_opt (x # xs) 0 = Some x" "nth_opt (x # xs) (Suc i) = nth_opt xs i"
  "nth_opt (x # xs) (numeral k) = nth_opt xs (pred_numeral k)"
  by (simp_all add: nth_opt_def)

section \<open>Permutations\<close>

lemma mset_map_preimage:
  "mset ys = mset (map f xs) \<Longrightarrow> \<exists>zs. mset zs = mset xs \<and> map f zs = ys"
proof (induction ys arbitrary: xs)
  case (Cons y ys)
  then have "y \<in> set (map f xs)" by (metis list.set_intros(1) mset_eq_setD)
  then obtain x where x: "x \<in> set xs" "y = f x" by auto
  then have "mset xs = add_mset x (mset (remove1 x xs))" by simp
  then have "mset (map f xs) = add_mset y (mset (map f (remove1 x xs)))"
    by (simp only: mset_map image_mset_add_mset x(2))
  with Cons.prems obtain zs where "mset zs = mset (remove1 x xs)" "map f zs = ys"
    using Cons.IH [of "remove1 x xs"] by auto
  with x show ?case by (intro exI [of _ "x # zs"]) simp
qed simp

section \<open>Big-endian encodings\<close>

primrec be_bytes :: "nat \<Rightarrow> nat \<Rightarrow> bytes" where
  "be_bytes 0 n = []"
| "be_bytes (Suc k) n = be_bytes k (n div 256) @ [of_nat (n mod 256)]"

lemma be_bytes_numeral [be_simps]:
  "be_bytes (numeral k) n = be_bytes (pred_numeral k) (n div 256) @ [of_nat (n mod 256)]"
  by (subst numeral_eq_Suc) (rule be_bytes.simps)

definition be_value :: "bytes \<Rightarrow> nat" where
  "be_value bs = foldl (\<lambda>acc b. acc * 256 + unat b) 0 bs"

lemma be_value_snoc [be_simps]: "be_value (bs @ [b]) = be_value bs * 256 + unat b"
  by (simp add: be_value_def)

lemma be_value_Nil [be_simps]: "be_value [] = 0"
  by (simp add: be_value_def)

lemma length_be_bytes [simp]: "length (be_bytes k n) = k"
  by (induction k arbitrary: n) auto

lemma be_value_be_bytes: "be_value (be_bytes k n) = n mod 256 ^ k"
proof (induction k arbitrary: n)
  case 0
  then show ?case by (simp add: be_simps)
next
  case (Suc k)
  have "unat (of_nat (n mod 256) :: u8) = n mod 256"
    by (simp add: unat_of_nat)
  then have "be_value (be_bytes (Suc k) n) = (n div 256) mod 256 ^ k * 256 + n mod 256"
    by (simp add: be_value_snoc Suc.IH)
  also have "\<dots> = n mod (256 * 256 ^ k)"
    by (metis add.commute mod_mult2_eq mult.commute)
  finally show ?case by simp
qed

lemma be_bytes_be_value: "be_bytes (length bs) (be_value bs) = bs"
proof (induction bs rule: rev_induct)
  case Nil
  then show ?case by simp
next
  case (snoc b bs)
  have lt: "unat b < 256"
    using unat_less_exp [of b] by simp
  then have "(be_value bs * 256 + unat b) div 256 = be_value bs"
    and "(be_value bs * 256 + unat b) mod 256 = unat b" by auto
  with snoc show ?case by (simp add: be_value_snoc)
qed

lemma be_value_less: "be_value bs < 256 ^ length bs"
proof -
  have "be_value (be_bytes (length bs) (be_value bs)) < 256 ^ length bs"
    by (simp add: be_value_be_bytes)
  then show ?thesis by (simp add: be_bytes_be_value)
qed

definition u32_to_be :: "u32 \<Rightarrow> bytes" where
  "u32_to_be w = be_bytes 4 (unat w)"

definition u32_from_be :: "bytes \<Rightarrow> u32" where
  "u32_from_be bs = of_nat (be_value bs)"

definition u16_to_be :: "u16 \<Rightarrow> bytes" where
  "u16_to_be w = be_bytes 2 (unat w)"

definition u16_from_be :: "bytes \<Rightarrow> u16" where
  "u16_from_be bs = of_nat (be_value bs)"

definition u64_to_be :: "u64 \<Rightarrow> bytes" where
  "u64_to_be w = be_bytes 8 (unat w)"

lemma length_to_be [simp, be_simps]:
  "length (u32_to_be w) = 4" "length (u16_to_be v) = 2" "length (u64_to_be x) = 8"
  by (simp_all add: u32_to_be_def u16_to_be_def u64_to_be_def)

lemma u32_from_to_be [simp, be_simps]: "u32_from_be (u32_to_be w) = w"
proof -
  have "unat w < 256 ^ 4" using unat_less_exp [of w] by simp
  then show ?thesis
    by (simp add: u32_from_be_def u32_to_be_def be_value_be_bytes)
qed

lemma u16_from_to_be [simp, be_simps]: "u16_from_be (u16_to_be w) = w"
proof -
  have "unat w < 256 ^ 2" using unat_less_exp [of w] by simp
  then show ?thesis
    by (simp add: u16_from_be_def u16_to_be_def be_value_be_bytes)
qed

lemma unat_u32_from_be: "length bs = 4 \<Longrightarrow> unat (u32_from_be bs) = be_value bs"
  using be_value_less [of bs] by (simp add: u32_from_be_def unat_of_nat)

lemma unat_u16_from_be: "length bs = 2 \<Longrightarrow> unat (u16_from_be bs) = be_value bs"
  using be_value_less [of bs] by (simp add: u16_from_be_def unat_of_nat)

lemma u32_to_from_be [be_simps]: "length bs = 4 \<Longrightarrow> u32_to_be (u32_from_be bs) = bs"
  using be_bytes_be_value [of bs] by (simp add: u32_to_be_def unat_u32_from_be)

lemma u16_to_from_be [be_simps]: "length bs = 2 \<Longrightarrow> u16_to_be (u16_from_be bs) = bs"
  using be_bytes_be_value [of bs] by (simp add: u16_to_be_def unat_u16_from_be)

lemma be_bytes_inj: "n < 256 ^ k \<Longrightarrow> m < 256 ^ k \<Longrightarrow> be_bytes k n = be_bytes k m \<Longrightarrow> n = m"
  by (metis be_value_be_bytes mod_less)

lemma u64_to_be_inj [simp]: "u64_to_be v = u64_to_be w \<longleftrightarrow> v = w"
proof
  assume "u64_to_be v = u64_to_be w"
  moreover have "unat v < 256 ^ 8" "unat w < 256 ^ 8"
    using unat_less_exp [of v] unat_less_exp [of w] by simp_all
  ultimately have "unat v = unat w"
    unfolding u64_to_be_def by (rule be_bytes_inj [rotated 2])
  then show "v = w" by (rule unsigned_word_eqI)
qed simp

section \<open>Interface: a wire codec\<close>

text \<open>
  What the transports and the replication layer rely on when they put a value on the wire:
  on the values the encoder is meant for, decoding what was encoded gives the value back.
\<close>

locale wire_codec =
  fixes enc :: "'v \<Rightarrow> 'e + 'w"
    and dec :: "'w \<Rightarrow> 'f + 'v"
    and wf :: "'v \<Rightarrow> bool"
  assumes enc_ok: "wf v \<Longrightarrow> \<exists>w. enc v = Inr w"
    and dec_enc: "wf v \<Longrightarrow> enc v = Inr w \<Longrightarrow> dec w = Inr v"
begin

text \<open>Two well-formed values never share a wire form.\<close>

lemma enc_inj: "wf v \<Longrightarrow> wf v' \<Longrightarrow> enc v = enc v' \<Longrightarrow> v = v'"
  using enc_ok dec_enc by (metis sum.inject(2))

lemma roundtrip: "wf v \<Longrightarrow> \<exists>w. enc v = Inr w \<and> dec w = Inr v"
  using enc_ok dec_enc by blast

text \<open>A whole list of values, each in its own frame.\<close>

lemma roundtrip_list:
  "\<forall>v \<in> set vs. wf v \<Longrightarrow> \<exists>ws. map_result enc vs = Inr ws \<and> map_result dec ws = Inr vs"
proof (induction vs)
  case Nil
  then show ?case by simp
next
  case (Cons v vs)
  then obtain ws where ws: "map_result enc vs = Inr ws" "map_result dec ws = Inr vs"
    by auto
  from Cons.prems obtain w where "enc v = Inr w" "dec w = Inr v"
    using roundtrip by fastforce
  with ws have "map_result enc (v # vs) = Inr (w # ws) \<and> map_result dec (w # ws) = Inr (v # vs)"
    by simp
  then show ?case by blast
qed

end

section \<open>Interface: a step machine with an invariant\<close>

text \<open>
  A component with state: the operations are the labels of a step function that returns
  the output and the next state (also when the operation fails). Runs over a list of
  operations collect the outputs in order.
\<close>

fun run_ops :: "('op \<Rightarrow> 's \<Rightarrow> 'out \<times> 's) \<Rightarrow> 'op list \<Rightarrow> 's \<Rightarrow> 'out list \<times> 's" where
  "run_ops step [] s = ([], s)"
| "run_ops step (op # ops) s =
     (let (out, s') = step op s; (outs, s'') = run_ops step ops s' in (out # outs, s''))"

lemma run_ops_append:
  "run_ops step (xs @ ys) s =
     (let (o1, s1) = run_ops step xs s; (o2, s2) = run_ops step ys s1 in (o1 @ o2, s2))"
  by (induction xs arbitrary: s) (simp_all add: Let_def split_beta)

locale step_machine =
  fixes step :: "'op \<Rightarrow> 's \<Rightarrow> 'out \<times> 's"
    and inv :: "'s \<Rightarrow> bool"
    and admissible :: "'op \<Rightarrow> 's \<Rightarrow> bool"
  assumes step_inv: "inv s \<Longrightarrow> admissible op s \<Longrightarrow> inv (snd (step op s))"
begin

fun admissible_run :: "'op list \<Rightarrow> 's \<Rightarrow> bool" where
  "admissible_run [] s = True"
| "admissible_run (op # ops) s = (admissible op s \<and> admissible_run ops (snd (step op s)))"

lemma run_inv: "inv s \<Longrightarrow> admissible_run ops s \<Longrightarrow> inv (snd (run_ops step ops s))"
  by (induction ops arbitrary: s) (auto simp: Let_def split_beta intro: step_inv)

lemma run_inv_total: "inv s \<Longrightarrow> (\<And>op s. admissible op s) \<Longrightarrow> inv (snd (run_ops step ops s))"
  by (induction ops arbitrary: s) (auto simp: Let_def split_beta intro: step_inv)

end

end
