(* ===== verification/Btree.thy ===== *)
theory Btree
  imports Prelude
begin

text \<open>
  Rust's \<open>BTreeMap\<close> and \<open>BTreeSet\<close>: association lists in increasing key order, so that
  iteration (\<open>keys\<close>, \<open>values\<close>, \<open>values_mut\<close>, \<open>retain\<close>) follows the map's own order and
  \<open>len\<close> is the length. The interface is a locale whose lemmas the registries and the
  sessions use through its interpretation \<open>bt\<close>.
\<close>

named_theorems btree_simps
named_theorems btree_wf

section \<open>Interface: an ordered map\<close>

locale ordered_map =
  fixes empty :: "'m"
    and insert :: "'k::linorder \<Rightarrow> 'v \<Rightarrow> 'm \<Rightarrow> 'm"
    and remove :: "'k \<Rightarrow> 'm \<Rightarrow> 'm"
    and lookup :: "'m \<Rightarrow> 'k \<Rightarrow> 'v option"
    and entries :: "'m \<Rightarrow> ('k \<times> 'v) list"
    and wf :: "'m \<Rightarrow> bool"
  assumes lookup_empty: "lookup empty = (\<lambda>_. None)"
    and lookup_insert: "lookup (insert k v m) = (lookup m)(k \<mapsto> v)"
    and lookup_remove: "lookup (remove k m) = (lookup m)(k := None)"
    and lookup_entries: "wf m \<Longrightarrow> lookup m = map_of (entries m)"
    and entries_sorted: "wf m \<Longrightarrow> sorted_wrt (<) (map fst (entries m))"
    and wf_empty: "wf empty"
    and wf_insert: "wf m \<Longrightarrow> wf (insert k v m)"
    and wf_remove: "wf m \<Longrightarrow> wf (remove k m)"
begin

lemma entries_distinct: "wf m \<Longrightarrow> distinct (map fst (entries m))"
  using entries_sorted strict_sorted_iff by blast

lemma in_entries_iff: "wf m \<Longrightarrow> (k, v) \<in> set (entries m) \<longleftrightarrow> lookup m k = Some v"
  by (simp add: entries_distinct lookup_entries)

lemma dom_lookup: "wf m \<Longrightarrow> dom (lookup m) = fst ` set (entries m)"
  by (simp add: lookup_entries dom_map_of_conv_image_fst)

lemma size_dom: "wf m \<Longrightarrow> length (entries m) = card (dom (lookup m))"
  by (metis dom_lookup distinct_card entries_distinct image_set length_map)

lemma finite_dom: "wf m \<Longrightarrow> finite (dom (lookup m))"
  by (simp add: dom_lookup)

lemma size_insert_fresh:
  "wf m \<Longrightarrow> lookup m k = None \<Longrightarrow> length (entries (insert k v m)) = Suc (length (entries m))"
  by (simp add: size_dom wf_insert lookup_insert finite_dom domIff)

lemma size_insert_le:
  "wf m \<Longrightarrow> length (entries (insert k v m)) \<le> Suc (length (entries m))"
  by (simp add: size_dom wf_insert lookup_insert finite_dom card_insert_if)

lemma size_remove_le: "wf m \<Longrightarrow> length (entries (remove k m)) \<le> length (entries m)"
  by (simp add: size_dom wf_remove lookup_remove finite_dom card_Diff1_le)

lemma size_remove_present:
  "wf m \<Longrightarrow> lookup m k = Some v \<Longrightarrow> length (entries (remove k m)) < length (entries m)"
  by (metis card_Diff1_less domI dom_fun_upd finite_dom lookup_remove size_dom wf_remove)

text \<open>Two maps that answer every lookup alike iterate alike.\<close>

lemma entries_ext:
  assumes "wf m" "wf m'" "lookup m = lookup m'"
  shows "entries m = entries m'"
proof (rule map_sorted_distinct_set_unique [where f = fst])
  show "inj_on fst (set (entries m) \<union> set (entries m'))"
    using assms by (auto simp: inj_on_def in_entries_iff)
  show "set (entries m) = set (entries m')"
    using assms by (auto simp: in_entries_iff)
qed (use assms entries_sorted entries_distinct strict_sorted_iff in blast)+

end

section \<open>Sorted association lists\<close>

type_synonym ('k, 'v) btree = "('k \<times> 'v) list"

fun bt_insert :: "'k::linorder \<Rightarrow> 'v \<Rightarrow> ('k, 'v) btree \<Rightarrow> ('k, 'v) btree" where
  "bt_insert k v [] = [(k, v)]"
| "bt_insert k v (p # ps) =
     (if k < fst p then (k, v) # p # ps
      else if k = fst p then (k, v) # ps
      else p # bt_insert k v ps)"

definition bt_remove :: "'k \<Rightarrow> ('k, 'v) btree \<Rightarrow> ('k, 'v) btree" where
  "bt_remove k m = filter (\<lambda>p. fst p \<noteq> k) m"

definition bt_retain :: "('v \<Rightarrow> bool) \<Rightarrow> ('k, 'v) btree \<Rightarrow> ('k, 'v) btree" where
  "bt_retain P m = filter (\<lambda>p. P (snd p)) m"

definition bt_update_values :: "('v \<Rightarrow> 'v) \<Rightarrow> ('k, 'v) btree \<Rightarrow> ('k, 'v) btree" where
  "bt_update_values f m = map (\<lambda>p. (fst p, f (snd p))) m"

abbreviation bt_keys :: "('k, 'v) btree \<Rightarrow> 'k list" where
  "bt_keys m \<equiv> map fst m"

abbreviation bt_values :: "('k, 'v) btree \<Rightarrow> 'v list" where
  "bt_values m \<equiv> map snd m"

definition bt_wf :: "('k::linorder, 'v) btree \<Rightarrow> bool" where
  "bt_wf m \<longleftrightarrow> sorted_wrt (<) (bt_keys m)"

lemma bt_get_insert [simp, btree_simps]: "map_of (bt_insert k v m) = (map_of m)(k \<mapsto> v)"
  by (induction m) (auto simp: fun_eq_iff)

lemma bt_get_remove [simp, btree_simps]: "map_of (bt_remove k m) = (map_of m)(k := None)"
  by (induction m) (auto simp: bt_remove_def fun_eq_iff)

lemma keys_bt_insert: "set (bt_keys (bt_insert k v m)) = Set.insert k (set (bt_keys m))"
  by (induction m) auto

lemma bt_wf_Nil [simp, btree_wf]: "bt_wf []"
  by (simp add: bt_wf_def)

lemma bt_wf_Cons: "bt_wf (p # ps) \<longleftrightarrow> (\<forall>q \<in> set ps. fst p < fst q) \<and> bt_wf ps"
  by (auto simp: bt_wf_def)

lemma bt_wf_insert [simp, btree_wf]: "bt_wf m \<Longrightarrow> bt_wf (bt_insert k v m)"
proof (induction m)
  case Nil
  then show ?case by (simp add: bt_wf_def)
next
  case (Cons p ps)
  have keys: "fst q = k \<or> fst q \<in> fst ` set ps" if "q \<in> set (bt_insert k v ps)" for q
    using keys_bt_insert [of k v ps] that by auto
  show ?case
  proof (cases "k \<le> fst p")
    case True
    with Cons.prems show ?thesis by (auto simp: bt_wf_Cons)
  next
    case False
    with Cons keys show ?thesis by (fastforce simp: bt_wf_Cons)
  qed
qed

lemma bt_wf_filter [simp, btree_wf]: "bt_wf m \<Longrightarrow> bt_wf (filter P m)"
  by (induction m) (auto simp: bt_wf_Cons)

lemma bt_wf_remove [simp, btree_wf]: "bt_wf m \<Longrightarrow> bt_wf (bt_remove k m)"
  by (simp add: bt_remove_def)

lemma bt_wf_retain [simp, btree_wf]: "bt_wf m \<Longrightarrow> bt_wf (bt_retain P m)"
  by (simp add: bt_retain_def)

lemma bt_wf_update_values [simp, btree_wf]: "bt_wf (bt_update_values f m) = bt_wf m"
  by (simp add: bt_wf_def bt_update_values_def comp_def)

lemma bt_wf_distinct: "bt_wf m \<Longrightarrow> distinct (bt_keys m)"
  unfolding bt_wf_def using strict_sorted_iff by blast

interpretation bt: ordered_map "[]" bt_insert bt_remove map_of "\<lambda>m. m" bt_wf
  by unfold_locales (simp_all add: bt_wf_def [symmetric])

lemma bt_get_retain:
  "bt_wf m \<Longrightarrow> map_of (bt_retain P m) k =
     (case map_of m k of None \<Rightarrow> None | Some v \<Rightarrow> if P v then Some v else None)"
  by (induction m) (force simp: bt_retain_def bt_wf_Cons dest: map_of_SomeD split: option.splits)+

lemma bt_get_update_values [simp, btree_simps]:
  "map_of (bt_update_values f m) k = map_option f (map_of m k)"
  by (induction m) (auto simp: bt_update_values_def)

lemma bt_keys_update_values [simp]: "bt_keys (bt_update_values f m) = bt_keys m"
  by (simp add: bt_update_values_def)

lemma length_bt_update_values [simp]: "length (bt_update_values f m) = length m"
  by (simp add: bt_update_values_def)

lemma set_bt_insert_subset: "set (bt_insert k v m) \<subseteq> Set.insert (k, v) (set m)"
  by (induction m) auto

lemma set_bt_insert_fresh:
  "map_of m k = None \<Longrightarrow> set (bt_insert k v m) = Set.insert (k, v) (set m)"
  by (induction m) (auto split: if_splits)

lemma set_bt_remove [simp]: "set (bt_remove k m) = {p \<in> set m. fst p \<noteq> k}"
  by (simp add: bt_remove_def)

lemma length_bt_remove_le: "length (bt_remove k m) \<le> length m"
  by (simp add: bt_remove_def)

lemma length_bt_remove_less: "map_of m k = Some v \<Longrightarrow> length (bt_remove k m) < length m"
  unfolding bt_remove_def
  by (rule length_filter_less [where x = "(k, v)"]) (auto dest: map_of_SomeD)

lemma length_bt_retain_le: "length (bt_retain P m) \<le> length m"
  by (simp add: bt_retain_def)

lemma length_bt_insert_fresh:
  "map_of m k = None \<Longrightarrow> length (bt_insert k v m) = Suc (length m)"
  by (induction m) (auto split: if_splits)

lemma length_bt_insert_le: "length (bt_insert k v m) \<le> Suc (length m)"
  by (induction m) auto

lemma bt_all_keys_insert:
  "(\<forall>k' \<in> set (bt_keys (bt_insert k v m)). P k') \<longleftrightarrow> P k \<and> (\<forall>k' \<in> set (bt_keys m). P k')"
  by (simp add: keys_bt_insert del: set_map list.set_map)

text \<open>A sum over the values, and what an update changes in it.\<close>

definition bt_sum :: "('v \<Rightarrow> nat) \<Rightarrow> ('k, 'v) btree \<Rightarrow> nat" where
  "bt_sum f m = sum_list (map f (bt_values m))"

abbreviation opt_sum :: "('v \<Rightarrow> nat) \<Rightarrow> 'v option \<Rightarrow> nat" where
  "opt_sum f x \<equiv> (case x of None \<Rightarrow> 0 | Some v \<Rightarrow> f v)"

lemma bt_sum_Nil [simp]: "bt_sum f [] = 0"
  by (simp add: bt_sum_def)

lemma bt_wf_Cons_lookup: "bt_wf (p # ps) \<Longrightarrow> k \<le> fst p \<Longrightarrow> map_of ps k = None"
  by (fastforce simp: bt_wf_Cons map_of_eq_None_iff)

lemma bt_sum_insert:
  "bt_wf m \<Longrightarrow> bt_sum f (bt_insert k v m) + opt_sum f (map_of m k) = bt_sum f m + f v"
proof (induction m)
  case (Cons p ps)
  show ?case
  proof (cases "fst p < k")
    case True
    with Cons show ?thesis by (auto simp: bt_sum_def bt_wf_Cons)
  next
    case False
    with bt_wf_Cons_lookup [OF Cons.prems, of k] show ?thesis
      by (cases "k = fst p") (auto simp: bt_sum_def)
  qed
qed (simp add: bt_sum_def)

lemma bt_sum_remove:
  "bt_wf m \<Longrightarrow> bt_sum f (bt_remove k m) + opt_sum f (map_of m k) = bt_sum f m"
proof (induction m)
  case (Cons p ps)
  have "k = fst p \<Longrightarrow> bt_remove k ps = ps"
    using Cons.prems by (auto simp: bt_remove_def bt_wf_Cons filter_id_conv)
  moreover have "k = fst p \<Longrightarrow> map_of ps k = None"
    using bt_wf_Cons_lookup [OF Cons.prems, of k] by simp
  ultimately show ?case
    using Cons by (auto simp: bt_sum_def bt_remove_def bt_wf_Cons)
qed (simp add: bt_sum_def bt_remove_def)

lemma bt_sum_ge: "map_of m k = Some v \<Longrightarrow> f v \<le> bt_sum f m"
  by (auto simp: bt_sum_def intro!: member_le_sum_list dest!: map_of_SomeD)
     (metis image_eqI snd_conv)

section \<open>Ordered sets\<close>

text \<open>As in Rust's own library, a set is a map to the unit type.\<close>

type_synonym 'k bset = "('k, unit) btree"

definition bs_insert :: "'k::linorder \<Rightarrow> 'k bset \<Rightarrow> 'k bset" where
  "bs_insert k m = bt_insert k () m"

definition bs_member :: "'k \<Rightarrow> 'k bset \<Rightarrow> bool" where
  "bs_member k m = (map_of m k \<noteq> None)"

definition bs_elems :: "'k bset \<Rightarrow> 'k list" where
  "bs_elems m = bt_keys m"

definition bs_of_list :: "'k::linorder list \<Rightarrow> 'k bset" where
  "bs_of_list xs = foldl (\<lambda>m x. bs_insert x m) [] xs"

lemma bs_member_insert [simp, btree_simps]: "bs_member k (bs_insert k' m) \<longleftrightarrow> k = k' \<or> bs_member k m"
  by (simp add: bs_member_def bs_insert_def)

lemma bs_member_Nil [simp]: "\<not> bs_member k []"
  by (simp add: bs_member_def)

lemma bs_wf_insert [simp, btree_wf]: "bt_wf m \<Longrightarrow> bt_wf (bs_insert k m)"
  by (simp add: bs_insert_def)

lemma bs_member_elems: "bs_member k m \<longleftrightarrow> k \<in> set (bs_elems m)"
  by (auto simp: bs_member_def bs_elems_def map_of_eq_None_iff)

lemma bs_member_of_list [simp]: "bs_member k (bs_of_list xs) \<longleftrightarrow> k \<in> set xs"
proof -
  have "bs_member k (foldl (\<lambda>m x. bs_insert x m) m xs) \<longleftrightarrow> k \<in> set xs \<or> bs_member k m" for m
    by (induction xs arbitrary: m) auto
  then show ?thesis by (simp add: bs_of_list_def)
qed

lemma bt_wf_of_list [simp, btree_wf]: "bt_wf (bs_of_list xs)"
proof -
  have "bt_wf m \<Longrightarrow> bt_wf (foldl (\<lambda>m x. bs_insert x m) m xs)" for m
    by (induction xs arbitrary: m) auto
  then show ?thesis by (simp add: bs_of_list_def)
qed

lemma bs_elems_sorted: "bt_wf m \<Longrightarrow> sorted_wrt (<) (bs_elems m)"
  by (simp add: bs_elems_def bt_wf_def)

lemma set_bs_elems_of_list [simp]: "set (bs_elems (bs_of_list xs)) = set xs"
  using bs_member_of_list [of _ xs] by (auto simp: bs_member_elems)

end
