(* ===== verification/RustStr.thy ===== *)
theory RustStr
  imports Btree
begin

text \<open>
  Rust strings. A \<open>String\<close> is the list of its UTF-8 bytes (a HOL character is one
  byte), so \<open>len\<close> is the length and \<open>as_bytes\<close> / \<open>from_utf8\<close> are the conversions
  below; every \<open>String\<close> of a running program satisfies \<open>utf8_valid\<close>. The predicates of
  the standard library the crate uses (\<open>trim().is_empty()\<close>, \<open>chars().any(is_control)\<close>,
  \<open>from_utf8\<close>) are computed from the decoded code points.
\<close>

section \<open>UTF-8\<close>

definition cont_byte :: "nat \<Rightarrow> bool" where
  "cont_byte b \<longleftrightarrow> 128 \<le> b \<and> b < 192"

text \<open>Second byte of a three- or four-byte sequence: overlong forms and surrogates are out.\<close>

definition second_ok :: "nat \<Rightarrow> nat \<Rightarrow> bool" where
  "second_ok b0 b1 =
     (if b0 = 224 then 160 \<le> b1 \<and> b1 < 192
      else if b0 = 237 then 128 \<le> b1 \<and> b1 < 160
      else if b0 = 240 then 144 \<le> b1 \<and> b1 < 192
      else if b0 = 244 then 128 \<le> b1 \<and> b1 < 144
      else cont_byte b1)"

fun utf8_decode :: "nat list \<Rightarrow> nat list option" where
  "utf8_decode [] = Some []"
| "utf8_decode (b0 # bs) =
     (if b0 < 128 then map_option ((#) b0) (utf8_decode bs)
      else if 194 \<le> b0 \<and> b0 < 224 then
        (case bs of
           b1 # r \<Rightarrow> if cont_byte b1
             then map_option ((#) ((b0 - 192) * 64 + (b1 - 128))) (utf8_decode r) else None
         | _ \<Rightarrow> None)
      else if 224 \<le> b0 \<and> b0 < 240 then
        (case bs of
           b1 # b2 # r \<Rightarrow> if second_ok b0 b1 \<and> cont_byte b2
             then map_option ((#) ((b0 - 224) * 4096 + (b1 - 128) * 64 + (b2 - 128))) (utf8_decode r)
             else None
         | _ \<Rightarrow> None)
      else if 240 \<le> b0 \<and> b0 < 245 then
        (case bs of
           b1 # b2 # b3 # r \<Rightarrow> if second_ok b0 b1 \<and> cont_byte b2 \<and> cont_byte b3
             then map_option ((#) ((b0 - 240) * 262144 + (b1 - 128) * 4096 + (b2 - 128) * 64
                                   + (b3 - 128))) (utf8_decode r)
             else None
         | _ \<Rightarrow> None)
      else None)"

definition char_codes :: "string \<Rightarrow> nat list" where
  "char_codes s = map of_char s"

definition utf8_valid :: "string \<Rightarrow> bool" where
  "utf8_valid s = (utf8_decode (char_codes s) \<noteq> None)"

text \<open>The characters of a string, as code points.\<close>

definition code_points :: "string \<Rightarrow> nat list" where
  "code_points s = (case utf8_decode (char_codes s) of None \<Rightarrow> [] | Some cs \<Rightarrow> cs)"

definition str_bytes :: "string \<Rightarrow> bytes" where
  "str_bytes s = map (\<lambda>c. of_nat (of_char c)) s"

definition bytes_str :: "bytes \<Rightarrow> string" where
  "bytes_str bs = map (\<lambda>b. char_of (unat b)) bs"

text \<open>\<open>String::from_utf8\<close>.\<close>

definition from_utf8 :: "bytes \<Rightarrow> string option" where
  "from_utf8 bs = (if utf8_valid (bytes_str bs) then Some (bytes_str bs) else None)"

lemma length_str_bytes [simp]: "length (str_bytes s) = length s"
  by (simp add: str_bytes_def)

lemma length_bytes_str [simp]: "length (bytes_str bs) = length bs"
  by (simp add: bytes_str_def)

lemma of_char_less: "(of_char c :: nat) < 256"
  using of_char_mod_256 [of c, where ?'a = nat] by (metis mod_less_divisor zero_less_numeral)

lemma bytes_str_str_bytes [simp]: "bytes_str (str_bytes s) = s"
proof -
  have "char_of (unat (of_nat (of_char c) :: u8)) = c" for c
    using of_char_less [of c] by (simp add: unat_of_nat)
  then show ?thesis by (simp add: bytes_str_def str_bytes_def comp_def)
qed

lemma str_bytes_bytes_str [simp]: "str_bytes (bytes_str bs) = bs"
proof -
  have "of_nat (of_char (char_of (unat b) :: char)) = b" for b :: u8
    using unat_less_exp [of b] by simp
  then show ?thesis by (simp add: bytes_str_def str_bytes_def comp_def)
qed

lemma str_bytes_inj [simp]: "str_bytes s = str_bytes t \<longleftrightarrow> s = t"
  by (metis bytes_str_str_bytes)

lemma from_utf8_str_bytes [simp]: "utf8_valid s \<Longrightarrow> from_utf8 (str_bytes s) = Some s"
  by (simp add: from_utf8_def)

lemma from_utf8_Some_iff: "from_utf8 bs = Some s \<longleftrightarrow> utf8_valid s \<and> bs = str_bytes s"
  by (auto simp: from_utf8_def split: if_splits)

lemma utf8_decode_ascii: "\<forall>b \<in> set bs. b < 128 \<Longrightarrow> utf8_decode bs = Some bs"
  by (induction bs) auto

lemma utf8_valid_ascii: "list_all (\<lambda>c. (of_char c :: nat) < 128) s \<Longrightarrow> utf8_valid s"
  by (simp add: utf8_valid_def char_codes_def utf8_decode_ascii list_all_iff)

lemma code_points_ascii:
  "list_all (\<lambda>c. (of_char c :: nat) < 128) s \<Longrightarrow> code_points s = map of_char s"
  by (simp add: code_points_def char_codes_def utf8_decode_ascii list_all_iff)

section \<open>Whitespace and control characters\<close>

text \<open>The code points with the Unicode property \<open>White_Space\<close>, which \<open>str::trim\<close> removes.\<close>

definition is_whitespace :: "nat \<Rightarrow> bool" where
  "is_whitespace c \<longleftrightarrow>
     (9 \<le> c \<and> c \<le> 13) \<or> c = 32 \<or> c = 133 \<or> c = 160 \<or> c = 5760 \<or> (8192 \<le> c \<and> c \<le> 8202)
     \<or> c = 8232 \<or> c = 8233 \<or> c = 8239 \<or> c = 8287 \<or> c = 12288"

text \<open>General category Cc, \<open>char::is_control\<close>.\<close>

definition is_control :: "nat \<Rightarrow> bool" where
  "is_control c \<longleftrightarrow> c < 32 \<or> (127 \<le> c \<and> c < 160)"

text \<open>\<open>value.trim().is_empty()\<close>: every character is whitespace.\<close>

definition trim_is_empty :: "string \<Rightarrow> bool" where
  "trim_is_empty s = list_all is_whitespace (code_points s)"

definition any_control :: "string \<Rightarrow> bool" where
  "any_control s = list_ex is_control (code_points s)"

lemma trim_is_empty_Nil [simp]: "trim_is_empty []"
  by (simp add: trim_is_empty_def code_points_def char_codes_def)

lemma not_trim_is_empty_nonempty: "\<not> trim_is_empty s \<Longrightarrow> s \<noteq> []"
  by auto

section \<open>Splitting\<close>

text \<open>\<open>str::split_once\<close> on a single character: around its first occurrence.\<close>

fun split_once :: "char \<Rightarrow> string \<Rightarrow> (string \<times> string) option" where
  "split_once d [] = None"
| "split_once d (c # cs) =
     (if c = d then Some ([], cs)
      else map_option (\<lambda>(l, r). (c # l, r)) (split_once d cs))"

lemma split_once_append: "d \<notin> set l \<Longrightarrow> split_once d (l @ d # r) = Some (l, r)"
  by (induction l) auto

lemma split_once_Some: "split_once d s = Some (l, r) \<Longrightarrow> s = l @ d # r \<and> d \<notin> set l"
  by (induction s arbitrary: l) (auto split: if_splits)

lemma split_once_None: "split_once d s = None \<longleftrightarrow> d \<notin> set s"
  by (induction s) auto

text \<open>\<open>str::strip_prefix\<close>.\<close>

fun strip_prefix :: "string \<Rightarrow> string \<Rightarrow> string option" where
  "strip_prefix [] s = Some s"
| "strip_prefix (p # ps) [] = None"
| "strip_prefix (p # ps) (c # cs) = (if p = c then strip_prefix ps cs else None)"

lemma strip_prefix_Some: "strip_prefix p s = Some r \<longleftrightarrow> s = p @ r"
  by (induction p s rule: strip_prefix.induct) auto

section \<open>Decimal numbers\<close>

text \<open>\<open>{}\<close> of an unsigned integer.\<close>

fun show_nat :: "nat \<Rightarrow> string" where
  "show_nat n = (if n < 10 then [char_of (48 + n)] else show_nat (n div 10) @ [char_of (48 + n mod 10)])"

declare show_nat.simps [simp del]

end
