(* ===== verification/Framing.thy ===== *)
theory Framing
  imports RustStr
begin

text \<open>
  The length-prefixed framing of direct pipes (\<open>src/framing.rs\<close>): a 4-byte big-endian
  length and the payload. \<open>encode_frame\<close> builds one frame, the framer keeps the bytes
  not yet consumed and hands out the complete frames of every chunk pushed into it.
  \<open>usize\<close> is 64 bits wide, so \<open>FRAME_HEADER_BYTES + payload_len\<close> does not overflow.
\<close>

definition FRAME_HEADER_BYTES :: nat where
  "FRAME_HEADER_BYTES = 4"

datatype frame_error = FramePayloadTooLarge

definition encode_frame :: "bytes \<Rightarrow> frame_error + bytes" where
  "encode_frame payload =
     (if 2 ^ 32 \<le> length payload then Err FramePayloadTooLarge
      else Ok (u32_to_be (of_nat (length payload)) @ payload))"

record framer =
  buffer :: bytes

definition framer_new :: framer where
  "framer_new = \<lparr>buffer = []\<rparr>"

definition payload_len_of :: "bytes \<Rightarrow> nat" where
  "payload_len_of buf = unat (u32_from_be (slice 0 4 buf))"

text \<open>The loop of \<open>push\<close>: the frames taken from the front of the buffer, and the rest.\<close>

function take_frames :: "bytes \<Rightarrow> bytes list \<times> bytes" where
  "take_frames buf =
     (if length buf < FRAME_HEADER_BYTES then ([], buf)
      else let payload_len = payload_len_of buf;
               total_len = FRAME_HEADER_BYTES + payload_len
           in if length buf < total_len then ([], buf)
              else let frame = slice FRAME_HEADER_BYTES total_len buf;
                       (frames, rest) = take_frames (drop total_len buf)
                   in (frame # frames, rest))"
  by pat_completeness auto
termination
  by (relation "measure length") (auto simp: FRAME_HEADER_BYTES_def)

declare take_frames.simps [simp del]

definition framer_push :: "framer \<Rightarrow> bytes \<Rightarrow> bytes list \<times> framer" where
  "framer_push f chunk =
     (let (frames, rest) = take_frames (buffer f @ chunk) in (frames, f\<lparr>buffer := rest\<rparr>))"

section \<open>One frame\<close>

lemma encode_frame_Inr:
  "encode_frame p = Inr w \<longleftrightarrow> length p < 2 ^ 32 \<and> w = u32_to_be (of_nat (length p)) @ p"
  by (auto simp: encode_frame_def not_le)

lemma take_frames_short:
  assumes "length buf < 4 \<or> length buf < 4 + payload_len_of buf"
  shows "take_frames buf = ([], buf)"
  using assms by (subst take_frames.simps) (auto simp: FRAME_HEADER_BYTES_def Let_def)

lemma take_frames_full:
  assumes "4 \<le> length buf" "4 + payload_len_of buf \<le> length buf"
  shows "take_frames buf =
    (slice 4 (4 + payload_len_of buf) buf # fst (take_frames (drop (4 + payload_len_of buf) buf)),
     snd (take_frames (drop (4 + payload_len_of buf) buf)))"
  using assms by (subst take_frames.simps) (simp add: FRAME_HEADER_BYTES_def Let_def split_beta)

lemma payload_len_of_frame:
  assumes "length p < 2 ^ 32"
  shows "payload_len_of (u32_to_be (of_nat (length p)) @ p @ rest) = length p"
  using assms by (simp add: payload_len_of_def slice_def unat_of_nat)

lemma take_frames_encoded:
  assumes "encode_frame p = Inr w"
  shows "take_frames (w @ rest) = (p # fst (take_frames rest), snd (take_frames rest))"
proof -
  from assms have w: "w = u32_to_be (of_nat (length p)) @ p" and len: "length p < 2 ^ 32"
    by (simp_all add: encode_frame_Inr)
  have plen: "payload_len_of (w @ rest) = length p"
    using payload_len_of_frame [OF len] by (simp add: w)
  show ?thesis
    by (subst take_frames_full) (simp_all add: plen, simp_all add: w slice_def)
qed

section \<open>Streams of frames\<close>

text \<open>
  What the framer leaves in its buffer is never a complete frame, and the frames taken
  and the rest spell the input again: nothing is lost, duplicated or reordered.
\<close>

definition incomplete :: "bytes \<Rightarrow> bool" where
  "incomplete buf \<longleftrightarrow> length buf < 4 \<or> length buf < 4 + payload_len_of buf"

definition frame_bytes :: "bytes \<Rightarrow> bytes" where
  "frame_bytes p = u32_to_be (of_nat (length p)) @ p"

lemma take_frames_rest_incomplete: "incomplete (snd (take_frames buf))"
proof (induction buf rule: take_frames.induct)
  case (1 buf)
  show ?case
  proof (cases "incomplete buf")
    case True
    then show ?thesis by (simp add: take_frames_short incomplete_def)
  next
    case False
    with 1 show ?thesis
      by (simp add: take_frames_full incomplete_def FRAME_HEADER_BYTES_def not_less)
  qed
qed

lemma frame_bytes_prefix:
  assumes "\<not> incomplete buf"
  shows "frame_bytes (slice 4 (4 + payload_len_of buf) buf) = take (4 + payload_len_of buf) buf"
proof -
  let ?n = "payload_len_of buf"
  from assms have len: "4 \<le> length buf" "4 + ?n \<le> length buf"
    by (auto simp: incomplete_def)
  have "of_nat ?n = u32_from_be (take 4 buf)"
    by (simp add: payload_len_of_def slice_def)
  then have "u32_to_be (of_nat ?n) = take 4 buf"
    using len by (simp add: u32_to_from_be)
  moreover have "take (4 + ?n) buf = take 4 buf @ take ?n (drop 4 buf)"
    by (rule take_add)
  ultimately show ?thesis
    using len by (simp add: frame_bytes_def slice_def)
qed

lemma take_frames_spells: "concat (map frame_bytes (fst (take_frames buf))) @ snd (take_frames buf) = buf"
proof (induction buf rule: take_frames.induct)
  case (1 buf)
  show ?case
  proof (cases "incomplete buf")
    case True
    then show ?thesis by (simp add: take_frames_short incomplete_def)
  next
    case False
    then have len: "4 \<le> length buf" "4 + payload_len_of buf \<le> length buf"
      by (auto simp: incomplete_def)
    with 1 have "concat (map frame_bytes (fst (take_frames (drop (4 + payload_len_of buf) buf))))
        @ snd (take_frames (drop (4 + payload_len_of buf) buf)) = drop (4 + payload_len_of buf) buf"
      by (simp add: FRAME_HEADER_BYTES_def)
    with False show ?thesis
      by (simp add: take_frames_full [OF len] frame_bytes_prefix)
  qed
qed

lemma take_frames_payload_bound: "p \<in> set (fst (take_frames buf)) \<Longrightarrow> length p < 2 ^ 32"
proof (induction buf rule: take_frames.induct)
  case (1 buf)
  show ?case
  proof (cases "incomplete buf")
    case True
    with 1 show ?thesis by (simp add: take_frames_short incomplete_def)
  next
    case False
    then have len: "4 \<le> length buf" "4 + payload_len_of buf \<le> length buf"
      by (auto simp: incomplete_def)
    have "payload_len_of buf < 2 ^ 32"
      using unat_less_exp [of "u32_from_be (slice 0 4 buf)"] by (simp add: payload_len_of_def)
    with 1 len show ?thesis
      by (auto simp: take_frames_full FRAME_HEADER_BYTES_def slice_def)
  qed
qed

text \<open>A longer stream starts with the frames of a shorter one.\<close>

lemma payload_len_of_append: "4 \<le> length xs \<Longrightarrow> payload_len_of (xs @ ys) = payload_len_of xs"
  by (simp add: payload_len_of_def slice_def)

lemma take_frames_append:
  "take_frames (xs @ ys) =
     (fst (take_frames xs) @ fst (take_frames (snd (take_frames xs) @ ys)),
      snd (take_frames (snd (take_frames xs) @ ys)))"
proof (induction xs rule: take_frames.induct)
  case (1 xs)
  show ?case
  proof (cases "incomplete xs")
    case True
    then show ?thesis by (simp add: take_frames_short incomplete_def)
  next
    case False
    then have len: "4 \<le> length xs" "4 + payload_len_of xs \<le> length xs"
      by (auto simp: incomplete_def)
    let ?d = "4 + payload_len_of xs"
    have IH: "take_frames (drop ?d xs @ ys) =
       (fst (take_frames (drop ?d xs)) @ fst (take_frames (snd (take_frames (drop ?d xs)) @ ys)),
        snd (take_frames (snd (take_frames (drop ?d xs)) @ ys)))"
      using 1 len by (simp add: FRAME_HEADER_BYTES_def)
    have p: "payload_len_of (xs @ ys) = payload_len_of xs"
      using len by (simp add: payload_len_of_append)
    have "take_frames (xs @ ys) =
       (slice 4 ?d (xs @ ys) # fst (take_frames (drop ?d (xs @ ys))),
        snd (take_frames (drop ?d (xs @ ys))))"
      using len by (subst take_frames_full) (simp_all add: p)
    moreover have "slice 4 ?d (xs @ ys) = slice 4 ?d xs" and "drop ?d (xs @ ys) = drop ?d xs @ ys"
      using len by (simp_all add: slice_def)
    ultimately show ?thesis
      by (simp add: IH take_frames_full [OF len])
  qed
qed

text \<open>The framer as a step machine: what was pushed is what was handed out and kept.\<close>

definition framer_wf :: "framer \<Rightarrow> bool" where
  "framer_wf f \<longleftrightarrow> incomplete (buffer f)"

lemma framer_new_wf: "framer_wf framer_new"
  by (simp add: framer_wf_def framer_new_def incomplete_def)

interpretation framer_machine: step_machine "\<lambda>chunk f. framer_push f chunk" framer_wf "\<lambda>_ _. True"
  by unfold_locales
     (simp add: framer_push_def framer_wf_def split_beta Let_def take_frames_rest_incomplete)

interpretation frame_codec: wire_codec encode_frame
  "\<lambda>w. case framer_push framer_new w of ([p], f) \<Rightarrow> if buffer f = [] then Inr p else Inl () | _ \<Rightarrow> Inl ()"
  "\<lambda>p. length p < 2 ^ 32"
proof unfold_locales
  fix v :: bytes and w
  assume v: "length v < 2 ^ 32"
  then show "\<exists>w. encode_frame v = Inr w" by (simp add: encode_frame_Inr)
  assume enc: "encode_frame v = Inr w"
  have "take_frames (w @ []) = ([v], [])"
    by (simp add: take_frames_encoded [OF enc] take_frames_short incomplete_def del: append_Nil2)
  then show "(case framer_push framer_new w of
      ([p], f) \<Rightarrow> if buffer f = [] then Inr p else Inl () | _ \<Rightarrow> Inl ()) = Inr v"
    by (simp add: framer_push_def framer_new_def)
qed

lemma framer_push_encoded_list:
  assumes "map_result encode_frame ps = Inr ws"
  shows "take_frames (concat ws @ rest) = (ps @ fst (take_frames rest), snd (take_frames rest))"
  using assms
proof (induction ps arbitrary: ws)
  case Nil
  then show ?case by simp
next
  case (Cons p ps)
  then obtain w ws' where w: "encode_frame p = Inr w" and ws': "map_result encode_frame ps = Inr ws'"
    and ws: "ws = w # ws'"
    by (auto split: sum.splits)
  with Cons.IH [OF ws'] show ?case
    by (simp add: take_frames_encoded [OF w])
qed

lemma framer_runs_concat:
  "framer_wf f \<Longrightarrow>
   run_ops (\<lambda>chunk f. framer_push f chunk) chunks f = (fs, f') \<Longrightarrow>
   framer_push f (concat chunks) = (concat fs, f')"
proof (induction chunks arbitrary: f fs)
  case Nil
  then show ?case
    by (cases f) (auto simp: framer_push_def framer_wf_def incomplete_def take_frames_short)
next
  case (Cons c chunks)
  obtain out f1 where step: "framer_push f c = (out, f1)" by fastforce
  obtain outs where rest: "run_ops (\<lambda>chunk f. framer_push f chunk) chunks f1 = (outs, f')"
    and fs: "fs = out # outs"
    using Cons.prems(2) step by (auto simp: Let_def split: prod.splits)
  have wf1: "framer_wf f1"
    using framer_machine.step_inv [OF Cons.prems(1)] step by (metis snd_conv)
  have IH: "framer_push f1 (concat chunks) = (concat outs, f')"
    using Cons.IH [OF wf1 rest] .
  from step IH show ?case
    by (auto simp: framer_push_def split_beta Let_def fs take_frames_append [of "buffer f @ c" "concat chunks", simplified])
qed

text \<open>C19.
  Chunking independence and exact recovery: however the byte stream of a list of
  encoded frames is cut into chunks, pushing the chunks one after the other into a fresh
  framer hands out exactly the payloads, in order, and leaves the buffer empty.\<close>

theorem framer_reassembles_any_chunking:
  assumes "map_result encode_frame ps = Inr ws"
    and "concat chunks = concat ws"
  shows "\<exists>fs. run_ops (\<lambda>chunk f. framer_push f chunk) chunks framer_new = (fs, \<lparr>buffer = []\<rparr>)
              \<and> concat fs = ps"
proof -
  obtain fs f' where run: "run_ops (\<lambda>chunk f. framer_push f chunk) chunks framer_new = (fs, f')"
    by fastforce
  have "framer_push framer_new (concat chunks) = (concat fs, f')"
    by (rule framer_runs_concat [OF framer_new_wf run])
  moreover have "take_frames (concat ws) = (ps, [])"
    using framer_push_encoded_list [OF assms(1), of "[]"] by (simp add: take_frames_short)
  ultimately show ?thesis
    using run assms(2) by (auto simp: framer_push_def framer_new_def)
qed

theorem framer_reassembles_any_chunking_witness:
  "\<exists>fs. run_ops (\<lambda>chunk f. framer_push f chunk) [[0, 0], [0, 2, 7], [8, 0, 0, 0, 1], [9]] framer_new
        = (fs, \<lparr>buffer = []\<rparr>) \<and> concat fs = [[7, 8], [9]]"
  by (rule framer_reassembles_any_chunking [where ws = "[[0, 0, 0, 2, 7, 8], [0, 0, 0, 1, 9]]"]) code_simp+

text \<open>C31.
  The framer loses nothing: the frames handed out by a push, written out again with
  their length prefixes, followed by the bytes kept, are the bytes kept before followed
  by the chunk; and the bytes kept never contain a complete frame.\<close>

theorem framer_push_conserves:
  "framer_push f chunk = (frames, f') \<Longrightarrow>
     concat (map frame_bytes frames) @ buffer f' = buffer f @ chunk
     \<and> incomplete (buffer f') \<and> (\<forall>p \<in> set frames. encode_frame p = Inr (frame_bytes p))"
  using take_frames_spells [of "buffer f @ chunk"] take_frames_rest_incomplete [of "buffer f @ chunk"]
    take_frames_payload_bound [of _ "buffer f @ chunk"]
  by (auto simp: framer_push_def split_beta Let_def encode_frame_Inr frame_bytes_def)

theorem framer_push_conserves_witness:
  "concat (map frame_bytes [[7 :: u8]]) @ [0, 0] = [0, 0, 0] @ [1, 7, 0, 0]
   \<and> incomplete [0, 0] \<and> encode_frame [7] = Inr (frame_bytes [7])"
  using framer_push_conserves [of "\<lparr>buffer = [0, 0, 0]\<rparr>" "[1, 7, 0, 0]" "[[7]]" "\<lparr>buffer = [0, 0]\<rparr>"]
  by (simp add: framer_push_def take_frames_full take_frames_short) code_simp

end
