(* ===== verification/RudpPacket.thy ===== *)
theory RudpPacket
  imports RustStr
begin

text \<open>
  The RUDP datagram (first and last part of \<open>src/rudp.rs\<close>): packet types, the packet,
  the wire constants, the flag byte, and the functions \<open>encode_rudp_packet\<close> and
  \<open>decode_rudp_packet\<close>. The errors of the whole RUDP module are one datatype, with the
  two ways the code can panic as its last constructors.
\<close>

unbundle bit_operations_syntax

definition RUDP_MAGIC :: bytes where
  "RUDP_MAGIC = [0x43, 0x4e, 0x52, 0x30]"

definition RUDP_VERSION :: u8 where
  "RUDP_VERSION = 0"

definition RUDP_FIXED_HEADER_BYTES :: nat where
  "RUDP_FIXED_HEADER_BYTES = 36"

datatype packet_type = Connect | Accept | Data | Ack | Ping | Pong | Disconnect

record packet =
  p_type :: packet_type
  p_connection_id :: u32
  p_sequence :: u32
  p_ack :: u32
  p_ack_mask :: u32
  p_channel_id :: string
  p_reliable :: bool
  p_ordered :: bool
  p_sequenced :: bool
  p_fragment_id :: u16
  p_fragment_index :: u16
  p_fragment_count :: u16
  p_payload :: bytes

datatype rudp_error =
    ChannelIdTooLong
  | ShorterThanHeader
  | WrongMagic
  | UnsupportedVersion u8
  | UnsupportedPacketType u8
  | HeaderLengthMismatch
  | PayloadLengthMismatch
  | InvalidUtf8
  | ConnectionIdMismatch u32 u32
  | ExpectedConnect packet_type
  | NotConnected
  | ZeroMaxFragmentBytes
  | TooManyFragments
  | ReliableQueueFull
  | SendProducedNoPackets
  | ZeroFragmentId
  | FragmentIndexTooHigh
  | FragmentMetadataChanged
  | OnlyClientConnects
  | NoRemoteEndpoint
  | SocketError
  | PanicSequenceOverflow
  | PanicArithmeticOverflow

section \<open>Header fields\<close>

definition encode_flags :: "packet \<Rightarrow> u8" where
  "encode_flags p =
     (if p_reliable p then 0b00000001 else 0)
     OR (if p_ordered p then 0b00000010 else 0)
     OR (if p_sequenced p then 0b00000100 else 0)
     OR (if 0 < p_fragment_count p then 0b00001000 else 0)"

fun packet_type_to_code :: "packet_type \<Rightarrow> u8" where
  "packet_type_to_code Connect = 1"
| "packet_type_to_code Accept = 2"
| "packet_type_to_code Data = 3"
| "packet_type_to_code Ack = 4"
| "packet_type_to_code Ping = 5"
| "packet_type_to_code Pong = 6"
| "packet_type_to_code Disconnect = 7"

definition packet_type_from_code :: "u8 \<Rightarrow> rudp_error + packet_type" where
  "packet_type_from_code code =
     (if code = 1 then Ok Connect
      else if code = 2 then Ok Accept
      else if code = 3 then Ok Data
      else if code = 4 then Ok Ack
      else if code = 5 then Ok Ping
      else if code = 6 then Ok Pong
      else if code = 7 then Ok Disconnect
      else Err (UnsupportedPacketType code))"

lemma packet_type_from_to_code [simp]: "packet_type_from_code (packet_type_to_code t) = Ok t"
  by (cases t) (simp_all add: packet_type_from_code_def)

lemma packet_type_to_from_code: "packet_type_from_code c = Ok t \<Longrightarrow> packet_type_to_code t = c"
  by (auto simp: packet_type_from_code_def split: if_splits)

section \<open>Encoding\<close>

text \<open>
  The source fills a zeroed vector slice by slice; the slices follow each other without
  gaps, so the vector is their concatenation. \<open>as u8\<close> and \<open>as u32\<close> truncate.
\<close>

definition encode_rudp_packet :: "packet \<Rightarrow> rudp_error + bytes" where
  "encode_rudp_packet p =
     (let channel_id = str_bytes (p_channel_id p) in
      if 255 < length channel_id then Err ChannelIdTooLong
      else let header_bytes = RUDP_FIXED_HEADER_BYTES + length channel_id in
        Ok (RUDP_MAGIC
            @ [RUDP_VERSION, packet_type_to_code (p_type p), encode_flags p, of_nat header_bytes]
            @ u32_to_be (p_connection_id p)
            @ u32_to_be (p_sequence p)
            @ u32_to_be (p_ack p)
            @ u32_to_be (p_ack_mask p)
            @ u16_to_be (p_fragment_id p)
            @ u16_to_be (p_fragment_index p)
            @ u16_to_be (p_fragment_count p)
            @ u32_to_be (of_nat (length (p_payload p)))
            @ [of_nat (length channel_id), 0]
            @ channel_id
            @ p_payload p))"

section \<open>Decoding\<close>

definition decode_rudp_packet :: "bytes \<Rightarrow> rudp_error + packet" where
  "decode_rudp_packet wire =
     (if length wire < RUDP_FIXED_HEADER_BYTES then Err ShorterThanHeader
      else if slice 0 4 wire \<noteq> RUDP_MAGIC then Err WrongMagic
      else if wire ! 4 \<noteq> RUDP_VERSION then Err (UnsupportedVersion (wire ! 4))
      else case packet_type_from_code (wire ! 5) of
        Inl e \<Rightarrow> Err e
      | Inr ptype \<Rightarrow>
        (let header_bytes = unat (wire ! 7);
             channel_id_len = unat (wire ! 34) in
         if header_bytes \<noteq> RUDP_FIXED_HEADER_BYTES + channel_id_len then Err HeaderLengthMismatch
         else let payload_len = unat (u32_from_be (slice 30 34 wire)) in
           if length wire \<noteq> header_bytes + payload_len then Err PayloadLengthMismatch
           else let flags = wire ! 6 in
             case from_utf8 (slice RUDP_FIXED_HEADER_BYTES header_bytes wire) of
               None \<Rightarrow> Err InvalidUtf8
             | Some channel_id \<Rightarrow> Ok \<lparr>
                 p_type = ptype,
                 p_connection_id = u32_from_be (slice 8 12 wire),
                 p_sequence = u32_from_be (slice 12 16 wire),
                 p_ack = u32_from_be (slice 16 20 wire),
                 p_ack_mask = u32_from_be (slice 20 24 wire),
                 p_channel_id = channel_id,
                 p_reliable = (flags AND 0b00000001 \<noteq> 0),
                 p_ordered = (flags AND 0b00000010 \<noteq> 0),
                 p_sequenced = (flags AND 0b00000100 \<noteq> 0),
                 p_fragment_id = u16_from_be (slice 24 26 wire),
                 p_fragment_index = u16_from_be (slice 26 28 wire),
                 p_fragment_count = u16_from_be (slice 28 30 wire),
                 p_payload = drop header_bytes wire \<rparr>))"

section \<open>The codec\<close>

text \<open>
  The packets for which the wire form is faithful: a channel id that is a Rust string of
  at most 219 bytes, so that \<open>header_bytes as u8\<close> does not truncate, and a payload whose
  length fits the 32-bit length field.
\<close>

definition packet_wf :: "packet \<Rightarrow> bool" where
  "packet_wf p \<longleftrightarrow> utf8_valid (p_channel_id p) \<and> length (p_channel_id p) \<le> 219
                 \<and> length (p_payload p) < 2 ^ 32"

lemma encode_flags_bits:
  "(encode_flags p AND 1 \<noteq> 0) = p_reliable p"
  "(encode_flags p AND 2 \<noteq> 0) = p_ordered p"
  "(encode_flags p AND 4 \<noteq> 0) = p_sequenced p"
  by (auto simp: encode_flags_def)

lemma encode_rudp_packet_ok_iff: "is_ok (encode_rudp_packet p) \<longleftrightarrow> length (p_channel_id p) \<le> 255"
  by (simp add: encode_rudp_packet_def Let_def)

lemma decode_encode:
  assumes wf: "packet_wf p" and enc: "encode_rudp_packet p = Ok w"
  shows "decode_rudp_packet w = Ok p"
proof -
  let ?ch = "str_bytes (p_channel_id p)"
  from wf have ch: "length ?ch \<le> 219" and pay: "length (p_payload p) < 2 ^ 32"
    and utf: "utf8_valid (p_channel_id p)"
    by (simp_all add: packet_wf_def)
  have hb: "unat (of_nat (36 + length ?ch) :: u8) = 36 + length ?ch"
    using ch by (intro unat_of_nat_u8) simp
  have cl: "unat (of_nat (length ?ch) :: u8) = length ?ch"
    using ch by (intro unat_of_nat_u8) simp
  have pl: "unat (of_nat (length (p_payload p)) :: u32) = length (p_payload p)"
    using pay by (rule unat_of_nat_u32)
  from enc ch have w: "w = RUDP_MAGIC
            @ [RUDP_VERSION, packet_type_to_code (p_type p), encode_flags p, of_nat (36 + length ?ch)]
            @ u32_to_be (p_connection_id p) @ u32_to_be (p_sequence p)
            @ u32_to_be (p_ack p) @ u32_to_be (p_ack_mask p)
            @ u16_to_be (p_fragment_id p) @ u16_to_be (p_fragment_index p)
            @ u16_to_be (p_fragment_count p)
            @ u32_to_be (of_nat (length (p_payload p)))
            @ [of_nat (length ?ch), 0] @ ?ch @ p_payload p"
    by (simp add: encode_rudp_packet_def Let_def RUDP_FIXED_HEADER_BYTES_def)
  have d36: "drop 36 w = ?ch @ p_payload p" and len: "length w = 36 + length ?ch + length (p_payload p)"
    by (simp_all add: w RUDP_MAGIC_def)
  have chan: "slice 36 (36 + length ?ch) w = ?ch"
    by (simp add: slice_def d36)
  have rest: "drop (36 + length ?ch) w = p_payload p"
    using d36 by (metis add.commute append_eq_conv_conj drop_drop)
  have fields: "slice 0 4 w = RUDP_MAGIC" "w ! 4 = RUDP_VERSION"
      "w ! 5 = packet_type_to_code (p_type p)" "w ! 6 = encode_flags p"
      "w ! 7 = of_nat (36 + length ?ch)" "w ! 34 = of_nat (length ?ch)"
    by (simp_all add: w RUDP_MAGIC_def slice_def nth_append)
  have slices: "slice 8 12 w = u32_to_be (p_connection_id p)" "slice 12 16 w = u32_to_be (p_sequence p)"
      "slice 16 20 w = u32_to_be (p_ack p)" "slice 20 24 w = u32_to_be (p_ack_mask p)"
      "slice 24 26 w = u16_to_be (p_fragment_id p)" "slice 26 28 w = u16_to_be (p_fragment_index p)"
      "slice 28 30 w = u16_to_be (p_fragment_count p)"
      "slice 30 34 w = u32_to_be (of_nat (length (p_payload p)))"
    by (simp_all add: w RUDP_MAGIC_def slice_def)
  show ?thesis
    unfolding decode_rudp_packet_def RUDP_FIXED_HEADER_BYTES_def Let_def
    by (simp add: fields slices hb cl pl chan rest len utf encode_flags_bits
        del: of_nat_add length_str_bytes)
qed

interpretation packet_codec: wire_codec encode_rudp_packet decode_rudp_packet packet_wf
proof unfold_locales
  show "packet_wf p \<Longrightarrow> \<exists>w. encode_rudp_packet p = Ok w" for p
    by (simp add: packet_wf_def encode_rudp_packet_def Let_def)
qed (rule decode_encode)

section \<open>What decoding accepts\<close>

lemma map_nth_upto:
  assumes "n \<le> length w"
  shows "map ((!) w) [0..<n] @ drop n w = w"
proof -
  have "map ((!) w) [0..<n] = take n w"
    using assms by (intro nth_equalityI) auto
  then show ?thesis by simp
qed

lemma header_slices:
  assumes "36 \<le> length w"
  shows "w[6 := f, 35 := 0] =
    slice 0 4 w @ [w ! 4, w ! 5, f, w ! 7] @ slice 8 12 w @ slice 12 16 w @ slice 16 20 w
    @ slice 20 24 w @ slice 24 26 w @ slice 26 28 w @ slice 28 30 w @ slice 30 34 w
    @ [w ! 34, 0] @ drop 36 w"
proof -
  have upto36: "[0..<36] = [0 :: nat, 1, 2, 3, 4, 5, 6, 7, 8, 9, 10, 11, 12, 13, 14, 15, 16, 17, 18,
      19, 20, 21, 22, 23, 24, 25, 26, 27, 28, 29, 30, 31, 32, 33, 34, 35]"
    by code_simp
  define a where "a = (!) w"
  define r where "r = drop 36 w"
  have "map a [0..<36] @ r = w"
    unfolding a_def r_def using assms by (rule map_nth_upto)
  then have w: "w = [a 0, a 1, a 2, a 3, a 4, a 5, a 6, a 7, a 8, a 9, a 10, a 11, a 12, a 13,
      a 14, a 15, a 16, a 17, a 18, a 19, a 20, a 21, a 22, a 23, a 24, a 25, a 26, a 27, a 28,
      a 29, a 30, a 31, a 32, a 33, a 34, a 35] @ r"
    unfolding upto36 by simp
  show ?thesis
    unfolding w by (simp add: slice_def)
qed

lemma decode_ok_shape:
  assumes "decode_rudp_packet w = Ok p"
  shows "36 \<le> length w" "slice 0 4 w = RUDP_MAGIC" "w ! 4 = RUDP_VERSION"
    "w ! 5 = packet_type_to_code (p_type p)"
    "unat (w ! 7) = 36 + unat (w ! 34)"
    "length w = unat (w ! 7) + unat (u32_from_be (slice 30 34 w))"
    "utf8_valid (p_channel_id p)" "str_bytes (p_channel_id p) = slice 36 (unat (w ! 7)) w"
    "p_payload p = drop (unat (w ! 7)) w"
    "p_connection_id p = u32_from_be (slice 8 12 w)" "p_sequence p = u32_from_be (slice 12 16 w)"
    "p_ack p = u32_from_be (slice 16 20 w)" "p_ack_mask p = u32_from_be (slice 20 24 w)"
    "p_fragment_id p = u16_from_be (slice 24 26 w)" "p_fragment_index p = u16_from_be (slice 26 28 w)"
    "p_fragment_count p = u16_from_be (slice 28 30 w)"
  using assms
  by (auto simp: decode_rudp_packet_def RUDP_FIXED_HEADER_BYTES_def Let_def from_utf8_Some_iff
      dest: packet_type_to_from_code split: if_splits sum.splits option.splits)

lemma decode_ok_lengths:
  assumes "decode_rudp_packet w = Ok p"
  shows "length (p_channel_id p) = unat (w ! 34)" "unat (w ! 7) = 36 + length (p_channel_id p)"
    "length (p_payload p) = unat (u32_from_be (slice 30 34 w))"
    "length (p_channel_id p) \<le> 219"
proof -
  note shape = decode_ok_shape [OF assms]
  have "length (str_bytes (p_channel_id p)) = unat (w ! 7) - 36"
    using shape(5,6) by (simp add: shape(8) length_slice)
  then show len: "length (p_channel_id p) = unat (w ! 34)"
    and "unat (w ! 7) = 36 + length (p_channel_id p)"
    using shape(5) by simp_all
  show "length (p_payload p) = unat (u32_from_be (slice 30 34 w))"
    using shape(6) by (simp add: shape(9))
  have "unat (w ! 7) < 256" using unat_less_exp [of "w ! 7"] by simp
  then show "length (p_channel_id p) \<le> 219" using shape(5) len by linarith
qed

lemma decode_ok_packet_wf: "decode_rudp_packet w = Ok p \<Longrightarrow> packet_wf p"
  using decode_ok_shape(7) [of w p] decode_ok_lengths [of w p]
    unat_less_exp [of "u32_from_be (slice 30 34 w)"]
  by (simp add: packet_wf_def)

section \<open>Claims\<close>

text \<open>C27.
  Round trip of the datagram codec: every packet whose channel id is a valid string of at
  most 219 bytes and whose payload is shorter than \<open>2 ^ 32\<close> bytes has a wire form, and
  decoding it gives the packet back, all thirteen fields.\<close>

theorem rudp_packet_roundtrip:
  "packet_wf p \<Longrightarrow> \<exists>w. encode_rudp_packet p = Ok w \<and> decode_rudp_packet w = Ok p"
  by (rule packet_codec.roundtrip)

definition fixture_packet :: packet where
  "fixture_packet = \<lparr> p_type = Data, p_connection_id = 0x01020304, p_sequence = 0x2a,
     p_ack = 0x29, p_ack_mask = 0x80000001, p_channel_id = ''schema'', p_reliable = True,
     p_ordered = True, p_sequenced = False, p_fragment_id = 7, p_fragment_index = 1,
     p_fragment_count = 3, p_payload = str_bytes ''hello'' \<rparr>"

lemma fixture_packet_wf: "packet_wf fixture_packet"
  by (simp add: packet_wf_def fixture_packet_def str_bytes_def utf8_valid_ascii)

lemma fixture_packet_wire:
  "encode_rudp_packet fixture_packet = Ok
     [67, 78, 82, 48, 0, 3, 11, 42, 1, 2, 3, 4, 0, 0, 0, 42, 0, 0, 0, 41, 128, 0, 0, 1, 0, 7,
      0, 1, 0, 3, 0, 0, 0, 5, 6, 0, 115, 99, 104, 101, 109, 97, 104, 101, 108, 108, 111]"
  by code_simp

theorem rudp_packet_roundtrip_witness:
  "\<exists>w. encode_rudp_packet fixture_packet = Ok w \<and> decode_rudp_packet w = Ok fixture_packet"
  by (rule rudp_packet_roundtrip [OF fixture_packet_wf])

text \<open>C28.
  Decoding is canonical: whatever datagram is accepted, the packet read from it is
  well-formed and its encoding is the same datagram, except that the flag byte is
  normalised and the reserved byte is zero. No other byte of an accepted datagram is ignored.\<close>

theorem decode_rudp_packet_canonical:
  assumes "decode_rudp_packet w = Ok p"
  shows "packet_wf p \<and> encode_rudp_packet p = Ok (w[6 := encode_flags p, 35 := 0])"
proof -
  note shape = decode_ok_shape [OF assms] and lens = decode_ok_lengths [OF assms]
  let ?hb = "unat (w ! 7)"
  have hb: "of_nat (36 + length (p_channel_id p)) = w ! 7"
    using lens(2) by (metis of_nat_unat ucast_id)
  have cl: "of_nat (length (p_channel_id p)) = w ! 34"
    using lens(1) by (metis of_nat_unat ucast_id)
  have hb': "36 + w ! 34 = w ! 7"
    using hb by (simp add: cl)
  have pl: "of_nat (length (p_payload p)) = u32_from_be (slice 30 34 w)"
    using lens(3) by (metis of_nat_unat ucast_id)
  have tail: "drop 36 w = str_bytes (p_channel_id p) @ p_payload p"
  proof -
    have "slice 36 ?hb w = take (?hb - 36) (drop 36 w)" by (simp add: slice_def)
    moreover have "drop ?hb w = drop (?hb - 36) (drop 36 w)"
      using shape(5) by (simp add: add.commute)
    ultimately show ?thesis
      unfolding shape(8,9) by (simp only: append_take_drop_id)
  qed
  have "encode_rudp_packet p = Ok (slice 0 4 w @ [w ! 4, w ! 5, encode_flags p, w ! 7] @ slice 8 12 w
    @ slice 12 16 w @ slice 16 20 w @ slice 20 24 w @ slice 24 26 w @ slice 26 28 w @ slice 28 30 w
    @ slice 30 34 w @ [w ! 34, 0] @ drop 36 w)"
    using shape(1) lens(4)
    by (simp add: encode_rudp_packet_def Let_def RUDP_FIXED_HEADER_BYTES_def hb' cl pl
        tail shape(2,3,4) shape(10-16) length_slice be_simps)
  then show ?thesis
    using decode_ok_packet_wf [OF assms] header_slices [OF shape(1)] by simp
qed

theorem decode_rudp_packet_canonical_witness:
  "packet_wf fixture_packet
   \<and> encode_rudp_packet fixture_packet = Ok ([67, 78, 82, 48, 0, 3, 0xfb, 42, 1, 2, 3, 4, 0, 0, 0, 42,
      0, 0, 0, 41, 128, 0, 0, 1, 0, 7, 0, 1, 0, 3, 0, 0, 0, 5, 6, 9, 115, 99, 104, 101, 109, 97,
      104, 101, 108, 108, 111] [6 := encode_flags fixture_packet, 35 := 0])"
  by (rule decode_rudp_packet_canonical) code_simp

text \<open>
  Encoder and decoder disagree on long channel ids: the encoder accepts up to 255 bytes,
  but from 220 bytes on the header length no longer fits the one-byte field it is truncated
  into, and the decoder refuses the datagram the encoder has produced.\<close>

theorem long_channel_id_not_decodable:
  assumes "220 \<le> length (p_channel_id p)" "length (p_channel_id p) \<le> 255"
  shows "\<exists>w. encode_rudp_packet p = Ok w \<and> decode_rudp_packet w = Err HeaderLengthMismatch"
proof -
  let ?ch = "str_bytes (p_channel_id p)"
  let ?w = "RUDP_MAGIC @ [RUDP_VERSION, packet_type_to_code (p_type p), encode_flags p,
      of_nat (36 + length ?ch)] @ u32_to_be (p_connection_id p) @ u32_to_be (p_sequence p)
      @ u32_to_be (p_ack p) @ u32_to_be (p_ack_mask p) @ u16_to_be (p_fragment_id p)
      @ u16_to_be (p_fragment_index p) @ u16_to_be (p_fragment_count p)
      @ u32_to_be (of_nat (length (p_payload p))) @ [of_nat (length ?ch), 0] @ ?ch @ p_payload p"
  have enc: "encode_rudp_packet p = Ok ?w"
    using assms by (simp add: encode_rudp_packet_def Let_def RUDP_FIXED_HEADER_BYTES_def)
  have fields: "slice 0 4 ?w = RUDP_MAGIC" "?w ! 4 = RUDP_VERSION"
      "?w ! 5 = packet_type_to_code (p_type p)" "?w ! 7 = of_nat (36 + length ?ch)"
      "?w ! 34 = of_nat (length ?ch)" "36 \<le> length ?w"
    by (simp_all add: RUDP_MAGIC_def slice_def nth_append)
  have "unat (of_nat (length ?ch) :: u8) = length ?ch"
    using assms by (intro unat_of_nat_u8) simp
  moreover have "unat (of_nat (36 + length ?ch) :: u8) < 256"
    using unat_less_exp [of "of_nat (36 + length ?ch) :: u8"] by simp
  ultimately have "unat (?w ! 7) \<noteq> 36 + unat (?w ! 34)"
    unfolding fields using assms by (simp del: of_nat_add)
  then have "decode_rudp_packet ?w = Err HeaderLengthMismatch"
    using fields(6) unfolding decode_rudp_packet_def RUDP_FIXED_HEADER_BYTES_def Let_def fields
    by (simp del: of_nat_add)
  with enc show ?thesis by blast
qed

theorem long_channel_id_not_decodable_witness:
  "\<exists>w. encode_rudp_packet (fixture_packet\<lparr>p_channel_id := replicate 220 CHR ''c''\<rparr>) = Ok w
       \<and> decode_rudp_packet w = Err HeaderLengthMismatch"
  by (rule long_channel_id_not_decodable) simp_all

end
