(* ===== verification/RudpSession.thy ===== *)
theory RudpSession
  imports RudpPacket
begin

text \<open>
  The RUDP session, \<open>CultNetRudpSession\<close> of \<open>src/rudp.rs\<close>: its state and every one of
  its operations, in the order of the source. An operation that takes \<open>&mut self\<close> returns
  its result together with the next state, also when the result is an error, because the
  code keeps the changes it made before an early return. The flag \<open>oc\<close> says whether the
  crate is built with overflow checks (see theory \<open>Prelude\<close>); times are milliseconds.
  This theory holds the definitions and the facts about the acknowledgement window;
  the invariant, delivery and fragmentation are in the theories that import it.
\<close>

section \<open>State\<close>

record delivered_frame =
  df_channel_id :: string
  df_payload :: bytes
  df_sequence :: u32

record receive_result =
  rr_delivered :: "delivered_frame list"
  rr_reply :: "packet option"
  rr_pong :: bool
  rr_pong_payload :: bytes
  rr_disconnected :: bool
  rr_disconnect_reason :: bytes

record session_options =
  so_connection_id :: u32
  so_initial_sequence :: u32
  so_resend_delay_ms :: u64
  so_max_pending_reliable_packets :: "nat option"

definition default_session_options :: session_options where
  "default_session_options = \<lparr> so_connection_id = 0, so_initial_sequence = 1,
     so_resend_delay_ms = 250, so_max_pending_reliable_packets = None \<rparr>"

record send_options =
  o_reliable :: bool
  o_ordered :: bool
  o_sequenced :: bool
  o_now_ms :: u64
  o_reliable_expire_after_ms :: "u64 option"

record pending_reliable_packet =
  pr_packet :: packet
  pr_last_sent_at_ms :: u64
  pr_expires_at_ms :: "u64 option"

record pending_ordered_frame =
  po_frame :: delivered_frame
  po_next_sequence :: u32

record fragment_buffer =
  fb_channel_id :: string
  fb_ordered :: bool
  fb_fragment_count :: u16
  fb_payloads :: "(u16, bytes) btree"
  fb_sequences :: "(u16, u32) btree"

record session =
  connection_id :: u32
  resend_delay_ms :: u64
  max_pending_reliable_packets :: "nat option"
  next_sequence :: u32
  next_fragment_id :: u16
  connected :: bool
  last_received_at_ms :: "u64 option"
  highest_received_sequence :: "u32 option"
  received_sequences :: "u32 bset"
  pending_reliable :: "(u32, pending_reliable_packet) btree"
  ordered_next_sequence_by_channel :: "(string, u32) btree"
  ordered_buffers :: "(string, (u32, pending_ordered_frame) btree) btree"
  fragment_buffers :: "(string \<times> u16, fragment_buffer) btree"
  highest_delivered_sequenced_by_channel :: "(string, u32) btree"
  reliable_packets_expired :: u64

type_synonym 'a session_op = "session \<Rightarrow> (rudp_error + 'a) \<times> session"

definition session_new :: "session_options \<Rightarrow> session" where
  "session_new opts = \<lparr>
     connection_id = so_connection_id opts,
     resend_delay_ms = so_resend_delay_ms opts,
     max_pending_reliable_packets = so_max_pending_reliable_packets opts,
     next_sequence = so_initial_sequence opts,
     next_fragment_id = 1,
     connected = False,
     last_received_at_ms = None,
     highest_received_sequence = None,
     received_sequences = [],
     pending_reliable = [],
     ordered_next_sequence_by_channel = [],
     ordered_buffers = [],
     fragment_buffers = [],
     highest_delivered_sequenced_by_channel = [],
     reliable_packets_expired = 0 \<rparr>"

definition reset_peer_state :: "session \<Rightarrow> session" where
  "reset_peer_state s = s\<lparr>
     connected := False,
     last_received_at_ms := None,
     highest_received_sequence := None,
     received_sequences := [],
     pending_reliable := [],
     ordered_next_sequence_by_channel := [],
     ordered_buffers := [],
     fragment_buffers := [],
     highest_delivered_sequenced_by_channel := [] \<rparr>"

definition assume_connected :: "u64 \<Rightarrow> session \<Rightarrow> session" where
  "assume_connected now_ms s = s\<lparr>connected := True, last_received_at_ms := Some now_ms\<rparr>"

definition pending_reliable_sequences :: "session \<Rightarrow> u32 list" where
  "pending_reliable_sequences s = bt_keys (pending_reliable s)"

section \<open>Building and tracking packets\<close>

text \<open>The acknowledgement window: the highest sequence received and the 32 below it.\<close>

definition ack_state :: "session \<Rightarrow> u32 \<times> u32" where
  "ack_state s =
     (let ack = (case highest_received_sequence s of None \<Rightarrow> 0 | Some h \<Rightarrow> h);
          ack_mask = fold (\<lambda>bit mask.
            if of_nat bit < ack \<and> bs_member (ack - of_nat bit - 1) (received_sequences s)
            then mask OR push_bit bit 1 else mask) [0..<32] 0
      in (ack, ack_mask))"

definition create_packet_with_fragments ::
  "packet_type \<Rightarrow> string \<Rightarrow> bytes \<Rightarrow> bool \<Rightarrow> bool \<Rightarrow> bool \<Rightarrow> u16 \<Rightarrow> u16 \<Rightarrow> u16 \<Rightarrow> packet session_op" where
  "create_packet_with_fragments ptype channel_id payload reliable ordered sequenced
     fragment_id fragment_index fragment_count s =
     (let sequence = next_sequence s in
      case checked_add (next_sequence s) 1 of
        None \<Rightarrow> (Err PanicSequenceOverflow, s)
      | Some nxt \<Rightarrow>
        (let s1 = s\<lparr>next_sequence := nxt\<rparr>;
             (ack, ack_mask) = ack_state s1
         in (Ok \<lparr> p_type = ptype, p_connection_id = connection_id s1, p_sequence = sequence,
                  p_ack = ack, p_ack_mask = ack_mask, p_channel_id = channel_id,
                  p_reliable = reliable, p_ordered = ordered, p_sequenced = sequenced,
                  p_fragment_id = fragment_id, p_fragment_index = fragment_index,
                  p_fragment_count = fragment_count, p_payload = payload \<rparr>, s1)))"

definition create_packet ::
  "packet_type \<Rightarrow> string \<Rightarrow> bytes \<Rightarrow> bool \<Rightarrow> bool \<Rightarrow> bool \<Rightarrow> packet session_op" where
  "create_packet ptype channel_id payload reliable ordered sequenced s =
     create_packet_with_fragments ptype channel_id payload reliable ordered sequenced 0 0 0 s"

definition track_reliable :: "send_options \<Rightarrow> packet \<Rightarrow> session \<Rightarrow> session" where
  "track_reliable opts p s =
     (let expires_at_ms = map_option (saturating_add (o_now_ms opts)) (o_reliable_expire_after_ms opts)
      in s\<lparr>pending_reliable := bt_insert (p_sequence p)
             \<lparr> pr_packet = p, pr_last_sent_at_ms = o_now_ms opts, pr_expires_at_ms = expires_at_ms \<rparr>
             (pending_reliable s)\<rparr>)"

definition ensure_reliable_capacity :: "nat \<Rightarrow> session \<Rightarrow> rudp_error + unit" where
  "ensure_reliable_capacity packet_count s =
     (if packet_count = 0 then Ok ()
      else case max_pending_reliable_packets s of
        Some limit \<Rightarrow> if limit < length (pending_reliable s) + packet_count
                       then Err ReliableQueueFull else Ok ()
      | None \<Rightarrow> Ok ())"

definition not_expired :: "u64 \<Rightarrow> pending_reliable_packet \<Rightarrow> bool" where
  "not_expired now_ms pending =
     (case pr_expires_at_ms pending of None \<Rightarrow> True | Some expires_at_ms \<Rightarrow> now_ms \<le> expires_at_ms)"

definition purge_expired_reliable :: "u64 \<Rightarrow> session \<Rightarrow> session" where
  "purge_expired_reliable now_ms s =
     (let before = length (pending_reliable s);
          kept = bt_retain (not_expired now_ms) (pending_reliable s)
      in s\<lparr>pending_reliable := kept,
           reliable_packets_expired := reliable_packets_expired s + of_nat (before - length kept)\<rparr>)"

definition apply_acknowledgements :: "packet \<Rightarrow> session \<Rightarrow> session" where
  "apply_acknowledgements p s =
     s\<lparr>pending_reliable :=
        fold (\<lambda>bit m. if p_ack_mask p AND push_bit bit 1 \<noteq> 0 \<and> of_nat bit < p_ack p
                      then bt_remove (p_ack p - of_nat bit - 1) m else m)
          [0..<32] (bt_remove (p_ack p) (pending_reliable s))\<rparr>"

definition remember_received :: "u32 \<Rightarrow> session \<Rightarrow> session" where
  "remember_received sequence s =
     (let s1 = s\<lparr>received_sequences := bs_insert sequence (received_sequences s)\<rparr> in
      if (case highest_received_sequence s1 of None \<Rightarrow> True | Some highest \<Rightarrow> highest < sequence)
      then s1\<lparr>highest_received_sequence := Some sequence\<rparr> else s1)"

definition require_connection :: "packet \<Rightarrow> session \<Rightarrow> rudp_error + unit" where
  "require_connection p s =
     (if p_connection_id p \<noteq> connection_id s
      then Err (ConnectionIdMismatch (p_connection_id p) (connection_id s)) else Ok ())"

text \<open>\<open>saturating_add\<close> never gives 0, so the second branch of the source is dead code.\<close>

definition allocate_fragment_id :: "session \<Rightarrow> u16 \<times> session" where
  "allocate_fragment_id s =
     (let fragment_id = next_fragment_id s;
          s1 = s\<lparr>next_fragment_id := saturating_add (next_fragment_id s) 1\<rparr>;
          s2 = (if next_fragment_id s1 = 0 then s1\<lparr>next_fragment_id := 1\<rparr> else s1)
      in (fragment_id, s2))"

section \<open>Connecting\<close>

definition control_send_options :: "u64 \<Rightarrow> send_options" where
  "control_send_options now_ms = \<lparr> o_reliable = True, o_ordered = True, o_sequenced = False,
     o_now_ms = now_ms, o_reliable_expire_after_ms = None \<rparr>"

definition create_connect :: "u64 \<Rightarrow> bytes \<Rightarrow> packet session_op" where
  "create_connect now_ms payload s =
     (case ensure_reliable_capacity 1 s of
        Inl e \<Rightarrow> (Err e, s)
      | Inr _ \<Rightarrow>
        (case create_packet Connect ''control'' payload True True False s of
           (Inl e, s1) \<Rightarrow> (Err e, s1)
         | (Inr p, s1) \<Rightarrow> (Ok p, track_reliable (control_send_options now_ms) p s1)))"

definition accept_connect :: "packet \<Rightarrow> u64 \<Rightarrow> bytes \<Rightarrow> packet session_op" where
  "accept_connect p now_ms payload s =
     (case require_connection p s of
        Inl e \<Rightarrow> (Err e, s)
      | Inr _ \<Rightarrow>
        if p_type p \<noteq> Connect then (Err (ExpectedConnect (p_type p)), s)
        else let was_connected = connected s in
          (case (if was_connected then Ok () else ensure_reliable_capacity 1 s) of
             Inl e \<Rightarrow> (Err e, s)
           | Inr _ \<Rightarrow>
             (let s1 = (remember_received (p_sequence p) s)\<lparr>last_received_at_ms := Some now_ms,
                                                            connected := True\<rparr> in
              case create_packet Accept ''control'' payload True True False s1 of
                (Inl e, s2) \<Rightarrow> (Err e, s2)
              | (Inr response, s2) \<Rightarrow>
                (Ok response, if was_connected then s2
                              else track_reliable (control_send_options now_ms) response s2))))"

section \<open>Sending\<close>

definition track_if_reliable :: "send_options \<Rightarrow> packet \<Rightarrow> session \<Rightarrow> session" where
  "track_if_reliable opts p s = (if p_reliable p then track_reliable opts p s else s)"

text \<open>The loop over the fragments; a panic of \<open>create_packet\<close> leaves it.\<close>

fun send_fragments ::
  "string \<Rightarrow> bytes \<Rightarrow> send_options \<Rightarrow> nat \<Rightarrow> u16 \<Rightarrow> nat \<Rightarrow> nat list \<Rightarrow> packet list session_op" where
  "send_fragments channel_id payload opts maxb fid cnt [] s = (Ok [], s)"
| "send_fragments channel_id payload opts maxb fid cnt (index # rest) s =
     (let start = index * maxb;
          stop = min (start + maxb) (length payload) in
      case create_packet_with_fragments Data channel_id (slice start stop payload)
             (o_reliable opts) (o_ordered opts) (o_sequenced opts)
             fid (of_nat index) (of_nat cnt) s of
        (Inl e, s1) \<Rightarrow> (Err e, s1)
      | (Inr p, s1) \<Rightarrow>
        (case send_fragments channel_id payload opts maxb fid cnt rest (track_if_reliable opts p s1) of
           (Inl e, s2) \<Rightarrow> (Err e, s2)
         | (Inr ps, s2) \<Rightarrow> (Ok (p # ps), s2)))"

definition div_ceil :: "nat \<Rightarrow> nat \<Rightarrow> nat" where
  "div_ceil a b = (a + b - 1) div b"

definition send_single :: "string \<Rightarrow> bytes \<Rightarrow> send_options \<Rightarrow> packet list session_op" where
  "send_single channel_id payload opts s =
     (case ensure_reliable_capacity (if o_reliable opts then 1 else 0) s of
        Inl e \<Rightarrow> (Err e, s)
      | Inr _ \<Rightarrow>
        (case create_packet Data channel_id payload (o_reliable opts) (o_ordered opts)
                (o_sequenced opts) s of
           (Inl e, s1) \<Rightarrow> (Err e, s1)
         | (Inr p, s1) \<Rightarrow> (Ok [p], track_if_reliable opts p s1)))"

definition send_fragmented :: "string \<Rightarrow> bytes \<Rightarrow> send_options \<Rightarrow> nat \<Rightarrow> packet list session_op" where
  "send_fragmented channel_id payload opts maxb s =
     (let fragment_count = div_ceil (length payload) maxb in
      if 65535 < fragment_count then (Err TooManyFragments, s)
      else case ensure_reliable_capacity (if o_reliable opts then fragment_count else 0) s of
        Inl e \<Rightarrow> (Err e, s)
      | Inr _ \<Rightarrow>
        (let (fragment_id, s1) = allocate_fragment_id s in
         send_fragments channel_id payload opts maxb fragment_id fragment_count
           [0..<fragment_count] s1))"

definition send_many :: "string \<Rightarrow> bytes \<Rightarrow> send_options \<Rightarrow> nat option \<Rightarrow> packet list session_op" where
  "send_many channel_id payload opts max_fragment_bytes s =
     (if \<not> connected s then (Err NotConnected, s)
      else let s1 = purge_expired_reliable (o_now_ms opts) s in
        case max_fragment_bytes of
          None \<Rightarrow> send_single channel_id payload opts s1
        | Some maxb \<Rightarrow>
            if maxb = 0 then (Err ZeroMaxFragmentBytes, s1)
            else if maxb < length payload then send_fragmented channel_id payload opts maxb s1
            else send_single channel_id payload opts s1)"

definition send :: "string \<Rightarrow> bytes \<Rightarrow> send_options \<Rightarrow> packet session_op" where
  "send channel_id payload opts s =
     (case send_many channel_id payload opts None s of
        (Inl e, s1) \<Rightarrow> (Err e, s1)
      | (Inr [], s1) \<Rightarrow> (Err SendProducedNoPackets, s1)
      | (Inr (p # _), s1) \<Rightarrow> (Ok p, s1))"

section \<open>Reassembling fragments\<close>

fun collect_fragments :: "fragment_buffer \<Rightarrow> nat list \<Rightarrow> (bytes \<times> u32 list) option" where
  "collect_fragments b [] = Some ([], [])"
| "collect_fragments b (index # rest) =
     (case map_of (fb_payloads b) (of_nat index) of
        None \<Rightarrow> None
      | Some chunk \<Rightarrow>
        (case map_of (fb_sequences b) (of_nat index) of
           None \<Rightarrow> None
         | Some sequence \<Rightarrow>
           (case collect_fragments b rest of
              None \<Rightarrow> None
            | Some (payload, sequences) \<Rightarrow> Some (chunk @ payload, sequence # sequences))))"

definition new_fragment_buffer :: "packet \<Rightarrow> fragment_buffer" where
  "new_fragment_buffer p = \<lparr> fb_channel_id = p_channel_id p, fb_ordered = p_ordered p,
     fb_fragment_count = p_fragment_count p, fb_payloads = [], fb_sequences = [] \<rparr>"

definition reassemble ::
  "bool \<Rightarrow> packet \<Rightarrow> (delivered_frame \<times> bool \<times> u32) option session_op" where
  "reassemble oc p s =
     (if p_fragment_count p = 0 then
        (case rust_add oc (p_sequence p) 1 of
           None \<Rightarrow> (Err PanicArithmeticOverflow, s)
         | Some nxt \<Rightarrow>
             (Ok (Some (\<lparr> df_channel_id = p_channel_id p, df_payload = p_payload p,
                          df_sequence = p_sequence p \<rparr>, p_ordered p, nxt)), s))
      else if p_fragment_id p = 0 then (Err ZeroFragmentId, s)
      else if p_fragment_count p \<le> p_fragment_index p then (Err FragmentIndexTooHigh, s)
      else
        let key = (p_channel_id p, p_fragment_id p);
            buf = (case map_of (fragment_buffers s) key of
                     None \<Rightarrow> new_fragment_buffer p | Some b \<Rightarrow> b);
            s1 = s\<lparr>fragment_buffers := bt_insert key buf (fragment_buffers s)\<rparr>
        in if fb_fragment_count buf \<noteq> p_fragment_count p \<or> fb_ordered buf \<noteq> p_ordered p
           then (Err FragmentMetadataChanged, s1)
           else
             let buf1 = buf\<lparr>fb_payloads := bt_insert (p_fragment_index p) (p_payload p) (fb_payloads buf),
                            fb_sequences := bt_insert (p_fragment_index p) (p_sequence p) (fb_sequences buf)\<rparr>;
                 s2 = s1\<lparr>fragment_buffers := bt_insert key buf1 (fragment_buffers s1)\<rparr>
             in if length (fb_payloads buf1) < unat (p_fragment_count p) then (Ok None, s2)
                else case collect_fragments buf1 [0..<unat (p_fragment_count p)] of
                  None \<Rightarrow> (Ok None, s2)
                | Some (payload, sequences) \<Rightarrow>
                  (let s3 = s2\<lparr>fragment_buffers := bt_remove key (fragment_buffers s2)\<rparr> in
                   case rust_add oc (Max (set sequences)) 1 of
                     None \<Rightarrow> (Err PanicArithmeticOverflow, s3)
                   | Some nxt \<Rightarrow>
                     (Ok (Some (\<lparr> df_channel_id = fb_channel_id buf1, df_payload = payload,
                                  df_sequence = Min (set sequences) \<rparr>, fb_ordered buf1, nxt)), s3)))"

section \<open>Ordered delivery\<close>

definition ordered_buffer_size :: "session \<Rightarrow> string \<Rightarrow> nat" where
  "ordered_buffer_size s ch = (case map_of (ordered_buffers s) ch of None \<Rightarrow> 0 | Some b \<Rightarrow> length b)"

text \<open>The loop of \<open>drain_ordered\<close>: every round removes a frame from the channel's buffer.\<close>

function drain_ordered :: "string \<Rightarrow> session \<Rightarrow> delivered_frame list \<times> session" where
  "drain_ordered ch s =
     (case map_of (ordered_next_sequence_by_channel s) ch of
        None \<Rightarrow> ([], s)
      | Some nxt \<Rightarrow>
        (case map_of (ordered_buffers s) ch of
           None \<Rightarrow> ([], s)
         | Some buf \<Rightarrow>
           (case map_of buf nxt of
              None \<Rightarrow> ([], s)
            | Some pending \<Rightarrow>
              (let s1 = s\<lparr>ordered_buffers := bt_insert ch (bt_remove nxt buf) (ordered_buffers s),
                          ordered_next_sequence_by_channel :=
                            bt_insert ch (po_next_sequence pending) (ordered_next_sequence_by_channel s)\<rparr>;
                   (frames, s2) = drain_ordered ch s1
               in (po_frame pending # frames, s2)))))"
  by pat_completeness auto
termination
  by (relation "measure (\<lambda>(ch, s). ordered_buffer_size s ch)")
     (auto simp: ordered_buffer_size_def length_bt_remove_less)

declare drain_ordered.simps [simp del]

definition deliver_ordered ::
  "delivered_frame \<Rightarrow> u32 \<Rightarrow> u32 \<Rightarrow> session \<Rightarrow> delivered_frame list \<times> session" where
  "deliver_ordered frame next_sequence_after_frame expected_sequence_if_uninitialized s =
     (let ch = df_channel_id frame;
          (nxt, s1) =
            (case map_of (ordered_next_sequence_by_channel s) ch of
               Some nxt \<Rightarrow> (nxt, s)
             | None \<Rightarrow>
               (let first = min expected_sequence_if_uninitialized (df_sequence frame) in
                (first, s\<lparr>ordered_next_sequence_by_channel :=
                           bt_insert ch first (ordered_next_sequence_by_channel s)\<rparr>)))
      in if df_sequence frame < nxt then ([], s1)
         else if nxt < df_sequence frame then
           (let buf = (case map_of (ordered_buffers s1) ch of None \<Rightarrow> [] | Some b \<Rightarrow> b) in
            ([], s1\<lparr>ordered_buffers := bt_insert ch
               (bt_insert (df_sequence frame)
                  \<lparr> po_frame = frame, po_next_sequence = next_sequence_after_frame \<rparr> buf)
               (ordered_buffers s1)\<rparr>))
         else
           (let s2 = s1\<lparr>ordered_next_sequence_by_channel :=
                          bt_insert ch next_sequence_after_frame (ordered_next_sequence_by_channel s1)\<rparr>;
                (frames, s3) = drain_ordered ch s2
            in (frame # frames, s3)))"

section \<open>Receiving\<close>

definition empty_result :: receive_result where
  "empty_result = \<lparr> rr_delivered = [], rr_reply = None, rr_pong = False, rr_pong_payload = [],
     rr_disconnected = False, rr_disconnect_reason = [] \<rparr>"

text \<open>The end of \<open>receive\<close>, once a frame is complete.\<close>

definition deliver_frame ::
  "packet \<Rightarrow> u32 \<Rightarrow> delivered_frame \<times> bool \<times> u32 \<Rightarrow> session \<Rightarrow> receive_result \<times> session" where
  "deliver_frame p expected complete s =
     (let (frame, ordered, nxt) = complete in
      if p_sequenced p \<and> \<not> ordered then
        (let ch = df_channel_id frame;
             highest = (case map_of (highest_delivered_sequenced_by_channel s) ch of
                          None \<Rightarrow> df_sequence frame | Some h \<Rightarrow> h)
         in if df_sequence frame < highest then
              (empty_result, s\<lparr>highest_delivered_sequenced_by_channel :=
                 bt_insert ch highest (highest_delivered_sequenced_by_channel s)\<rparr>)
            else (empty_result\<lparr>rr_delivered := [frame]\<rparr>, s\<lparr>highest_delivered_sequenced_by_channel :=
                 bt_insert ch (df_sequence frame) (highest_delivered_sequenced_by_channel s)\<rparr>))
      else if ordered then
        (let (frames, s1) = deliver_ordered frame nxt expected s in
         (empty_result\<lparr>rr_delivered := frames\<rparr>, s1))
      else (empty_result\<lparr>rr_delivered := [frame]\<rparr>, s))"

definition receive_data :: "bool \<Rightarrow> packet \<Rightarrow> u32 \<Rightarrow> receive_result session_op" where
  "receive_data oc p expected s =
     (let duplicate = bs_member (p_sequence p) (received_sequences s);
          s1 = remember_received (p_sequence p) s
      in if duplicate then (Ok empty_result, s1)
         else case reassemble oc p s1 of
           (Inl e, s2) \<Rightarrow> (Err e, s2)
         | (Inr None, s2) \<Rightarrow> (Ok empty_result, s2)
         | (Inr (Some complete), s2) \<Rightarrow>
             (let (r, s3) = deliver_frame p expected complete s2 in (Ok r, s3)))"

definition receive :: "bool \<Rightarrow> packet \<Rightarrow> u64 \<Rightarrow> receive_result session_op" where
  "receive oc p now_ms s =
     (case require_connection p s of
        Inl e \<Rightarrow> (Err e, s)
      | Inr _ \<Rightarrow>
        (let s1 = (apply_acknowledgements p s)\<lparr>last_received_at_ms := Some now_ms\<rparr> in
         case (case highest_received_sequence s1 of
                 None \<Rightarrow> Some (p_sequence p) | Some h \<Rightarrow> rust_add oc h 1) of
           None \<Rightarrow> (Err PanicArithmeticOverflow, s1)
         | Some expected \<Rightarrow>
           (case p_type p of
              Accept \<Rightarrow> (Ok empty_result, (remember_received (p_sequence p) s1)\<lparr>connected := True\<rparr>)
            | Ping \<Rightarrow>
                (let s2 = remember_received (p_sequence p) s1 in
                 case create_packet Pong ''control'' (p_payload p) False False False s2 of
                   (Inl e, s3) \<Rightarrow> (Err e, s3)
                 | (Inr reply, s3) \<Rightarrow> (Ok (empty_result\<lparr>rr_reply := Some reply\<rparr>), s3))
            | Ack \<Rightarrow> (Ok empty_result, remember_received (p_sequence p) s1)
            | Pong \<Rightarrow> (Ok (empty_result\<lparr>rr_pong := True, rr_pong_payload := p_payload p\<rparr>),
                       remember_received (p_sequence p) s1)
            | Disconnect \<Rightarrow>
                (Ok (empty_result\<lparr>rr_disconnected := True, rr_disconnect_reason := p_payload p\<rparr>),
                 (remember_received (p_sequence p) s1)\<lparr>connected := False\<rparr>)
            | Connect \<Rightarrow> (Ok empty_result, s1)
            | Data \<Rightarrow> receive_data oc p expected s1)))"

section \<open>Control packets, timeouts, resends\<close>

definition create_ack :: "packet session_op" where
  "create_ack s = create_packet Ack ''control'' [] False False False s"

definition create_ping :: "bytes \<Rightarrow> packet session_op" where
  "create_ping payload s = create_packet Ping ''control'' payload False False False s"

definition create_disconnect :: "bytes \<Rightarrow> packet session_op" where
  "create_disconnect reason s =
     create_packet Disconnect ''control'' reason False False False (s\<lparr>connected := False\<rparr>)"

definition check_timeout :: "u64 \<Rightarrow> u64 \<Rightarrow> session \<Rightarrow> bool \<times> session" where
  "check_timeout now_ms timeout_ms s =
     (if \<not> connected s then (False, s)
      else case last_received_at_ms s of
        None \<Rightarrow> (False, s)
      | Some received_at \<Rightarrow>
          if saturating_sub now_ms received_at \<le> timeout_ms then (False, s)
          else (True, s\<lparr>connected := False\<rparr>))"

definition resend_is_due :: "u64 \<Rightarrow> u64 \<Rightarrow> pending_reliable_packet \<Rightarrow> bool" where
  "resend_is_due now_ms delay pending = (delay \<le> saturating_sub now_ms (pr_last_sent_at_ms pending))"

definition due_resends :: "u64 \<Rightarrow> session \<Rightarrow> packet list \<times> session" where
  "due_resends now_ms s =
     (let s1 = purge_expired_reliable now_ms s;
          is_due = resend_is_due now_ms (resend_delay_ms s1);
          due = map pr_packet (filter is_due (bt_values (pending_reliable s1)));
          s2 = s1\<lparr>pending_reliable := bt_update_values
                 (\<lambda>pending. if is_due pending then pending\<lparr>pr_last_sent_at_ms := now_ms\<rparr> else pending)
                 (pending_reliable s1)\<rparr>
      in (sort_key p_sequence due, s2))"

end
