(* ===== verification/RudpAck.thy ===== *)
theory RudpAck
  imports RudpSession
begin

text \<open>
  Acknowledgements of \<open>src/rudp.rs\<close>: what the mask built by \<open>ack_state\<close> says, what
  \<open>apply_acknowledgements\<close> removes, and the two composed: a sender drops from its resend
  queue exactly what the peer has received within the window. The lemmas on
  \<open>create_packet_with_fragments\<close> at the start are used by all later session theories.
\<close>

section \<open>New packets\<close>

lemma create_packet_with_fragments_Inr:
  assumes "create_packet_with_fragments t ch pl rel ord sq fid fi fc s = (Inr p, s')"
  shows "s' = s\<lparr>next_sequence := next_sequence s + 1\<rparr>"
    "unat (next_sequence s + 1) = unat (next_sequence s) + 1"
    "next_sequence s < next_sequence s + 1"
    "p_sequence p = next_sequence s" "p_type p = t" "p_channel_id p = ch" "p_payload p = pl"
    "p_reliable p = rel" "p_ordered p = ord" "p_sequenced p = sq"
    "p_fragment_id p = fid" "p_fragment_index p = fi" "p_fragment_count p = fc"
    "p_connection_id p = connection_id s"
    "(p_ack p, p_ack_mask p) = ack_state (s\<lparr>next_sequence := next_sequence s + 1\<rparr>)"
  using assms
  by (auto simp: create_packet_with_fragments_def Let_def word_less_nat_alt
      dest!: checked_add_SomeD split: option.splits prod.splits)

lemma create_packet_with_fragments_Inl:
  "create_packet_with_fragments t ch pl rel ord sq fid fi fc s = (Inl e, s') \<Longrightarrow>
     s' = s \<and> e = PanicSequenceOverflow"
  by (auto simp: create_packet_with_fragments_def Let_def split: option.splits prod.splits)

lemmas create_packet_Inr = create_packet_with_fragments_Inr [of _ _ _ _ _ _ 0 0 0, folded create_packet_def]
lemmas create_packet_Inl = create_packet_with_fragments_Inl [of _ _ _ _ _ _ 0 0 0, folded create_packet_def]

lemma ack_state_next_sequence [simp]: "ack_state (s\<lparr>next_sequence := n\<rparr>) = ack_state s"
  by (simp add: ack_state_def)

section \<open>The acknowledgement mask\<close>

lemma word_window:
  fixes a q :: u32
  shows "of_nat b < a \<and> q = a - of_nat b - 1 \<and> b < 32 \<longleftrightarrow> unat a = unat q + b + 1 \<and> b < 32"
proof (cases "b < 32")
  case True
  have ub: "unat (of_nat b :: u32) = b"
    using True by (intro unat_of_nat_u32) simp
  show ?thesis
  proof
    assume l: "of_nat b < a \<and> q = a - of_nat b - 1 \<and> b < 32"
    then have "b < unat a" using ub by (simp add: word_less_nat_alt)
    moreover from this have "unat (a - of_nat b) = unat a - b"
      using ub by (subst unat_sub) (simp_all add: word_le_nat_alt)
    moreover from calculation have "unat (a - of_nat b - 1) = unat a - b - 1"
      by (subst unat_sub) (simp_all add: word_le_nat_alt)
    ultimately show "unat a = unat q + b + 1 \<and> b < 32" using l by simp
  next
    assume r: "unat a = unat q + b + 1 \<and> b < 32"
    then have "(of_nat (unat a) :: u32) = of_nat (unat q + b + 1)" by simp
    then have "a = q + of_nat b + 1" by simp
    moreover have "of_nat b < a"
      using r ub by (simp add: word_less_nat_alt)
    ultimately show "of_nat b < a \<and> q = a - of_nat b - 1 \<and> b < 32" using True by simp
  qed
qed auto

lemma bit_fold_mask:
  fixes m0 :: u32
  assumes "i < 32"
  shows "bit (fold (\<lambda>b mask. if P b then mask OR push_bit b 1 else mask) [0..<n] m0) i
         \<longleftrightarrow> bit m0 i \<or> (i < n \<and> P i)"
proof (induction n)
  case 0
  then show ?case by simp
next
  case (Suc n)
  then show ?case
    using assms by (auto simp: bit_or_iff bit_exp_iff less_Suc_eq)
qed

definition highest_or_zero :: "session \<Rightarrow> u32" where
  "highest_or_zero s = (case highest_received_sequence s of None \<Rightarrow> 0 | Some h \<Rightarrow> h)"

lemma ack_state_fst: "fst (ack_state s) = highest_or_zero s"
  by (simp add: ack_state_def highest_or_zero_def Let_def)

lemma ack_state_bit:
  assumes "b < 32"
  shows "bit (snd (ack_state s)) b \<longleftrightarrow>
    of_nat b < highest_or_zero s \<and> bs_member (highest_or_zero s - of_nat b - 1) (received_sequences s)"
  using assms by (simp add: ack_state_def highest_or_zero_def Let_def bit_fold_mask)

section \<open>What an acknowledgement covers\<close>

definition acked :: "packet \<Rightarrow> u32 \<Rightarrow> bool" where
  "acked p q \<longleftrightarrow> q = p_ack p \<or>
     (\<exists>b < 32. unat (p_ack p) = unat q + b + 1 \<and> bit (p_ack_mask p) b)"

lemma fold_bt_remove:
  "fold (\<lambda>b m. if P b then bt_remove (f b) m else m) bs m
   = filter (\<lambda>e. \<not> (\<exists>b \<in> set bs. P b \<and> fst e = f b)) m"
  by (induction bs arbitrary: m) (auto simp: bt_remove_def intro: filter_cong)

lemma apply_acknowledgements_pending:
  "pending_reliable (apply_acknowledgements p s) = filter (\<lambda>e. \<not> acked p (fst e)) (pending_reliable s)"
proof -
  have "acked p q \<longleftrightarrow> q = p_ack p \<or> (\<exists>b \<in> set [0..<32]. (p_ack_mask p AND push_bit b 1 \<noteq> 0 \<and> of_nat b < p_ack p)
          \<and> q = p_ack p - of_nat b - 1)" for q
    using word_window [of _ "p_ack p" q] by (fastforce simp: acked_def bit_iff_and_push_bit_not_eq_0)
  then show ?thesis
    by (simp add: apply_acknowledgements_def fold_bt_remove bt_remove_def)
qed

lemma apply_acknowledgements_frame:
  "apply_acknowledgements p s = s\<lparr>pending_reliable := pending_reliable (apply_acknowledgements p s)\<rparr>"
  by (simp add: apply_acknowledgements_def)

text \<open>The receive window of a session is consistent: the highest sequence is a received one.\<close>

definition window_ok :: "u32 option \<Rightarrow> u32 bset \<Rightarrow> bool" where
  "window_ok highest received \<longleftrightarrow> bt_wf received \<and>
     (case highest of
        None \<Rightarrow> received = []
      | Some h \<Rightarrow> bs_member h received \<and> list_all (\<lambda>q. q \<le> h) (bs_elems received))"

definition window_inv :: "session \<Rightarrow> bool" where
  "window_inv s \<longleftrightarrow> window_ok (highest_received_sequence s) (received_sequences s)"

lemma window_ok_Some:
  "window_ok (Some h) received \<longleftrightarrow>
     bt_wf received \<and> bs_member h received \<and> (\<forall>q. bs_member q received \<longrightarrow> q \<le> h)"
  by (auto simp: window_ok_def list_all_iff bs_member_elems)

lemma window_ok_None: "window_ok None received \<longleftrightarrow> received = []"
  by (auto simp: window_ok_def)

lemma window_inv_remember [simp]: "window_inv s \<Longrightarrow> window_inv (remember_received q s)"
  by (cases "highest_received_sequence s")
     (auto simp: window_inv_def remember_received_def Let_def not_less window_ok_Some window_ok_None
       intro: less_imp_le order_trans)

lemma acked_by_window:
  assumes win: "window_inv r" and high: "highest_received_sequence r = Some h"
    and ack: "(p_ack a, p_ack_mask a) = ack_state r"
  shows "acked a q \<longleftrightarrow> bs_member q (received_sequences r) \<and> unat h \<le> unat q + 32"
proof -
  have h: "highest_or_zero r = h" using high by (simp add: highest_or_zero_def)
  have pa: "p_ack a = h" and pm: "p_ack_mask a = snd (ack_state r)"
    using ack ack_state_fst [of r] h by (metis fst_conv, metis snd_conv)
  have mem: "bs_member h (received_sequences r)"
    and le: "\<And>q. bs_member q (received_sequences r) \<Longrightarrow> unat q \<le> unat h"
    using win high by (auto simp: window_inv_def window_ok_Some word_le_nat_alt)
  have bits: "unat h = unat q + b + 1 \<Longrightarrow> b < 32 \<Longrightarrow>
      bit (p_ack_mask a) b \<longleftrightarrow> bs_member q (received_sequences r)" for b
    using word_window [of b h q] by (auto simp: pm ack_state_bit h)
  show ?thesis
  proof
    assume "acked a q"
    then show "bs_member q (received_sequences r) \<and> unat h \<le> unat q + 32"
      using mem bits by (auto simp: acked_def pa)
  next
    assume r: "bs_member q (received_sequences r) \<and> unat h \<le> unat q + 32"
    show "acked a q"
    proof (cases "q = h")
      case False
      then have "unat q < unat h" using le r by (metis le_neq_implies_less unsigned_word_eqI)
      then obtain b where "unat h = unat q + b + 1" by (metis Suc_eq_plus1 add_Suc_right less_iff_Suc_add)
      with r bits show ?thesis by (fastforce simp: acked_def pa)
    qed (simp add: acked_def pa)
  qed
qed

section \<open>Claims\<close>

text \<open>
  Exactness of acknowledgements: handling the ack field and the 32-bit mask of a packet
  removes from the resend queue exactly the sequences the packet acknowledges (the ack
  number itself, and those up to 32 below it whose mask bit is set), keeps every other
  entry with its order and timers, and changes no other field of the session.\<close>

theorem apply_acknowledgements_exact:
  "apply_acknowledgements p s =
     s\<lparr>pending_reliable := filter (\<lambda>e. \<not> acked p (fst e)) (pending_reliable s)\<rparr>"
  using apply_acknowledgements_frame [of p s] by (simp only: apply_acknowledgements_pending)

text \<open>C13.
  Acknowledgements end to end: when a receiver that has received something creates an ack
  packet and the sender handles it, the sender's resend queue loses exactly the sequences
  the receiver has really received among its highest one and the 32 below it. Nothing the
  receiver misses is dropped from the queue.\<close>

theorem ack_drops_exactly_received:
  assumes "window_inv r" and "highest_received_sequence r = Some h"
    and "create_ack r = (Inr a, r')"
    and "receive oc a now s = (Inr res, s')"
  shows "pending_reliable s' =
    filter (\<lambda>e. \<not> (bs_member (fst e) (received_sequences r) \<and> unat h \<le> unat (fst e) + 32))
      (pending_reliable s)"
proof -
  note packet = create_packet_Inr [OF assms(3) [unfolded create_ack_def]]
  have acked: "acked a q \<longleftrightarrow> bs_member q (received_sequences r) \<and> unat h \<le> unat q + 32" for q
    using acked_by_window [OF assms(1,2)] packet(15) by simp
  have "pending_reliable s' = pending_reliable (apply_acknowledgements a s)"
    using assms(4) packet(5)
    by (auto simp: receive_def Let_def remember_received_def split: sum.splits option.splits if_splits)
  then show ?thesis
    by (simp add: apply_acknowledgements_pending acked)
qed

definition ack_sender :: session where
  "ack_sender = (session_new (default_session_options\<lparr>so_connection_id := 7, so_initial_sequence := 10\<rparr>))
     \<lparr>connected := True\<rparr>"

definition ack_options :: send_options where
  "ack_options = \<lparr> o_reliable = True, o_ordered = True, o_sequenced = False, o_now_ms = 0,
     o_reliable_expire_after_ms = None \<rparr>"

definition ack_receiver :: session where
  "ack_receiver = snd (receive True (fixture_packet\<lparr>p_connection_id := 7, p_sequence := 12,
     p_ack := 0, p_ack_mask := 0, p_fragment_count := 0\<rparr>) 0
     (session_new (default_session_options\<lparr>so_connection_id := 7, so_initial_sequence := 200\<rparr>)))"

definition ack_sender_two :: session where
  "ack_sender_two = snd (send ''schema'' [2] ack_options (snd (send ''schema'' [1] ack_options
     (snd (send ''schema'' [0] ack_options ack_sender)))))"

theorem ack_drops_exactly_received_witness:
  "pending_reliable_sequences ack_sender_two = [10, 11, 12]
   \<and> pending_reliable (snd (receive True (projr (fst (create_ack ack_receiver))) 5 ack_sender_two))
     = filter (\<lambda>e. \<not> (bs_member (fst e) (received_sequences ack_receiver) \<and> unat (12 :: u32) \<le> unat (fst e) + 32))
         (pending_reliable ack_sender_two)"
proof -
  have received: "received_sequences ack_receiver = [(12, ())]"
    and high: "highest_received_sequence ack_receiver = Some 12"
    by code_simp+
  have win: "window_inv ack_receiver"
    by (simp add: window_inv_def window_ok_def received high bt_wf_def bs_member_def bs_elems_def)
  obtain a r' where a: "create_ack ack_receiver = (Inr a, r')" "projr (fst (create_ack ack_receiver)) = a"
  proof -
    have "is_ok (fst (create_ack ack_receiver))" by code_simp
    then show ?thesis using that by (cases "create_ack ack_receiver") (auto simp: is_ok_iff)
  qed
  have "is_ok (fst (receive True (projr (fst (create_ack ack_receiver))) 5 ack_sender_two))"
    by code_simp
  then obtain res s' where res: "receive True a 5 ack_sender_two = (Inr res, s')"
    using a(2) by (cases "receive True a 5 ack_sender_two") (auto simp: is_ok_iff)
  have "pending_reliable_sequences ack_sender_two = [10, 11, 12]" by code_simp
  then show ?thesis
    using ack_drops_exactly_received [OF win high a(1) res] res a(2) by simp
qed

end
