(* ===== verification/RudpInvariant.thy ===== *)
theory RudpInvariant
  imports RudpAck
begin

text \<open>
  The invariant of the RUDP session and its preservation by every operation of
  \<open>CultNetRudpSession\<close>, whatever packets, times and payloads it is given and whether or
  not the operation succeeds. One lemma per helper and operation, collected in
  \<open>session_inv_intros\<close>, then the session as a step machine over \<open>session_call\<close>.
\<close>

named_theorems session_inv_intros

section \<open>The invariant\<close>

definition pending_entry_ok :: "u32 \<Rightarrow> u32 \<Rightarrow> u32 \<times> pending_reliable_packet \<Rightarrow> bool" where
  "pending_entry_ok cid nxt e \<longleftrightarrow> p_sequence (pr_packet (snd e)) = fst e
     \<and> fst e < nxt \<and> p_reliable (pr_packet (snd e)) \<and> p_connection_id (pr_packet (snd e)) = cid"

definition within_limit :: "nat option \<Rightarrow> nat \<Rightarrow> bool" where
  "within_limit limit n \<longleftrightarrow> (case limit of None \<Rightarrow> True | Some l \<Rightarrow> n \<le> l)"

definition pending_inv :: "session \<Rightarrow> bool" where
  "pending_inv s \<longleftrightarrow> bt_wf (pending_reliable s)
     \<and> list_all (pending_entry_ok (connection_id s) (next_sequence s)) (pending_reliable s)
     \<and> within_limit (max_pending_reliable_packets s) (length (pending_reliable s))"

definition ordered_buffer_ok :: "u32 bset \<Rightarrow> string \<times> (u32, pending_ordered_frame) btree \<Rightarrow> bool" where
  "ordered_buffer_ok received e \<longleftrightarrow> bt_wf (snd e)
     \<and> list_all (\<lambda>(q, pending). df_sequence (po_frame pending) = q
          \<and> df_channel_id (po_frame pending) = fst e \<and> bs_member q received) (snd e)"

definition ordered_inv :: "session \<Rightarrow> bool" where
  "ordered_inv s \<longleftrightarrow> bt_wf (ordered_next_sequence_by_channel s)
     \<and> bt_wf (ordered_buffers s) \<and> bt_wf (highest_delivered_sequenced_by_channel s)
     \<and> list_all (ordered_buffer_ok (received_sequences s)) (ordered_buffers s)"

definition fragment_maps_ok :: "u32 bset \<Rightarrow> fragment_buffer \<Rightarrow> bool" where
  "fragment_maps_ok received b \<longleftrightarrow>
     bt_wf (fb_payloads b) \<and> bt_wf (fb_sequences b) \<and> bt_keys (fb_payloads b) = bt_keys (fb_sequences b)
     \<and> list_all (\<lambda>i. i < fb_fragment_count b) (bt_keys (fb_payloads b))
     \<and> list_all (\<lambda>q. bs_member q received) (bt_values (fb_sequences b))"

definition fragment_buffer_ok :: "u32 bset \<Rightarrow> (string \<times> u16) \<times> fragment_buffer \<Rightarrow> bool" where
  "fragment_buffer_ok received e \<longleftrightarrow>
     fb_channel_id (snd e) = fst (fst e) \<and> snd (fst e) \<noteq> 0
     \<and> fragment_maps_ok received (snd e)
     \<and> length (fb_payloads (snd e)) < unat (fb_fragment_count (snd e))"

definition fragments_inv :: "session \<Rightarrow> bool" where
  "fragments_inv s \<longleftrightarrow> bt_wf (fragment_buffers s)
     \<and> list_all (fragment_buffer_ok (received_sequences s)) (fragment_buffers s)"

definition session_inv :: "session \<Rightarrow> bool" where
  "session_inv s \<longleftrightarrow> window_inv s \<and> pending_inv s \<and> ordered_inv s \<and> fragments_inv s
                   \<and> next_fragment_id s \<noteq> 0"

lemma session_invD:
  assumes "session_inv s"
  shows "window_inv s" "pending_inv s" "ordered_inv s" "fragments_inv s" "next_fragment_id s \<noteq> 0"
  using assms by (simp_all add: session_inv_def)

section \<open>Frames of the invariant\<close>

text \<open>Fields the parts of the invariant do not mention may change freely.\<close>

lemma session_inv_irrelevant [simp, session_inv_intros]:
  "session_inv (s\<lparr>connected := c\<rparr>) = session_inv s"
  "session_inv (s\<lparr>last_received_at_ms := t\<rparr>) = session_inv s"
  by (simp_all add: session_inv_def window_inv_def pending_inv_def ordered_inv_def fragments_inv_def
      pending_entry_ok_def)

lemma session_inv_new [session_inv_intros]: "session_inv (session_new opts)"
  by (simp add: session_inv_def session_new_def window_inv_def pending_inv_def ordered_inv_def
      fragments_inv_def window_ok_None within_limit_def split: option.splits)

lemma session_inv_reset [session_inv_intros]: "session_inv s \<Longrightarrow> session_inv (reset_peer_state s)"
  by (simp add: session_inv_def reset_peer_state_def window_inv_def pending_inv_def ordered_inv_def
      fragments_inv_def window_ok_None within_limit_def split: option.splits)

lemma session_inv_assume [session_inv_intros]: "session_inv s \<Longrightarrow> session_inv (assume_connected t s)"
  by (simp add: session_inv_def assume_connected_def window_inv_def pending_inv_def ordered_inv_def
      fragments_inv_def pending_entry_ok_def)

section \<open>The resend queue\<close>

lemma pending_entry_ok_mono: "pending_entry_ok cid n e \<Longrightarrow> n \<le> n' \<Longrightarrow> pending_entry_ok cid n' e"
  by (auto simp: pending_entry_ok_def)

lemma within_limit_mono: "within_limit limit n \<Longrightarrow> n' \<le> n \<Longrightarrow> within_limit limit n'"
  by (auto simp: within_limit_def split: option.splits)

lemma pending_inv_advance:
  assumes "pending_inv s" "next_sequence s < n"
  shows "pending_inv (s\<lparr>next_sequence := n\<rparr>)"
  using assms by (auto simp: pending_inv_def list_all_iff intro: pending_entry_ok_mono)

lemma session_inv_advance [session_inv_intros]:
  "session_inv s \<Longrightarrow> next_sequence s < n \<Longrightarrow> session_inv (s\<lparr>next_sequence := n\<rparr>)"
  by (simp add: session_inv_def pending_inv_advance)
     (simp add: window_inv_def ordered_inv_def fragments_inv_def)

lemma pending_inv_filter:
  "pending_inv s \<Longrightarrow> pending_inv (s\<lparr>pending_reliable := filter P (pending_reliable s)\<rparr>)"
  by (auto simp: pending_inv_def list_all_iff intro: within_limit_mono)

lemma session_inv_filter:
  "session_inv s \<Longrightarrow> session_inv (s\<lparr>pending_reliable := filter P (pending_reliable s)\<rparr>)"
  by (simp add: session_inv_def pending_inv_filter)
     (simp add: window_inv_def ordered_inv_def fragments_inv_def)

lemma session_inv_expired [simp]:
  "session_inv (s\<lparr>reliable_packets_expired := n\<rparr>) = session_inv s"
  by (simp add: session_inv_def window_inv_def pending_inv_def ordered_inv_def fragments_inv_def
      pending_entry_ok_def)

lemma session_inv_purge [session_inv_intros]:
  assumes "session_inv s" shows "session_inv (purge_expired_reliable t s)"
proof -
  have "purge_expired_reliable t s =
     (s\<lparr>pending_reliable := filter (\<lambda>p. not_expired t (snd p)) (pending_reliable s)\<rparr>)
       \<lparr>reliable_packets_expired := reliable_packets_expired (purge_expired_reliable t s)\<rparr>"
    by (simp add: purge_expired_reliable_def Let_def bt_retain_def)
  then show ?thesis
    using session_inv_filter [OF assms] by (metis session_inv_expired)
qed

lemma session_inv_ack [session_inv_intros]: "session_inv s \<Longrightarrow> session_inv (apply_acknowledgements p s)"
  by (simp add: apply_acknowledgements_exact session_inv_filter)

lemma pending_lookup_next_None:
  assumes "pending_inv s" shows "map_of (pending_reliable s) (next_sequence s) = None"
  using assms by (force simp: pending_inv_def list_all_iff pending_entry_ok_def map_of_eq_None_iff)

text \<open>
  Tracking the packet just created: the queue had room for it, and its sequence is new.
\<close>

lemma session_inv_track:
  assumes inv: "session_inv s"
    and p: "p_sequence p < next_sequence s" "p_reliable p" "p_connection_id p = connection_id s"
    and room: "within_limit (max_pending_reliable_packets s) (Suc (length (pending_reliable s)))"
  shows "session_inv (track_reliable opts p s)"
proof -
  let ?e = "\<lparr> pr_packet = p, pr_last_sent_at_ms = o_now_ms opts,
      pr_expires_at_ms = map_option (saturating_add (o_now_ms opts)) (o_reliable_expire_after_ms opts) \<rparr>"
  have eq: "track_reliable opts p s =
      s\<lparr>pending_reliable := bt_insert (p_sequence p) ?e (pending_reliable s)\<rparr>"
    by (simp add: track_reliable_def Let_def)
  have "list_all (pending_entry_ok (connection_id s) (next_sequence s)) (bt_insert (p_sequence p) ?e (pending_reliable s))"
    using inv p set_bt_insert_subset [of "p_sequence p" ?e "pending_reliable s"]
    by (fastforce simp: session_inv_def pending_inv_def list_all_iff pending_entry_ok_def)
  moreover have "length (bt_insert (p_sequence p) ?e (pending_reliable s)) \<le> Suc (length (pending_reliable s))"
    by (rule length_bt_insert_le)
  ultimately show ?thesis
    using inv room unfolding eq
    by (auto simp: session_inv_def pending_inv_def window_inv_def ordered_inv_def fragments_inv_def
        intro: within_limit_mono)
qed

section \<open>The receive window\<close>

lemma received_mono:
  "bs_member q (received_sequences s) \<Longrightarrow> bs_member q (received_sequences (remember_received r s))"
  by (auto simp: remember_received_def Let_def)

lemma remember_received_frame:
  "remember_received q s = s\<lparr>received_sequences := bs_insert q (received_sequences s),
     highest_received_sequence := highest_received_sequence (remember_received q s)\<rparr>"
  by (simp add: remember_received_def Let_def split: option.splits)

lemma received_remember [simp]:
  "received_sequences (remember_received q s) = bs_insert q (received_sequences s)"
  by (subst remember_received_frame) simp

lemma ordered_buffer_ok_mono:
  "ordered_buffer_ok R e \<Longrightarrow> (\<And>q. bs_member q R \<Longrightarrow> bs_member q R') \<Longrightarrow> ordered_buffer_ok R' e"
  by (auto simp: ordered_buffer_ok_def list_all_iff)

lemma fragment_maps_ok_mono:
  "fragment_maps_ok R b \<Longrightarrow> (\<And>q. bs_member q R \<Longrightarrow> bs_member q R') \<Longrightarrow> fragment_maps_ok R' b"
  unfolding fragment_maps_ok_def by (blast intro: list.pred_mono_strong)

lemma fragment_buffer_ok_mono:
  "fragment_buffer_ok R e \<Longrightarrow> (\<And>q. bs_member q R \<Longrightarrow> bs_member q R') \<Longrightarrow> fragment_buffer_ok R' e"
  by (auto simp: fragment_buffer_ok_def intro: fragment_maps_ok_mono)

lemma session_inv_remember [session_inv_intros]:
  assumes "session_inv s" shows "session_inv (remember_received q s)"
proof -
  have "window_inv (remember_received q s)"
    using assms by (simp add: session_inv_def)
  moreover have "pending_inv (remember_received q s)"
    using assms by (subst remember_received_frame) (simp add: session_inv_def pending_inv_def pending_entry_ok_def)
  moreover have "ordered_inv (remember_received q s)"
    using assms by (subst remember_received_frame)
      (auto simp: session_inv_def ordered_inv_def list_all_iff intro: ordered_buffer_ok_mono)
  moreover have "fragments_inv (remember_received q s)"
    using assms by (subst remember_received_frame)
      (auto simp: session_inv_def fragments_inv_def list_all_iff intro: fragment_buffer_ok_mono)
  moreover have "next_fragment_id (remember_received q s) \<noteq> 0"
    using assms by (subst remember_received_frame) (simp add: session_inv_def)
  ultimately show ?thesis by (simp add: session_inv_def)
qed

section \<open>Creating, connecting and sending\<close>

lemma session_inv_create_fragments [session_inv_intros]:
  assumes "session_inv s"
  shows "session_inv (snd (create_packet_with_fragments t ch pl rel ord sq fid fi fc s))"
proof (cases "create_packet_with_fragments t ch pl rel ord sq fid fi fc s")
  case (Pair r s')
  show ?thesis
  proof (cases r)
    case (Inl e)
    with Pair assms show ?thesis by (auto dest: create_packet_with_fragments_Inl)
  next
    case (Inr p)
    note c = create_packet_with_fragments_Inr [OF Pair [unfolded Inr]]
    show ?thesis using assms c(3) by (simp add: Pair c(1) session_inv_advance)
  qed
qed

lemma session_inv_create_packet [session_inv_intros]:
  "session_inv s \<Longrightarrow> session_inv (snd (create_packet t ch pl rel ord sq s))"
  by (simp add: create_packet_def session_inv_create_fragments)

lemma session_inv_create_packet' [session_inv_intros]:
  "session_inv s \<Longrightarrow> create_packet t ch pl rel ord sq s = (r, s') \<Longrightarrow> session_inv s'"
  using session_inv_create_packet [of s t ch pl rel ord sq] by simp

lemma ensure_capacity_Inr:
  "ensure_reliable_capacity n s = Inr u \<Longrightarrow> n \<noteq> 0 \<Longrightarrow>
     within_limit (max_pending_reliable_packets s) (length (pending_reliable s) + n)"
  by (auto simp: ensure_reliable_capacity_def within_limit_def split: option.splits if_splits)

lemma session_inv_create_track:
  assumes "session_inv s"
    and "create_packet_with_fragments t ch pl True ord sq fid fi fc s = (Inr p, s1)"
    and "within_limit (max_pending_reliable_packets s) (Suc (length (pending_reliable s)))"
  shows "session_inv (track_reliable opts p s1)"
proof -
  note c = create_packet_with_fragments_Inr [OF assms(2)]
  have "session_inv s1"
    using assms(1) c(3) by (simp add: c(1) session_inv_advance)
  then show ?thesis
    using c assms(3) by (intro session_inv_track) simp_all
qed

lemma session_inv_create_connect [session_inv_intros]:
  assumes "session_inv s" shows "session_inv (snd (create_connect t pl s))"
proof (cases "create_packet Connect ''control'' pl True True False s")
  case (Pair r s1)
  show ?thesis
  proof (cases r)
    case (Inl e)
    with Pair assms show ?thesis
      by (auto simp: create_connect_def split: sum.splits dest: create_packet_Inl)
  next
    case (Inr p)
    show ?thesis
    proof (cases "ensure_reliable_capacity 1 s")
      case (Inr u)
      have "session_inv (track_reliable (control_send_options t) p s1)"
        using assms Pair \<open>r = Inr p\<close> ensure_capacity_Inr [OF Inr]
        by (intro session_inv_create_track) (simp_all add: create_packet_def)
      with Pair \<open>r = Inr p\<close> Inr show ?thesis by (simp add: create_connect_def)
    qed (use assms in \<open>simp add: create_connect_def\<close>)
  qed
qed

lemma session_inv_accept_connect [session_inv_intros]:
  assumes "session_inv s" shows "session_inv (snd (accept_connect p t pl s))"
proof -
  let ?s1 = "(remember_received (p_sequence p) s)\<lparr>last_received_at_ms := Some t, connected := True\<rparr>"
  have inv1: "session_inv ?s1"
    using assms by (simp add: session_inv_remember)
  have same: "max_pending_reliable_packets ?s1 = max_pending_reliable_packets s"
      "pending_reliable ?s1 = pending_reliable s"
    by (subst remember_received_frame, simp)+
  obtain r s2 where c: "create_packet Accept ''control'' pl True True False ?s1 = (r, s2)"
    by fastforce
  have inv2: "session_inv s2" using inv1 c by (rule session_inv_create_packet')
  have track: "session_inv (track_reliable (control_send_options t) q s2)"
    if "r = Inr q" "ensure_reliable_capacity 1 s = Inr u" for q u
    using inv1 c that ensure_capacity_Inr [OF that(2)] same
    by (intro session_inv_create_track [where s = ?s1]) (simp_all add: create_packet_def)
  show ?thesis
    using assms inv2 track c
    by (auto simp: accept_connect_def Let_def split: sum.splits)
qed

text \<open>The fragment loop needs room for the fragments still to come.\<close>

lemma track_if_reliable_pending:
  "length (pending_reliable (track_if_reliable opts p s)) \<le> Suc (length (pending_reliable s))"
  by (simp add: track_if_reliable_def track_reliable_def Let_def length_bt_insert_le)

lemma track_if_reliable_limit [simp]:
  "max_pending_reliable_packets (track_if_reliable opts p s) = max_pending_reliable_packets s"
  "connection_id (track_if_reliable opts p s) = connection_id s"
  "next_sequence (track_if_reliable opts p s) = next_sequence s"
  by (simp_all add: track_if_reliable_def track_reliable_def Let_def)

lemma session_inv_send_fragments [session_inv_intros]:
  assumes "session_inv s"
    and "o_reliable opts \<Longrightarrow>
      within_limit (max_pending_reliable_packets s) (length (pending_reliable s) + length idxs)"
  shows "session_inv (snd (send_fragments ch pl opts maxb fid cnt idxs s))"
  using assms
proof (induction idxs arbitrary: s)
  case Nil
  then show ?case by simp
next
  case (Cons i idxs)
  define chunk where "chunk = slice (i * maxb) (min (i * maxb + maxb) (length pl)) pl"
  obtain r s1 where c: "create_packet_with_fragments Data ch chunk (o_reliable opts) (o_ordered opts)
      (o_sequenced opts) fid (of_nat i) (of_nat cnt) s = (r, s1)"
    by fastforce
  show ?case
  proof (cases r)
    case (Inl e)
    with c Cons.prems(1) show ?thesis
      by (auto simp: Let_def chunk_def [symmetric] dest: create_packet_with_fragments_Inl)
  next
    case (Inr p)
    note p = create_packet_with_fragments_Inr [OF c [unfolded Inr]]
    let ?s2 = "track_if_reliable opts p s1"
    have s1: "max_pending_reliable_packets s1 = max_pending_reliable_packets s"
        "pending_reliable s1 = pending_reliable s"
      by (simp_all add: p(1))
    have inv2: "session_inv ?s2"
    proof (cases "o_reliable opts")
      case True
      then have "session_inv (track_reliable opts p s1)"
        using Cons.prems c Inr by (intro session_inv_create_track) (auto intro: within_limit_mono)
      with True p(8) show ?thesis by (simp add: track_if_reliable_def)
    next
      case False
      with p Cons.prems(1) show ?thesis
        by (simp add: track_if_reliable_def session_inv_advance)
    qed
    have "within_limit (max_pending_reliable_packets ?s2) (length (pending_reliable ?s2) + length idxs)"
      if "o_reliable opts"
      using Cons.prems(2) [OF that] track_if_reliable_pending [of opts p s1] s1
      by (auto intro: within_limit_mono)
    from Cons.IH [OF inv2 this]
    have "session_inv (snd (send_fragments ch pl opts maxb fid cnt idxs ?s2))" .
    with c Inr show ?thesis
      by (auto simp: Let_def chunk_def [symmetric] split: prod.splits sum.splits)
  qed
qed

lemma saturating_succ_nonzero: "saturating_add (x :: 'a::len word) 1 \<noteq> 0"
proof
  assume "saturating_add x 1 = 0"
  then have "unat (saturating_add x 1) = 0" by simp
  moreover have "0 < (2 :: nat) ^ LENGTH('a) - 1"
    using one_less_power [of "2 :: nat" "LENGTH('a)"] by simp
  ultimately show False by (simp add: unat_saturating_add)
qed

lemma allocate_fragment_id_frame:
  "allocate_fragment_id s =
     (next_fragment_id s, s\<lparr>next_fragment_id := saturating_add (next_fragment_id s) 1\<rparr>)"
  by (simp add: allocate_fragment_id_def Let_def saturating_succ_nonzero)

lemma session_inv_fragment_id [session_inv_intros]:
  "session_inv s \<Longrightarrow> session_inv (s\<lparr>next_fragment_id := saturating_add (next_fragment_id s) 1\<rparr>)"
  by (simp add: session_inv_def window_inv_def pending_inv_def ordered_inv_def fragments_inv_def
      pending_entry_ok_def saturating_succ_nonzero)

lemma session_inv_send_single [session_inv_intros]:
  assumes "session_inv s" shows "session_inv (snd (send_single ch pl opts s))"
proof (cases "ensure_reliable_capacity (if o_reliable opts then 1 else 0) s")
  case (Inr u)
  have fr: "snd (send_fragments ch pl opts (length pl) 0 0 [0] s)
      = snd (send_single ch pl opts s)"
    using Inr by (simp add: send_single_def create_packet_def Let_def slice_def split: sum.splits prod.splits)
  show ?thesis
    unfolding fr [symmetric] using ensure_capacity_Inr [OF Inr]
    by (intro session_inv_send_fragments assms) simp
qed (use assms in \<open>simp add: send_single_def\<close>)

lemma session_inv_send_fragmented [session_inv_intros]:
  assumes "session_inv s" shows "session_inv (snd (send_fragmented ch pl opts maxb s))"
proof -
  let ?n = "div_ceil (length pl) maxb"
  let ?s1 = "s\<lparr>next_fragment_id := saturating_add (next_fragment_id s) 1\<rparr>"
  have "session_inv (snd (send_fragments ch pl opts maxb f ?n [0..<?n] ?s1))"
    if "ensure_reliable_capacity (if o_reliable opts then ?n else 0) s = Inr u" for f u
  proof (rule session_inv_send_fragments)
    show "session_inv ?s1" using assms by (rule session_inv_fragment_id)
    have "within_limit (max_pending_reliable_packets s) (length (pending_reliable s))"
      using assms by (simp add: session_inv_def pending_inv_def)
    then show "within_limit (max_pending_reliable_packets ?s1)
        (length (pending_reliable ?s1) + length [0..<?n])" if "o_reliable opts"
      using ensure_capacity_Inr [of ?n s u] that \<open>ensure_reliable_capacity _ s = Inr u\<close>
      by (cases "?n = 0") simp_all
  qed
  with assms show ?thesis
    by (auto simp: send_fragmented_def Let_def allocate_fragment_id_frame split: sum.splits)
qed

lemma session_inv_send_many [session_inv_intros]:
  "session_inv s \<Longrightarrow> session_inv (snd (send_many ch pl opts maxb s))"
  by (simp add: send_many_def Let_def session_inv_intros split: option.splits)

lemma session_inv_send [session_inv_intros]:
  assumes "session_inv s" shows "session_inv (snd (send ch pl opts s))"
  using session_inv_send_many [OF assms, of ch pl opts None]
  by (auto simp: send_def split: prod.splits sum.splits list.splits)

section \<open>Reassembling\<close>

lemma bt_keys_insert_parallel:
  "bt_keys m = bt_keys m' \<Longrightarrow> bt_keys (bt_insert k v m) = bt_keys (bt_insert k v' m')"
proof (induction m arbitrary: m')
  case (Cons p ps)
  then show ?case by (cases m') auto
qed auto

lemma bt_values_insert: "set (bt_values (bt_insert k v m)) \<subseteq> insert v (set (bt_values m))"
  by (induction m) auto

lemma fragment_maps_ok_insert:
  assumes "fragment_maps_ok R b" "i < fb_fragment_count b" "bs_member q R"
  shows "fragment_maps_ok R (b\<lparr>fb_payloads := bt_insert i pl (fb_payloads b),
    fb_sequences := bt_insert i q (fb_sequences b)\<rparr>)"
  using assms bt_keys_insert_parallel [of "fb_payloads b" "fb_sequences b" i pl q]
    bt_values_insert [of i q "fb_sequences b"] keys_bt_insert [of i pl "fb_payloads b"]
  unfolding fragment_maps_ok_def list_all_iff by (simp del: list.set_map set_map) blast

lemma list_all_bt_insert:
  "list_all P m \<Longrightarrow> P (k, v) \<Longrightarrow> list_all P (bt_insert k v m)"
  using set_bt_insert_subset [of k v m] by (auto simp: list_all_iff)

lemma list_all_bt_remove: "list_all P m \<Longrightarrow> list_all P (bt_remove k m)"
  by (auto simp: list_all_iff)

lemma list_all_lookup: "list_all P m \<Longrightarrow> map_of m k = Some v \<Longrightarrow> P (k, v)"
  by (auto simp: list_all_iff dest: map_of_SomeD)

text \<open>A fragment set that has as many fragments as its count has every one of them.\<close>

lemma full_keys:
  fixes c :: u16
  assumes "distinct ks" "list_all (\<lambda>i. i < c) ks" "unat c \<le> length ks" "n < unat c"
  shows "of_nat n \<in> set ks"
proof -
  have "unat ` set ks \<subseteq> {..<unat c}"
    using assms(2) by (auto simp: list_all_iff word_less_nat_alt)
  moreover have "card (unat ` set ks) = length ks"
    using distinct_card [OF assms(1)] by (subst card_image) (auto simp: inj_on_def intro: unsigned_word_eqI)
  ultimately have "unat ` set ks = {..<unat c}"
    using assms(3) by (metis card_lessThan card_seteq finite_lessThan)
  with assms(4) obtain k where "k \<in> set ks" "unat k = n" by (metis imageE lessThan_iff)
  then have "of_nat n = k" by (simp flip: \<open>unat k = n\<close>)
  with \<open>k \<in> set ks\<close> show ?thesis by simp
qed

lemma collect_fragments_Some:
  assumes "\<And>i. i \<in> set idxs \<Longrightarrow> of_nat i \<in> set (bt_keys (fb_payloads b))"
    and "set (bt_keys (fb_payloads b)) = set (bt_keys (fb_sequences b))"
  shows "collect_fragments b idxs =
    Some (concat (map (\<lambda>i. the (map_of (fb_payloads b) (of_nat i))) idxs),
          map (\<lambda>i. the (map_of (fb_sequences b) (of_nat i))) idxs)"
  using assms(1)
proof (induction idxs)
  case (Cons i idxs)
  have "of_nat i \<in> fst ` set (fb_payloads b)" "of_nat i \<in> fst ` set (fb_sequences b)"
    using Cons.prems [of i] assms(2) by simp_all
  then obtain x y where "map_of (fb_payloads b) (of_nat i) = Some x"
      "map_of (fb_sequences b) (of_nat i) = Some y"
    by (metis map_of_eq_None_iff not_None_eq)
  with Cons show ?case by simp
qed simp

lemma fragment_maps_full:
  assumes ok: "fragment_maps_ok R b" and full: "unat (fb_fragment_count b) \<le> length (fb_payloads b)"
  shows "collect_fragments b [0..<unat (fb_fragment_count b)] =
    Some (concat (map (\<lambda>i. the (map_of (fb_payloads b) (of_nat i))) [0..<unat (fb_fragment_count b)]),
          map (\<lambda>i. the (map_of (fb_sequences b) (of_nat i))) [0..<unat (fb_fragment_count b)])"
proof (rule collect_fragments_Some)
  show "of_nat i \<in> set (bt_keys (fb_payloads b))" if "i \<in> set [0..<unat (fb_fragment_count b)]" for i
    using that ok full
    by (intro full_keys [where c = "fb_fragment_count b"])
       (auto simp: fragment_maps_ok_def dest: bt_wf_distinct map_eq_imp_length_eq)
qed (use ok in \<open>simp add: fragment_maps_ok_def del: set_map\<close>)

lemma fragment_maps_ok_new [simp]: "fragment_maps_ok R (new_fragment_buffer p)"
  by (simp add: fragment_maps_ok_def new_fragment_buffer_def)

lemma session_inv_fragment_buffers:
  "session_inv s \<Longrightarrow> fragments_inv (s\<lparr>fragment_buffers := m\<rparr>) \<Longrightarrow> session_inv (s\<lparr>fragment_buffers := m\<rparr>)"
  by (simp add: session_inv_def window_inv_def pending_inv_def ordered_inv_def pending_entry_ok_def)

lemma session_inv_fragment_insert:
  assumes "session_inv s" "fragment_buffer_ok (received_sequences s) (key, b)"
  shows "session_inv (s\<lparr>fragment_buffers := bt_insert key b (fragment_buffers s)\<rparr>)"
  using assms
  by (intro session_inv_fragment_buffers)
     (auto simp: session_inv_def fragments_inv_def intro: list_all_bt_insert)

lemma session_inv_fragment_remove:
  assumes "session_inv s"
  shows "session_inv (s\<lparr>fragment_buffers := bt_remove key (fragment_buffers s)\<rparr>)"
  using assms
  by (intro session_inv_fragment_buffers)
     (auto simp: session_inv_def fragments_inv_def intro: list_all_bt_remove)

text \<open>The buffer a fragment is added to, and the buffer with it.\<close>

definition fragment_target :: "packet \<Rightarrow> session \<Rightarrow> fragment_buffer" where
  "fragment_target p s = (case map_of (fragment_buffers s) (p_channel_id p, p_fragment_id p) of
     None \<Rightarrow> new_fragment_buffer p | Some b \<Rightarrow> b)"

definition fragment_added :: "packet \<Rightarrow> session \<Rightarrow> fragment_buffer" where
  "fragment_added p s = (let b = fragment_target p s in
     b\<lparr>fb_payloads := bt_insert (p_fragment_index p) (p_payload p) (fb_payloads b),
       fb_sequences := bt_insert (p_fragment_index p) (p_sequence p) (fb_sequences b)\<rparr>)"

lemma fragment_target_ok:
  assumes "fragments_inv s"
  shows "fragment_maps_ok (received_sequences s) (fragment_target p s)"
    "fb_channel_id (fragment_target p s) = p_channel_id p"
  using assms list_all_lookup [of "fragment_buffer_ok (received_sequences s)" "fragment_buffers s"
      "(p_channel_id p, p_fragment_id p)"]
  by (auto simp: fragments_inv_def fragment_target_def fragment_buffer_ok_def new_fragment_buffer_def
      fragment_maps_ok_def split: option.splits)

lemma fragment_added_ok:
  assumes "fragments_inv s" "bs_member (p_sequence p) (received_sequences s)"
    and "p_fragment_index p < fb_fragment_count (fragment_target p s)"
  shows "fragment_maps_ok (received_sequences s) (fragment_added p s)"
    "fb_channel_id (fragment_added p s) = p_channel_id p"
    "fb_fragment_count (fragment_added p s) = fb_fragment_count (fragment_target p s)"
  using assms fragment_target_ok [OF assms(1), of p]
  by (simp_all add: fragment_added_def Let_def fragment_maps_ok_insert)

lemma list_all_remove_inserted:
  "list_all P m \<Longrightarrow> list_all P (bt_remove k (bt_insert k v (bt_insert k v' m)))"
  using set_bt_insert_subset [of k v "bt_insert k v' m"] set_bt_insert_subset [of k v' m]
  by (fastforce simp: list_all_iff)

text \<open>
  \<open>reassemble\<close> on a session that satisfies the invariant, as one equation per case: an
  unfragmented packet, the three malformed ones, an incomplete set and a completed one.
\<close>

lemma bt_insert_again: "bt_insert k v (bt_insert k v' m) = bt_insert k v m"
  by (induction m) auto

lemma bt_remove_inserted: "bt_remove k (bt_insert k v m) = bt_remove k m"
  by (induction m) (auto simp: bt_remove_def)

lemma reassemble_unfold:
  fixes s :: session
  assumes count: "p_fragment_count p \<noteq> 0" "p_fragment_id p \<noteq> 0" "p_fragment_index p < p_fragment_count p"
  defines "key \<equiv> (p_channel_id p, p_fragment_id p)"
    and "buf \<equiv> fragment_target p s" and "added \<equiv> fragment_added p s"
  shows "reassemble oc p s =
    (if fb_fragment_count buf \<noteq> p_fragment_count p \<or> fb_ordered buf \<noteq> p_ordered p
     then (Inl FragmentMetadataChanged, s\<lparr>fragment_buffers := bt_insert key buf (fragment_buffers s)\<rparr>)
     else if length (fb_payloads added) < unat (p_fragment_count p)
     then (Inr None, s\<lparr>fragment_buffers := bt_insert key added (fragment_buffers s)\<rparr>)
     else case collect_fragments added [0..<unat (p_fragment_count p)] of
       None \<Rightarrow> (Inr None, s\<lparr>fragment_buffers := bt_insert key added (fragment_buffers s)\<rparr>)
     | Some (payload, sequences) \<Rightarrow>
       (let s' = s\<lparr>fragment_buffers := bt_remove key (fragment_buffers s)\<rparr> in
        case rust_add oc (Max (set sequences)) 1 of
          None \<Rightarrow> (Inl PanicArithmeticOverflow, s')
        | Some nxt \<Rightarrow> (Inr (Some (\<lparr> df_channel_id = fb_channel_id added,
             df_payload = payload, df_sequence = Min (set sequences) \<rparr>, fb_ordered added, nxt)), s')))"
  using count
  by (simp add: reassemble_def Let_def not_le [symmetric] buf_def key_def added_def
        fragment_added_def fragment_target_def bt_insert_again bt_remove_inserted
      split del: if_split cong: option.case_cong if_cong)

lemma reassemble_fragment:
  assumes inv: "fragments_inv s" "bs_member (p_sequence p) (received_sequences s)"
    and count: "p_fragment_count p \<noteq> 0" "p_fragment_id p \<noteq> 0" "p_fragment_index p < p_fragment_count p"
  defines "key \<equiv> (p_channel_id p, p_fragment_id p)"
    and "buf \<equiv> fragment_target p s" and "added \<equiv> fragment_added p s"
    and "n \<equiv> unat (p_fragment_count p)"
  defines "seqs \<equiv> map (\<lambda>i. the (map_of (fb_sequences added) (of_nat i))) [0..<n]"
  shows "reassemble oc p s =
    (if fb_fragment_count buf \<noteq> p_fragment_count p \<or> fb_ordered buf \<noteq> p_ordered p
     then (Inl FragmentMetadataChanged, s\<lparr>fragment_buffers := bt_insert key buf (fragment_buffers s)\<rparr>)
     else if length (fb_payloads added) < n
     then (Inr None, s\<lparr>fragment_buffers := bt_insert key added (fragment_buffers s)\<rparr>)
     else (let s' = s\<lparr>fragment_buffers := bt_remove key (fragment_buffers s)\<rparr> in
       case rust_add oc (Max (set seqs)) 1 of
         None \<Rightarrow> (Inl PanicArithmeticOverflow, s')
       | Some nxt \<Rightarrow> (Inr (Some (\<lparr> df_channel_id = p_channel_id p,
             df_payload = concat (map (\<lambda>i. the (map_of (fb_payloads added) (of_nat i))) [0..<n]),
             df_sequence = Min (set seqs) \<rparr>, p_ordered p, nxt)), s')))"
proof (cases "fb_fragment_count buf \<noteq> p_fragment_count p \<or> fb_ordered buf \<noteq> p_ordered p")
  case True
  then show ?thesis
    by (simp add: reassemble_unfold [OF count] key_def buf_def)
next
  case False
  have ok: "fragment_maps_ok (received_sequences s) added" "fb_channel_id added = p_channel_id p"
      "fb_fragment_count added = p_fragment_count p" "fb_ordered added = p_ordered p"
    using fragment_added_ok [OF inv] count False
    by (auto simp: added_def buf_def) (auto simp: fragment_added_def Let_def)
  have collected: "collect_fragments added [0..<n] =
      Some (concat (map (\<lambda>i. the (map_of (fb_payloads added) (of_nat i))) [0..<n]), seqs)"
    if "\<not> length (fb_payloads added) < n"
    using fragment_maps_full [OF ok(1)] ok(3) that by (simp add: n_def seqs_def)
  show ?thesis
    using False ok collected
    by (simp add: reassemble_unfold [OF count] Let_def key_def [symmetric] n_def [symmetric]
        buf_def [symmetric] added_def [symmetric] cong: option.case_cong)
qed

lemma session_inv_reassemble [session_inv_intros]:
  assumes inv: "session_inv s" and seen: "bs_member (p_sequence p) (received_sequences s)"
  shows "session_inv (snd (reassemble oc p s))"
proof (cases "p_fragment_count p \<noteq> 0 \<and> p_fragment_id p \<noteq> 0 \<and> p_fragment_index p < p_fragment_count p")
  case False
  with inv show ?thesis
    by (auto simp: reassemble_def split: option.splits)
next
  case True
  note frag = session_invD(4) [OF inv]
  let ?key = "(p_channel_id p, p_fragment_id p)"
  have target: "fragment_buffer_ok (received_sequences s) (?key, fragment_target p s)"
  proof (cases "map_of (fragment_buffers s) ?key")
    case None
    with True show ?thesis
      by (simp add: fragment_buffer_ok_def fragment_target_def word_gt_0 unat_gt_0)
         (simp add: new_fragment_buffer_def unat_gt_0)
  next
    case (Some b)
    with frag show ?thesis
      by (auto simp: fragments_inv_def fragment_target_def dest: list_all_lookup)
  qed
  have "session_inv (s\<lparr>fragment_buffers := bt_insert ?key (fragment_added p s) (fragment_buffers s)\<rparr>)"
    if "fb_fragment_count (fragment_target p s) = p_fragment_count p"
      "length (fb_payloads (fragment_added p s)) < unat (p_fragment_count p)"
    using fragment_added_ok [OF frag seen] True that
    by (intro session_inv_fragment_insert inv) (simp add: fragment_buffer_ok_def)
  with True target inv show ?thesis
    by (subst reassemble_fragment [OF frag seen])
       (auto simp: Let_def session_inv_fragment_insert session_inv_fragment_remove split: option.splits)
qed

lemma reassemble_frame:
  "snd (reassemble oc p s) = s\<lparr>fragment_buffers := fragment_buffers (snd (reassemble oc p s))\<rparr>"
  by (simp add: reassemble_def Let_def split: option.splits)

lemma fragment_maps_sequence:
  assumes ok: "fragment_maps_ok R b" and full: "unat (fb_fragment_count b) \<le> length (fb_payloads b)"
    and n: "n < unat (fb_fragment_count b)"
  obtains q where "map_of (fb_sequences b) (of_nat n) = Some q" "bs_member q R"
proof -
  have "of_nat n \<in> set (bt_keys (fb_sequences b))"
    using ok full n by (intro full_keys [where c = "fb_fragment_count b"])
      (auto simp: fragment_maps_ok_def dest: bt_wf_distinct map_eq_imp_length_eq)
  then have "map_of (fb_sequences b) (of_nat n) \<noteq> None"
    by (simp add: map_of_eq_None_iff)
  then obtain q where q: "map_of (fb_sequences b) (of_nat n) = Some q" by blast
  moreover from q ok have "bs_member q R"
    by (auto simp: fragment_maps_ok_def list_all_iff dest!: map_of_SomeD)
  ultimately show thesis by (rule that)
qed

lemma reassemble_completed:
  assumes inv: "fragments_inv s" and seen: "bs_member (p_sequence p) (received_sequences s)"
    and r: "reassemble oc p s = (Inr (Some (frame, ordered, nxt)), s')"
  obtains (whole) "p_fragment_count p = 0" "df_sequence frame = p_sequence p"
      "rust_add oc (p_sequence p) 1 = Some nxt" "df_payload frame = p_payload p"
      "df_channel_id frame = p_channel_id p" "ordered = p_ordered p" "s' = s"
  | (fragments) "p_fragment_count p \<noteq> 0" "df_channel_id frame = p_channel_id p" "ordered = p_ordered p"
      "unat (p_fragment_count p) \<le> length (fb_payloads (fragment_added p s))"
      "fb_fragment_count (fragment_added p s) = p_fragment_count p"
      "fragment_maps_ok (received_sequences s) (fragment_added p s)"
      "s' = s\<lparr>fragment_buffers := bt_remove (p_channel_id p, p_fragment_id p) (fragment_buffers s)\<rparr>"
      "df_payload frame = concat (map (\<lambda>i. the (map_of (fb_payloads (fragment_added p s)) (of_nat i)))
          [0..<unat (p_fragment_count p)])"
      "df_sequence frame = Min ((\<lambda>i. the (map_of (fb_sequences (fragment_added p s)) (of_nat i)))
          ` {0..<unat (p_fragment_count p)})"
      "rust_add oc (Max ((\<lambda>i. the (map_of (fb_sequences (fragment_added p s)) (of_nat i)))
          ` {0..<unat (p_fragment_count p)})) 1 = Some nxt"
proof (cases "p_fragment_count p = 0")
  case True
  with r show ?thesis by (intro whole) (auto simp: reassemble_def split: option.splits)
next
  case False
  with r have guards: "p_fragment_id p \<noteq> 0" "p_fragment_index p < p_fragment_count p"
    by (auto simp: reassemble_def split: if_splits)
  note r' = r [unfolded reassemble_fragment [OF inv seen False guards]]
  from r' have count: "fb_fragment_count (fragment_target p s) = p_fragment_count p"
    by (auto split: if_splits)
  show ?thesis
    using r' fragment_added_ok [OF inv seen] guards count False
    by (intro fragments) (auto simp: Let_def split: if_splits option.splits)
qed

lemma fragment_min_sequence:
  assumes "n = unat (fb_fragment_count b)" "n \<noteq> 0" "fragment_maps_ok R b" "n \<le> length (fb_payloads b)"
  obtains i where "map_of (fb_sequences b) i
    = Some (Min ((\<lambda>i. the (map_of (fb_sequences b) (of_nat i))) ` {0..<n}))"
proof -
  let ?f = "\<lambda>i. the (map_of (fb_sequences b) (of_nat i))"
  have "Min (?f ` {0..<n}) \<in> ?f ` {0..<n}"
    using assms(2) by (intro Min_in) auto
  then obtain i where i: "i < n" "Min (?f ` {0..<n}) = ?f i" by auto
  obtain q where "map_of (fb_sequences b) (of_nat i) = Some q"
    using fragment_maps_sequence assms i(1) by metis
  with i(2) that show thesis by simp
qed

lemma fragment_maps_values:
  "fragment_maps_ok R b \<Longrightarrow> map_of (fb_sequences b) i = Some q \<Longrightarrow> bs_member q R"
  by (auto simp: fragment_maps_ok_def list_all_iff dest!: map_of_SomeD)

lemma reassemble_sequence:
  assumes inv: "fragments_inv s" and seen: "bs_member (p_sequence p) (received_sequences s)"
    and r: "reassemble oc p s = (Inr (Some (frame, ordered, nxt)), s')"
  shows "df_channel_id frame = p_channel_id p" "ordered = p_ordered p"
    "bs_member (df_sequence frame) (received_sequences s)"
proof -
  show "df_channel_id frame = p_channel_id p"
    by (rule reassemble_completed [OF inv seen r])
  show "ordered = p_ordered p"
    by (rule reassemble_completed [OF inv seen r])
  show "bs_member (df_sequence frame) (received_sequences s)"
  proof (rule reassemble_completed [OF inv seen r])
    assume "df_sequence frame = p_sequence p"
    with seen show ?thesis by simp
  next
    let ?b = "fragment_added p s" and ?n = "unat (p_fragment_count p)"
    assume "p_fragment_count p \<noteq> 0" "fb_fragment_count ?b = p_fragment_count p"
      and ok: "fragment_maps_ok (received_sequences s) ?b" and "?n \<le> length (fb_payloads ?b)"
      and "df_sequence frame = Min ((\<lambda>i. the (map_of (fb_sequences ?b) (of_nat i))) ` {0..<?n})"
    then show ?thesis
      by (metis fragment_min_sequence fragment_maps_values unat_eq_zero)
  qed
qed

section \<open>Delivering\<close>

lemma ordered_inv_next:
  "ordered_inv s \<Longrightarrow> ordered_inv (s\<lparr>ordered_next_sequence_by_channel :=
     bt_insert ch n (ordered_next_sequence_by_channel s)\<rparr>)"
  by (simp add: ordered_inv_def)

lemma session_inv_ordered:
  assumes "session_inv s" "ordered_inv (s\<lparr>ordered_next_sequence_by_channel := m, ordered_buffers := bs\<rparr>)"
  shows "session_inv (s\<lparr>ordered_next_sequence_by_channel := m, ordered_buffers := bs\<rparr>)"
  using assms by (simp add: session_inv_def window_inv_def pending_inv_def fragments_inv_def pending_entry_ok_def)

lemma session_inv_next_channel [session_inv_intros]:
  "session_inv s \<Longrightarrow> session_inv (s\<lparr>ordered_next_sequence_by_channel :=
     bt_insert ch n (ordered_next_sequence_by_channel s)\<rparr>)"
  by (simp add: session_inv_def ordered_inv_next)
     (simp add: window_inv_def pending_inv_def fragments_inv_def pending_entry_ok_def)

lemma session_inv_buffer_insert:
  assumes "session_inv s" "ordered_buffer_ok (received_sequences s) (ch, b)"
  shows "session_inv (s\<lparr>ordered_buffers := bt_insert ch b (ordered_buffers s)\<rparr>)"
proof -
  have "ordered_inv (s\<lparr>ordered_buffers := bt_insert ch b (ordered_buffers s)\<rparr>)"
    using assms by (auto simp: session_inv_def ordered_inv_def intro: list_all_bt_insert)
  then show ?thesis
    using assms(1) by (simp add: session_inv_def window_inv_def pending_inv_def fragments_inv_def pending_entry_ok_def)
qed

lemma session_inv_sequenced [session_inv_intros]:
  "session_inv s \<Longrightarrow> session_inv (s\<lparr>highest_delivered_sequenced_by_channel :=
     bt_insert ch n (highest_delivered_sequenced_by_channel s)\<rparr>)"
  by (simp add: session_inv_def window_inv_def pending_inv_def fragments_inv_def pending_entry_ok_def
      ordered_inv_def)

text \<open>One round of \<open>drain_ordered\<close>, and the induction over its rounds.\<close>

definition drain_step :: "string \<Rightarrow> session \<Rightarrow> (delivered_frame \<times> session) option" where
  "drain_step ch s =
     (case map_of (ordered_next_sequence_by_channel s) ch of
        None \<Rightarrow> None
      | Some nxt \<Rightarrow>
        (case map_of (ordered_buffers s) ch of
           None \<Rightarrow> None
         | Some buf \<Rightarrow>
           (case map_of buf nxt of
              None \<Rightarrow> None
            | Some pending \<Rightarrow> Some (po_frame pending,
                s\<lparr>ordered_buffers := bt_insert ch (bt_remove nxt buf) (ordered_buffers s),
                  ordered_next_sequence_by_channel :=
                    bt_insert ch (po_next_sequence pending) (ordered_next_sequence_by_channel s)\<rparr>))))"

lemma drain_ordered_step:
  "drain_ordered ch s = (case drain_step ch s of None \<Rightarrow> ([], s)
     | Some (f, s1) \<Rightarrow> (case drain_ordered ch s1 of (fs, s2) \<Rightarrow> (f # fs, s2)))"
  by (subst drain_ordered.simps) (simp add: drain_step_def Let_def split: option.splits)

lemma drain_step_SomeD:
  assumes "drain_step ch s = Some (f, s1)"
  obtains nxt buf pending where
    "map_of (ordered_next_sequence_by_channel s) ch = Some nxt" "map_of (ordered_buffers s) ch = Some buf"
    "map_of buf nxt = Some pending" "f = po_frame pending"
    "s1 = s\<lparr>ordered_buffers := bt_insert ch (bt_remove nxt buf) (ordered_buffers s),
      ordered_next_sequence_by_channel := bt_insert ch (po_next_sequence pending) (ordered_next_sequence_by_channel s)\<rparr>"
  using assms by (auto simp: drain_step_def split: option.splits)

lemma drain_induct [case_names step]:
  assumes "\<And>s. (\<And>f s1. drain_step ch s = Some (f, s1) \<Longrightarrow> P s1) \<Longrightarrow> P s"
  shows "P s"
proof (induction "ordered_buffer_size s ch" arbitrary: s rule: less_induct)
  case less
  show ?case
  proof (rule assms)
    fix f s1 assume "drain_step ch s = Some (f, s1)"
    then have "ordered_buffer_size s1 ch < ordered_buffer_size s ch"
      by (rule drain_step_SomeD) (simp add: ordered_buffer_size_def length_bt_remove_less)
    then show "P s1" by (rule less)
  qed
qed

lemma session_inv_drain_step:
  assumes "session_inv s" "drain_step ch s = Some (f, s1)" shows "session_inv s1"
  using assms(2)
proof (rule drain_step_SomeD)
  fix nxt buf pending
  assume buf: "map_of (ordered_buffers s) ch = Some buf"
    and s1: "s1 = s\<lparr>ordered_buffers := bt_insert ch (bt_remove nxt buf) (ordered_buffers s),
      ordered_next_sequence_by_channel := bt_insert ch (po_next_sequence pending) (ordered_next_sequence_by_channel s)\<rparr>"
  have "ordered_buffer_ok (received_sequences s) (ch, buf)"
    using session_invD(3) [OF assms(1)] buf by (auto simp: ordered_inv_def dest: list_all_lookup)
  then have "ordered_buffer_ok (received_sequences s) (ch, bt_remove nxt buf)"
    by (auto simp: ordered_buffer_ok_def list_all_iff)
  then have "session_inv (s\<lparr>ordered_buffers := bt_insert ch (bt_remove nxt buf) (ordered_buffers s)\<rparr>)"
    by (rule session_inv_buffer_insert [OF assms(1)])
  from session_inv_next_channel [OF this] show "session_inv s1" by (simp add: s1)
qed

lemma session_inv_drain [session_inv_intros]:
  "session_inv s \<Longrightarrow> session_inv (snd (drain_ordered ch s))"
proof (induction s rule: drain_induct [where ch = ch])
  case (step s)
  then show ?case
    by (subst drain_ordered_step)
       (fastforce split: option.splits prod.splits dest: session_inv_drain_step)
qed

lemma session_inv_deliver_ordered [session_inv_intros]:
  assumes inv: "session_inv s" and seen: "bs_member (df_sequence frame) (received_sequences s)"
  shows "session_inv (snd (deliver_ordered frame nxt expected s))"
proof -
  let ?ch = "df_channel_id frame"
  have buffered: "session_inv (t\<lparr>ordered_buffers := bt_insert ?ch
      (bt_insert (df_sequence frame) \<lparr> po_frame = frame, po_next_sequence = nxt \<rparr>
        (case map_of (ordered_buffers t) ?ch of None \<Rightarrow> [] | Some b \<Rightarrow> b)) (ordered_buffers t)\<rparr>)"
    if t: "session_inv t" "received_sequences t = received_sequences s" for t
  proof (rule session_inv_buffer_insert [OF t(1)])
    let ?b = "case map_of (ordered_buffers t) ?ch of None \<Rightarrow> [] | Some b \<Rightarrow> b"
    have "ordered_buffer_ok (received_sequences t) (?ch, ?b)"
      using session_invD(3) [OF t(1)]
      by (auto simp: ordered_inv_def ordered_buffer_ok_def split: option.splits dest: list_all_lookup)
    with seen t(2) show "ordered_buffer_ok (received_sequences t) (?ch,
        bt_insert (df_sequence frame) \<lparr> po_frame = frame, po_next_sequence = nxt \<rparr> ?b)"
      by (auto simp: ordered_buffer_ok_def intro: list_all_bt_insert)
  qed
  show ?thesis
    using inv buffered [OF inv] buffered [OF session_inv_next_channel [OF inv]]
    by (auto simp: deliver_ordered_def Let_def split_beta session_inv_next_channel session_inv_drain
        split: option.splits)
qed

lemma session_inv_deliver_frame [session_inv_intros]:
  assumes "session_inv s" "bs_member (df_sequence frame) (received_sequences s)"
  shows "session_inv (snd (deliver_frame p expected (frame, ordered, nxt) s))"
  using assms by (auto simp: deliver_frame_def Let_def split_beta session_inv_sequenced
      session_inv_deliver_ordered)

lemma received_reassemble [simp]: "received_sequences (snd (reassemble oc p s)) = received_sequences s"
  by (subst reassemble_frame) simp

lemma session_inv_receive_data [session_inv_intros]:
  assumes "session_inv s" shows "session_inv (snd (receive_data oc p expected s))"
proof -
  let ?s1 = "remember_received (p_sequence p) s"
  have inv1: "session_inv ?s1" using assms by (rule session_inv_remember)
  have seen: "bs_member (p_sequence p) (received_sequences ?s1)" by simp
  obtain r s2 where r: "reassemble oc p ?s1 = (r, s2)" by fastforce
  have inv2: "session_inv s2"
    using session_inv_reassemble [OF inv1 seen, of oc] r by simp
  have rec2: "received_sequences s2 = received_sequences ?s1"
    using received_reassemble [of oc p ?s1] r by simp
  have "session_inv (snd (deliver_frame p expected (frame, ordered, nxt) s2))"
    if "r = Inr (Some (frame, ordered, nxt))" for frame ordered nxt
    using reassemble_sequence(3) [OF session_invD(4) [OF inv1] seen] r that inv2
    by (intro session_inv_deliver_frame) (auto simp: rec2 simp del: received_remember)
  with inv1 inv2 r show ?thesis
    by (auto simp: receive_data_def Let_def split_beta split: sum.splits option.splits)
qed

lemma session_inv_receive [session_inv_intros]:
  assumes "session_inv s" shows "session_inv (snd (receive oc p t s))"
proof -
  have inv1: "session_inv ((apply_acknowledgements p s)\<lparr>last_received_at_ms := Some t\<rparr>)"
    using assms by (simp add: session_inv_ack)
  from this session_inv_remember [OF this, of "p_sequence p"] show ?thesis
    using assms session_inv_create_packet [OF session_inv_remember [OF inv1, of "p_sequence p"],
        of Pong "''control''" "p_payload p" False False False]
    by (auto simp: receive_def Let_def session_inv_receive_data
        split: sum.splits option.splits packet_type.splits prod.splits)
qed

section \<open>The remaining operations\<close>

lemma session_inv_controls [session_inv_intros]:
  assumes "session_inv s"
  shows "session_inv (snd (create_ack s))" "session_inv (snd (create_ping pl s))"
    "session_inv (snd (create_disconnect pl s))" "session_inv (snd (check_timeout t d s))"
  using assms
  by (simp_all add: create_ack_def create_ping_def create_disconnect_def check_timeout_def
      session_inv_create_packet split: option.splits)

lemma session_inv_due_resends [session_inv_intros]:
  assumes "session_inv s" shows "session_inv (snd (due_resends t s))"
proof -
  let ?s1 = "purge_expired_reliable t s"
  have inv1: "session_inv ?s1" using assms by (rule session_inv_purge)
  have "pending_inv (?s1\<lparr>pending_reliable := bt_update_values f (pending_reliable ?s1)\<rparr>)"
    if "\<And>e. pr_packet (f e) = pr_packet e" for f
    using session_invD(2) [OF inv1] that
    by (auto simp: pending_inv_def list_all_iff pending_entry_ok_def) (auto simp: bt_update_values_def)
  then have "session_inv (?s1\<lparr>pending_reliable := bt_update_values f (pending_reliable ?s1)\<rparr>)"
    if "\<And>e. pr_packet (f e) = pr_packet e" for f
    using inv1 that by (simp add: session_inv_def window_inv_def ordered_inv_def fragments_inv_def)
  then show ?thesis by (simp add: due_resends_def Let_def)
qed

section \<open>The session as a step machine\<close>

text \<open>
  The public methods of \<open>CultNetRudpSession\<close> as labels, with what a call answers. The
  constructor is the initial state; \<open>pending_reliable_sequences\<close> and \<open>connected\<close> only read.
\<close>

datatype session_call =
    CallReset
  | CallAssumeConnected u64
  | CallCreateConnect u64 bytes
  | CallAcceptConnect packet u64 bytes
  | CallSend string bytes send_options
  | CallSendMany string bytes send_options "nat option"
  | CallReceive packet u64
  | CallCreateAck
  | CallCreatePing bytes
  | CallCreateDisconnect bytes
  | CallCheckTimeout u64 u64
  | CallDueResends u64

datatype session_answer =
    AnswerUnit
  | AnswerPackets "rudp_error + packet list"
  | AnswerReceived "rudp_error + receive_result"
  | AnswerTimeout bool

definition one_packet :: "(rudp_error + packet) \<times> session \<Rightarrow> session_answer \<times> session" where
  "one_packet = (\<lambda>(r, s). (AnswerPackets (map_sum id (\<lambda>p. [p]) r), s))"

fun session_step :: "bool \<Rightarrow> session_call \<Rightarrow> session \<Rightarrow> session_answer \<times> session" where
  "session_step oc CallReset s = (AnswerUnit, reset_peer_state s)"
| "session_step oc (CallAssumeConnected t) s = (AnswerUnit, assume_connected t s)"
| "session_step oc (CallCreateConnect t pl) s = one_packet (create_connect t pl s)"
| "session_step oc (CallAcceptConnect p t pl) s = one_packet (accept_connect p t pl s)"
| "session_step oc (CallSend ch pl opts) s = one_packet (send ch pl opts s)"
| "session_step oc (CallSendMany ch pl opts maxb) s =
     (let (r, s') = send_many ch pl opts maxb s in (AnswerPackets r, s'))"
| "session_step oc (CallReceive p t) s = (let (r, s') = receive oc p t s in (AnswerReceived r, s'))"
| "session_step oc CallCreateAck s = one_packet (create_ack s)"
| "session_step oc (CallCreatePing pl) s = one_packet (create_ping pl s)"
| "session_step oc (CallCreateDisconnect pl) s = one_packet (create_disconnect pl s)"
| "session_step oc (CallCheckTimeout t d) s = (let (r, s') = check_timeout t d s in (AnswerTimeout r, s'))"
| "session_step oc (CallDueResends t) s = (let (ps, s') = due_resends t s in (AnswerPackets (Inr ps), s'))"

lemma snd_one_packet [simp]: "snd (one_packet x) = snd x"
  by (simp add: one_packet_def split_beta)

lemma session_step_inv: "session_inv s \<Longrightarrow> session_inv (snd (session_step oc c s))"
  by (cases c) (simp_all add: session_inv_intros Let_def split_beta)

interpretation session_machine: step_machine "session_step oc" session_inv "\<lambda>c s. True"
  by unfold_locales (rule session_step_inv)

text \<open>A session after any calls, with any packets a peer or an attacker may hand it.\<close>

definition session_after :: "bool \<Rightarrow> session_options \<Rightarrow> session_call list \<Rightarrow> session" where
  "session_after oc opts calls = snd (run_ops (session_step oc) calls (session_new opts))"

lemma session_after_inv: "session_inv (session_after oc opts calls)"
  unfolding session_after_def by (rule session_machine.run_inv_total [OF session_inv_new TrueI])

section \<open>The configuration is constant\<close>

definition config :: "session \<Rightarrow> u32 \<times> u64 \<times> nat option" where
  "config s = (connection_id s, resend_delay_ms s, max_pending_reliable_packets s)"

named_theorems config_simps

lemma config_fields [simp]:
  "config (s\<lparr>connected := c\<rparr>) = config s" "config (s\<lparr>last_received_at_ms := t\<rparr>) = config s"
  "config (s\<lparr>next_sequence := q\<rparr>) = config s" "config (s\<lparr>pending_reliable := m\<rparr>) = config s"
  "config (s\<lparr>next_fragment_id := f\<rparr>) = config s" "config (s\<lparr>fragment_buffers := fb\<rparr>) = config s"
  "config (s\<lparr>ordered_buffers := ob\<rparr>) = config s"
  "config (s\<lparr>ordered_next_sequence_by_channel := on\<rparr>) = config s"
  "config (s\<lparr>highest_delivered_sequenced_by_channel := hd'\<rparr>) = config s"
  by (simp_all add: config_def)

lemma config_helpers [config_simps]:
  "config (reset_peer_state s) = config s" "config (assume_connected t s) = config s"
  "config (purge_expired_reliable t s) = config s" "config (apply_acknowledgements p s) = config s"
  "config (remember_received q s) = config s" "config (track_reliable opts p s) = config s"
  "config (track_if_reliable opts p s) = config s"
  by (simp_all add: config_def reset_peer_state_def assume_connected_def purge_expired_reliable_def
      apply_acknowledgements_def remember_received_def track_if_reliable_def track_reliable_def Let_def)

lemma config_create [config_simps]:
  "config (snd (create_packet_with_fragments t ch pl rel ord sq fid fi fc s)) = config s"
  "config (snd (create_packet t ch pl rel ord sq s)) = config s"
  by (simp_all add: create_packet_def create_packet_with_fragments_def Let_def split: option.splits prod.splits)

lemma config_create' [config_simps]:
  "create_packet_with_fragments t ch pl rel ord sq fid fi fc s = (r, s') \<Longrightarrow> config s' = config s"
  "create_packet t ch pl rel ord sq s = (r, s') \<Longrightarrow> config s' = config s"
  using config_create(1) [of t ch pl rel ord sq fid fi fc s] config_create(2) [of t ch pl rel ord sq s]
  by simp_all

lemma config_send_fragments [config_simps]:
  "config (snd (send_fragments ch pl opts maxb fid cnt idxs s)) = config s"
proof (induction idxs arbitrary: s)
  case (Cons i idxs)
  show ?case
    by (auto simp: Let_def split: prod.splits sum.splits)
       (metis Cons.IH config_create' config_simps(7) snd_conv)+
qed simp

lemma config_sends [config_simps]:
  "config (snd (send_many ch pl opts maxb s)) = config s"
  "config (snd (send ch pl opts s)) = config s"
proof -
  show many: "config (snd (send_many ch pl opts maxb s)) = config s" for maxb
    by (auto simp: send_many_def send_single_def send_fragmented_def allocate_fragment_id_frame Let_def
        config_helpers config_send_fragments dest!: config_create' split: option.splits sum.splits prod.splits)
  show "config (snd (send ch pl opts s)) = config s"
    using many [of None] by (auto simp: send_def split: prod.splits sum.splits list.splits)
qed

lemma config_drain [config_simps]: "config (snd (drain_ordered ch s)) = config s"
proof (induction s rule: drain_induct [where ch = ch])
  case (step s)
  have "config s1 = config s" if "drain_step ch s = Some (f, s1)" for f s1
    by (rule drain_step_SomeD [OF that]) simp
  with step show ?case
    by (subst drain_ordered_step) (fastforce split: option.splits prod.splits)
qed

lemma config_receive [config_simps]: "config (snd (receive oc p t s)) = config s"
proof -
  have deliver: "config (snd (deliver_frame p expected c s)) = config s" for expected c s
    by (auto simp: deliver_frame_def deliver_ordered_def Let_def split_beta config_drain split: option.splits)
  have data: "config (snd (receive_data oc p expected s)) = config s" for expected s
    by (auto simp: receive_data_def Let_def split_beta deliver config_helpers split: sum.splits option.splits)
       (metis config_fields(6) config_helpers(5) reassemble_frame)+
  show ?thesis
    by (auto simp: receive_def Let_def data config_helpers dest: config_create'
        split: sum.splits option.splits packet_type.splits prod.splits)
qed

lemma config_step: "config (snd (session_step oc c s)) = config s"
proof (cases c)
  case (CallDueResends t)
  then show ?thesis by (simp add: due_resends_def Let_def config_helpers)
qed (auto simp: Let_def split_beta config_simps create_connect_def accept_connect_def create_ack_def
      create_ping_def create_disconnect_def check_timeout_def dest!: config_create'
      split: sum.splits prod.splits option.splits)

lemma config_session_after: "config (session_after oc opts calls)
   = (so_connection_id opts, so_resend_delay_ms opts, so_max_pending_reliable_packets opts)"
proof -
  have "config (snd (run_ops (session_step oc) calls s)) = config s" for s
    by (induction calls arbitrary: s) (simp_all add: Let_def split_beta config_step)
  then show ?thesis by (simp add: session_after_def) (simp add: config_def session_new_def)
qed

section \<open>Claims\<close>

text \<open>C11.
  The resend queue of every reachable session, after any sequence of method calls with any
  packets (well-formed or hostile), whether they succeed or fail: the entries are in
  increasing order of sequence, each holds a reliable packet of this session's connection
  under its own sequence number, all of them below the next sequence to use, and there are
  never more entries than the configured limit.\<close>

theorem resend_queue_sound:
  "let s = session_after oc opts calls in
     sorted_wrt (<) (pending_reliable_sequences s)
     \<and> list_all (\<lambda>(q, e). p_sequence (pr_packet e) = q \<and> q < next_sequence s
          \<and> p_reliable (pr_packet e) \<and> p_connection_id (pr_packet e) = so_connection_id opts)
        (pending_reliable s)
     \<and> (case so_max_pending_reliable_packets opts of
          None \<Rightarrow> True | Some limit \<Rightarrow> length (pending_reliable s) \<le> limit)"
  using session_invD(2) [OF session_after_inv [of oc opts calls]] config_session_after [of oc opts calls]
  by (simp add: Let_def pending_inv_def bt_wf_def pending_reliable_sequences_def config_def
      within_limit_def pending_entry_ok_def case_prod_unfold list_all_iff)

text \<open>C12.
  The receive side of every reachable session: the remembered sequences are bounded by the
  highest received one, which is among them; a frame held back on an ordered channel is
  stored under its own channel and sequence; and an incomplete fragment set has a non-zero
  id, belongs to the channel of its key, holds fewer fragments than it announces, all with
  indices below the count, and only sequences that were really received. So a fragment set
  never stays in the buffer once its last fragment has arrived.\<close>

theorem receive_buffers_sound:
  "let s = session_after oc opts calls in
     (case highest_received_sequence s of
        None \<Rightarrow> received_sequences s = []
      | Some h \<Rightarrow> bs_member h (received_sequences s) \<and> list_all (\<lambda>q. q \<le> h) (bs_elems (received_sequences s)))
     \<and> list_all (\<lambda>(ch, b). list_all (\<lambda>(q, pending). df_sequence (po_frame pending) = q
            \<and> df_channel_id (po_frame pending) = ch \<and> bs_member q (received_sequences s)) b)
        (ordered_buffers s)
     \<and> list_all (\<lambda>((ch, fid), b). fb_channel_id b = ch \<and> fid \<noteq> 0
            \<and> length (fb_payloads b) < unat (fb_fragment_count b)
            \<and> list_all (\<lambda>i. i < fb_fragment_count b) (bt_keys (fb_payloads b))
            \<and> list_all (\<lambda>q. bs_member q (received_sequences s)) (bt_values (fb_sequences b)))
        (fragment_buffers s)"
  using session_invD(1,3,4) [OF session_after_inv [of oc opts calls]]
  by (simp add: Let_def window_inv_def window_ok_def ordered_inv_def ordered_buffer_ok_def
      fragments_inv_def fragment_buffer_ok_def fragment_maps_ok_def list_all_iff case_prod_unfold
      split: option.splits)

end
