(* ===== verification/RudpDelivery.thy ===== *)
theory RudpDelivery
  imports RudpInvariant
begin

text \<open>
  What the application is handed by \<open>CultNetRudpSession::receive\<close> over a whole run: no frame
  twice, ordered channels in strictly increasing order, sequenced channels never backwards.
  The frames of a run are collected by \<open>deliveries\<close>; the proofs follow one potential, the
  number of copies of a sequence that the session still holds (\<open>held\<close>).
\<close>

section \<open>The frames of a run\<close>

definition frames_of :: "rudp_error + receive_result \<Rightarrow> delivered_frame list" where
  "frames_of r = (case r of Inl _ \<Rightarrow> [] | Inr rr \<Rightarrow> rr_delivered rr)"

lemma frames_of_simps [simp]: "frames_of (Inl e) = []" "frames_of (Inr rr) = rr_delivered rr"
  by (simp_all add: frames_of_def)

definition step_frames :: "bool \<Rightarrow> (packet \<Rightarrow> bool) \<Rightarrow> session_call \<Rightarrow> session \<Rightarrow> delivered_frame list" where
  "step_frames oc P c s =
     (case c of CallReceive p t \<Rightarrow> if P p then frames_of (fst (receive oc p t s)) else [] | _ \<Rightarrow> [])"

fun deliveries ::
  "bool \<Rightarrow> (packet \<Rightarrow> bool) \<Rightarrow> session_call list \<Rightarrow> session \<Rightarrow> delivered_frame list" where
  "deliveries oc P [] s = []"
| "deliveries oc P (c # cs) s = step_frames oc P c s @ deliveries oc P cs (snd (session_step oc c s))"

text \<open>\<open>reset_peer_state\<close> starts a new conversation, with a new sequence space of the peer.\<close>

abbreviation no_reset :: "session_call list \<Rightarrow> bool" where
  "no_reset calls \<equiv> CallReset \<notin> set calls"

section \<open>The receive side of the state\<close>

text \<open>Only \<open>receive\<close>, \<open>accept_connect\<close> and the reset touch the fields delivery depends on.\<close>

definition delivery_state where
  "delivery_state s = (received_sequences s, ordered_next_sequence_by_channel s,
     ordered_buffers s, fragment_buffers s, highest_delivered_sequenced_by_channel s)"

named_theorems delivery_frame

lemma delivery_state_fields [simp]:
  "delivery_state (s\<lparr>connected := c\<rparr>) = delivery_state s"
  "delivery_state (s\<lparr>last_received_at_ms := t\<rparr>) = delivery_state s"
  "delivery_state (s\<lparr>next_sequence := q\<rparr>) = delivery_state s"
  "delivery_state (s\<lparr>pending_reliable := m\<rparr>) = delivery_state s"
  "delivery_state (s\<lparr>next_fragment_id := f\<rparr>) = delivery_state s"
  by (simp_all add: delivery_state_def)

lemma delivery_state_helpers [delivery_frame]:
  "delivery_state (assume_connected t s) = delivery_state s"
  "delivery_state (purge_expired_reliable t s) = delivery_state s"
  "delivery_state (apply_acknowledgements p s) = delivery_state s"
  "delivery_state (track_reliable opts p s) = delivery_state s"
  "delivery_state (track_if_reliable opts p s) = delivery_state s"
  by (simp_all add: delivery_state_def assume_connected_def purge_expired_reliable_def
      apply_acknowledgements_def track_if_reliable_def track_reliable_def Let_def)

lemma delivery_state_create [delivery_frame]:
  "delivery_state (snd (create_packet_with_fragments t ch pl rel ord sq fid fi fc s)) = delivery_state s"
  "delivery_state (snd (create_packet t ch pl rel ord sq s)) = delivery_state s"
  by (simp_all add: create_packet_def create_packet_with_fragments_def Let_def split: option.splits prod.splits)

lemma delivery_state_create':
  "create_packet_with_fragments t ch pl rel ord sq fid fi fc s = (r, s') \<Longrightarrow> delivery_state s' = delivery_state s"
  "create_packet t ch pl rel ord sq s = (r, s') \<Longrightarrow> delivery_state s' = delivery_state s"
  using delivery_state_create(1) [of t ch pl rel ord sq fid fi fc s]
    delivery_state_create(2) [of t ch pl rel ord sq s] by simp_all

lemma delivery_state_send_fragments [delivery_frame]:
  "delivery_state (snd (send_fragments ch pl opts maxb fid cnt idxs s)) = delivery_state s"
proof (induction idxs arbitrary: s)
  case (Cons i idxs)
  show ?case
    by (auto simp: Let_def split: prod.splits sum.splits)
       (metis Cons.IH delivery_state_create'(1) delivery_state_helpers(5) snd_conv)+
qed simp

lemma delivery_state_sends [delivery_frame]:
  "delivery_state (snd (send_many ch pl opts maxb s)) = delivery_state s"
  "delivery_state (snd (send ch pl opts s)) = delivery_state s"
proof -
  show many: "delivery_state (snd (send_many ch pl opts maxb s)) = delivery_state s" for maxb
    by (auto simp: send_many_def send_single_def send_fragmented_def allocate_fragment_id_frame Let_def
        delivery_frame dest!: delivery_state_create' split: option.splits sum.splits prod.splits)
  show "delivery_state (snd (send ch pl opts s)) = delivery_state s"
    using many [of None] by (auto simp: send_def split: prod.splits sum.splits list.splits)
qed

lemma delivery_state_other:
  assumes "\<And>p t. c \<noteq> CallReceive p t" "\<And>p t pl. c \<noteq> CallAcceptConnect p t pl" "c \<noteq> CallReset"
  shows "delivery_state (snd (session_step oc c s)) = delivery_state s"
proof (cases c)
  case (CallDueResends t)
  then show ?thesis by (simp add: due_resends_def Let_def delivery_frame)
qed (use assms in \<open>auto simp: Let_def split_beta delivery_frame create_connect_def create_ack_def
      create_ping_def create_disconnect_def check_timeout_def dest!: delivery_state_create'
      split: sum.splits prod.splits option.splits\<close>)

lemma delivery_state_remember:
  "delivery_state s' = delivery_state s \<Longrightarrow>
   delivery_state (remember_received q s') = delivery_state (remember_received q s)"
  by (subst (1 2) remember_received_frame) (simp add: delivery_state_def)

text \<open>A step either leaves the delivery state, or only remembers a sequence, or runs \<open>receive_data\<close>.\<close>

lemma accept_connect_delivery:
  "delivery_state (snd (accept_connect p t pl s)) = delivery_state s \<or>
   delivery_state (snd (accept_connect p t pl s)) = delivery_state (remember_received (p_sequence p) s)"
  by (auto simp: accept_connect_def Let_def delivery_frame dest!: delivery_state_create'
      split: sum.splits prod.splits)

lemma receive_cases:
  obtains (idle) "frames_of (fst (receive oc p t s)) = []"
      "delivery_state (snd (receive oc p t s)) = delivery_state s"
  | (control) "frames_of (fst (receive oc p t s)) = []"
      "delivery_state (snd (receive oc p t s)) = delivery_state (remember_received (p_sequence p) s)"
  | (data) expected s1 where "receive oc p t s = receive_data oc p expected s1"
      "delivery_state s1 = delivery_state s" "p_type p = Data"
      "s1 = (apply_acknowledgements p s)\<lparr>last_received_at_ms := Some t\<rparr>"
proof -
  let ?s1 = "(apply_acknowledgements p s)\<lparr>last_received_at_ms := Some t\<rparr>"
  let ?s2 = "remember_received (p_sequence p) ?s1"
  have d1: "delivery_state ?s1 = delivery_state s" by (simp add: delivery_frame)
  note d2 = delivery_state_remember [OF this, of "p_sequence p"]
  have ping: "delivery_state s3 = delivery_state ?s2"
    if "create_packet ty ch pl a b c ?s2 = (r, s3)" for ty ch pl a b c r s3
    by (rule delivery_state_create'(2) [OF that])
  let ?e = "case highest_received_sequence ?s1 of None \<Rightarrow> Some (p_sequence p) | Some h \<Rightarrow> rust_add oc h 1"
  show thesis
  proof (cases "require_connection p s")
    case (Inl e)
    then show thesis by (intro idle) (simp_all add: receive_def)
  next
    case (Inr u)
    show thesis
    proof (cases ?e)
      case None
      with Inr d1 show thesis by (intro idle) (simp_all add: receive_def)
    next
      case (Some expected)
      note r = Inr Some
      show thesis
      proof (cases "p_type p")
        case Data
        with r d1 show thesis by (intro data) (simp_all add: receive_def)
      next
        case Connect
        with r d1 show thesis by (intro idle) (simp_all add: receive_def empty_result_def)
      next
        case Ping
        with r d2 ping show thesis
          by (intro control) (auto simp: receive_def Let_def empty_result_def split: sum.splits prod.splits)
      next
        case Accept
        with r d2 show thesis by (intro control) (simp_all add: receive_def empty_result_def)
      next
        case Ack
        with r d2 show thesis by (intro control) (simp_all add: receive_def empty_result_def)
      next
        case Pong
        with r d2 show thesis by (intro control) (simp_all add: receive_def empty_result_def)
      next
        case Disconnect
        with r d2 show thesis by (intro control) (simp_all add: receive_def empty_result_def)
      qed
    qed
  qed
qed

section \<open>Copies of a sequence\<close>

definition one :: "bool \<Rightarrow> nat" where
  "one b = (if b then 1 else 0)"

lemma one_simps [simp]: "one True = 1" "one False = 0"
  by (simp_all add: one_def)

definition ordered_copies :: "u32 \<Rightarrow> (u32, pending_ordered_frame) btree \<Rightarrow> nat" where
  "ordered_copies q b = bt_sum (\<lambda>pending. one (df_sequence (po_frame pending) = q)) b"

definition fragment_copies :: "u32 \<Rightarrow> fragment_buffer \<Rightarrow> nat" where
  "fragment_copies q b = bt_sum (\<lambda>r. one (r = q)) (fb_sequences b)"

definition held_ordered :: "u32 \<Rightarrow> session \<Rightarrow> nat" where
  "held_ordered q s = bt_sum (ordered_copies q) (ordered_buffers s)"

definition held_fragments :: "u32 \<Rightarrow> session \<Rightarrow> nat" where
  "held_fragments q s = bt_sum (fragment_copies q) (fragment_buffers s)"

definition copies_in :: "u32 \<Rightarrow> delivered_frame list \<Rightarrow> nat" where
  "copies_in q fs = count (mset (map df_sequence fs)) q"

lemma copies_in_simps [simp]:
  "copies_in q [] = 0" "copies_in q (f # fs) = one (df_sequence f = q) + copies_in q fs"
  "copies_in q (fs @ gs) = copies_in q fs + copies_in q gs"
  by (simp_all add: copies_in_def one_def)

lemma held_state:
  "delivery_state s = delivery_state s' \<Longrightarrow> held_ordered q s = held_ordered q s'"
  "delivery_state s = delivery_state s' \<Longrightarrow> held_fragments q s = held_fragments q s'"
  "delivery_state s = delivery_state s' \<Longrightarrow> received_sequences s = received_sequences s'"
  by (simp_all add: delivery_state_def held_ordered_def held_fragments_def)

lemma held_remember [simp]:
  "held_ordered q (remember_received r s) = held_ordered q s"
  "held_fragments q (remember_received r s) = held_fragments q s"
  by (subst remember_received_frame, simp add: held_ordered_def held_fragments_def)+

section \<open>Ordered delivery moves copies, it makes none\<close>

lemma ordered_inv_buffer:
  "ordered_inv s \<Longrightarrow> map_of (ordered_buffers s) ch = Some b \<Longrightarrow> bt_wf b"
  by (auto simp: ordered_inv_def ordered_buffer_ok_def dest!: list_all_lookup)

lemma held_drain_step:
  assumes inv: "session_inv s" and d: "drain_step ch s = Some (f, s1)"
  shows "one (df_sequence f = q) + held_ordered q s1 = held_ordered q s"
  using d
proof (rule drain_step_SomeD)
  fix nxt buf pending
  assume buf: "map_of (ordered_buffers s) ch = Some buf" "map_of buf nxt = Some pending" "f = po_frame pending"
    and s1: "s1 = s\<lparr>ordered_buffers := bt_insert ch (bt_remove nxt buf) (ordered_buffers s),
      ordered_next_sequence_by_channel := bt_insert ch (po_next_sequence pending) (ordered_next_sequence_by_channel s)\<rparr>"
  have wf: "bt_wf (ordered_buffers s)" "bt_wf buf"
    using session_invD(3) [OF inv] ordered_inv_buffer buf(1) by (auto simp: ordered_inv_def)
  show ?thesis
    using bt_sum_insert [OF wf(1), of "ordered_copies q" ch "bt_remove nxt buf"]
      bt_sum_remove [OF wf(2), of "\<lambda>pending. one (df_sequence (po_frame pending) = q)" nxt] buf
    by (simp add: s1 held_ordered_def ordered_copies_def)
qed

lemma held_drain:
  assumes "session_inv s"
  shows "copies_in q (fst (drain_ordered ch s)) + held_ordered q (snd (drain_ordered ch s)) = held_ordered q s"
  using assms
proof (induction s rule: drain_induct [where ch = ch])
  case (step s)
  show ?case
  proof (cases "drain_step ch s")
    case None
    then show ?thesis by (subst (1 2) drain_ordered_step) simp
  next
    case (Some fs1)
    obtain f s1 where fs1: "fs1 = (f, s1)" by fastforce
    note d = Some [unfolded fs1]
    show ?thesis
      using step.IH [OF d session_inv_drain_step [OF step.prems d]] held_drain_step [OF step.prems d, of q]
      by (subst (1 2) drain_ordered_step) (simp add: d split_beta)
  qed
qed

lemma fragments_drain: "fragment_buffers (snd (drain_ordered ch s)) = fragment_buffers s
    \<and> received_sequences (snd (drain_ordered ch s)) = received_sequences s"
proof (induction s rule: drain_induct [where ch = ch])
  case (step s)
  have "fragment_buffers s1 = fragment_buffers s \<and> received_sequences s1 = received_sequences s"
    if "drain_step ch s = Some (f, s1)" for f s1
    by (rule drain_step_SomeD [OF that]) simp
  with step show ?case
    by (subst (1 2) drain_ordered_step) (fastforce split: option.splits prod.splits)
qed

lemma held_next_channel [simp]:
  "held_ordered q (s\<lparr>ordered_next_sequence_by_channel := m\<rparr>) = held_ordered q s"
  by (simp add: held_ordered_def)

lemma held_deliver_ordered:
  assumes inv: "session_inv s"
  shows "copies_in q (fst (deliver_ordered frame nxt expected s))
     + held_ordered q (snd (deliver_ordered frame nxt expected s))
     \<le> held_ordered q s + one (df_sequence frame = q)"
proof -
  let ?ch = "df_channel_id frame" and ?p = "\<lparr> po_frame = frame, po_next_sequence = nxt \<rparr>"
  have buffered: "held_ordered q (t\<lparr>ordered_buffers := bt_insert ?ch (bt_insert (df_sequence frame) ?p
      (case map_of (ordered_buffers t) ?ch of None \<Rightarrow> [] | Some b \<Rightarrow> b)) (ordered_buffers t)\<rparr>)
      \<le> held_ordered q t + one (df_sequence frame = q)" if t: "session_inv t" for t
  proof -
    let ?b = "case map_of (ordered_buffers t) ?ch of None \<Rightarrow> [] | Some b \<Rightarrow> b"
    have wf: "bt_wf (ordered_buffers t)" "bt_wf ?b"
      using session_invD(3) [OF t] ordered_inv_buffer by (auto simp: ordered_inv_def split: option.splits)
    have "ordered_copies q ?b = opt_sum (ordered_copies q) (map_of (ordered_buffers t) ?ch)"
      by (simp add: ordered_copies_def split: option.splits)
    with bt_sum_insert [OF wf(1), of "ordered_copies q" ?ch "bt_insert (df_sequence frame) ?p ?b"]
      bt_sum_insert [OF wf(2), of "\<lambda>pending. one (df_sequence (po_frame pending) = q)" "df_sequence frame" ?p]
    show ?thesis by (simp add: held_ordered_def ordered_copies_def)
  qed
  have drained: "copies_in q (fst (drain_ordered ?ch t)) + held_ordered q (snd (drain_ordered ?ch t))
      = held_ordered q s" if "session_inv t" "held_ordered q t = held_ordered q s" for t
    using held_drain [OF that(1)] that(2) by simp
  note next' = session_inv_next_channel [OF inv]
  show ?thesis
    using buffered [OF inv] buffered [OF next'] drained [OF next'] drained [OF session_inv_next_channel [OF next']]
    by (auto simp: deliver_ordered_def Let_def split_beta session_inv_next_channel split: option.splits)
qed

section \<open>Reassembly makes one frame of a set\<close>

lemma fragment_copies_new [simp]: "fragment_copies q (new_fragment_buffer p) = 0"
  by (simp add: fragment_copies_def new_fragment_buffer_def)

lemma fragment_target_copies:
  "fragment_copies q (fragment_target p s)
   = opt_sum (fragment_copies q) (map_of (fragment_buffers s) (p_channel_id p, p_fragment_id p))"
  by (simp add: fragment_target_def split: option.splits)

lemma fragment_added_copies:
  assumes "fragments_inv s"
  shows "fragment_copies q (fragment_added p s)
     \<le> fragment_copies q (fragment_target p s) + one (p_sequence p = q)"
proof -
  have "bt_wf (fb_sequences (fragment_target p s))"
    using fragment_target_ok(1) [OF assms] by (simp add: fragment_maps_ok_def)
  from bt_sum_insert [OF this, of "\<lambda>r. one (r = q)" "p_fragment_index p" "p_sequence p"]
  show ?thesis by (simp add: fragment_added_def fragment_copies_def Let_def)
qed

lemma held_fragments_insert:
  assumes "fragments_inv s" "fragment_copies q b \<le> fragment_copies q (fragment_target p s) + n"
  shows "held_fragments q (s\<lparr>fragment_buffers :=
      bt_insert (p_channel_id p, p_fragment_id p) b (fragment_buffers s)\<rparr>) \<le> held_fragments q s + n"
proof -
  have "bt_wf (fragment_buffers s)" using assms(1) by (simp add: fragments_inv_def)
  from bt_sum_insert [OF this, of "fragment_copies q" "(p_channel_id p, p_fragment_id p)" b]
  show ?thesis
    using assms(2) fragment_target_copies [of q p s] by (simp add: held_fragments_def)
qed

definition completed_copies :: "u32 \<Rightarrow> rudp_error + (delivered_frame \<times> bool \<times> u32) option \<Rightarrow> nat" where
  "completed_copies q r = (case r of Inr (Some (frame, _, _)) \<Rightarrow> one (df_sequence frame = q) | _ \<Rightarrow> 0)"

lemma held_reassemble:
  assumes inv: "fragments_inv s" and seen: "bs_member (p_sequence p) (received_sequences s)"
  shows "completed_copies q (fst (reassemble oc p s)) + held_fragments q (snd (reassemble oc p s))
     \<le> held_fragments q s + one (p_sequence p = q)"
proof (cases "p_fragment_count p \<noteq> 0 \<and> p_fragment_id p \<noteq> 0 \<and> p_fragment_index p < p_fragment_count p")
  case False
  then show ?thesis
    by (auto simp: reassemble_def completed_copies_def split: option.splits)
next
  case True
  let ?key = "(p_channel_id p, p_fragment_id p)" and ?a = "fragment_added p s" and ?t = "fragment_target p s"
  let ?seqs = "map (\<lambda>i. the (map_of (fb_sequences ?a) (of_nat i))) [0..<unat (p_fragment_count p)]"
  have wf: "bt_wf (fragment_buffers s)" using inv by (simp add: fragments_inv_def)
  have removed: "n + held_fragments q (s\<lparr>fragment_buffers := bt_remove ?key (fragment_buffers s)\<rparr>)
      \<le> held_fragments q s + one (p_sequence p = q)" if "n \<le> fragment_copies q ?a" for n
    using bt_sum_remove [OF wf, of "fragment_copies q" ?key] fragment_target_copies [of q p s]
      fragment_added_copies [OF inv, of q p] that by (simp add: held_fragments_def)
  have min: "one (Min (set ?seqs) = q) \<le> fragment_copies q ?a"
    if "fb_fragment_count ?t = p_fragment_count p" "\<not> length (fb_payloads ?a) < unat (p_fragment_count p)"
  proof -
    note full = that(2)
    have "fragment_maps_ok (received_sequences s) ?a" "fb_fragment_count ?a = p_fragment_count p"
      using fragment_added_ok [OF inv seen] True that(1) by simp_all
    moreover have "unat (p_fragment_count p) \<noteq> 0" using True by (simp add: unat_eq_0)
    ultimately obtain i where "map_of (fb_sequences ?a) i =
        Some (Min ((\<lambda>i. the (map_of (fb_sequences ?a) (of_nat i))) ` {0..<unat (p_fragment_count p)}))"
      using fragment_min_sequence [of "unat (p_fragment_count p)" ?a "received_sequences s"] full
      by (metis not_less)
    then have "map_of (fb_sequences ?a) i = Some (Min (set ?seqs))" by simp
    from bt_sum_ge [OF this, of "\<lambda>r. one (r = q)"] show ?thesis
      by (simp add: fragment_copies_def)
  qed
  show ?thesis
    using True removed [of 0] removed [OF min] held_fragments_insert [OF inv fragment_added_copies [OF inv]]
      held_fragments_insert [OF inv, of q ?t p 0]
    by (subst (1 2) reassemble_fragment [OF inv seen])
       (auto simp: Let_def completed_copies_def split: option.splits)
qed

section \<open>One packet, one frame\<close>

lemma held_deliver_frame:
  assumes "session_inv s"
  shows "copies_in q (rr_delivered (fst (deliver_frame p expected (frame, ordered, nxt) s)))
      + held_ordered q (snd (deliver_frame p expected (frame, ordered, nxt) s))
     \<le> held_ordered q s + one (df_sequence frame = q)"
proof -
  have "held_ordered q (s\<lparr>highest_delivered_sequenced_by_channel := m\<rparr>) = held_ordered q s" for m
    by (simp add: held_ordered_def)
  then show ?thesis
    using held_deliver_ordered [OF assms, of q frame nxt expected]
    by (auto simp: deliver_frame_def empty_result_def Let_def split_beta)
qed

lemma deliver_frame_buffers [simp]:
  "fragment_buffers (snd (deliver_frame p expected c s)) = fragment_buffers s"
  "received_sequences (snd (deliver_frame p expected c s)) = received_sequences s"
  using fragments_drain
  by (auto simp: deliver_frame_def deliver_ordered_def Let_def split_beta split: option.splits)

lemma held_receive_data:
  fixes s :: session and p :: packet and expected :: u32 and oc :: bool
  assumes inv: "session_inv s"
  defines "s' \<equiv> snd (receive_data oc p expected s)"
    and "fs \<equiv> frames_of (fst (receive_data oc p expected s))"
  shows "received_sequences s' = bs_insert (p_sequence p) (received_sequences s)"
    and "copies_in q fs + held_ordered q s' + held_fragments q s'
       \<le> held_ordered q s + held_fragments q s
          + one (p_sequence p = q \<and> \<not> bs_member q (received_sequences s))"
proof -
  let ?s1 = "remember_received (p_sequence p) s"
  have inv1: "session_inv ?s1" using inv by (rule session_inv_remember)
  have seen: "bs_member (p_sequence p) (received_sequences ?s1)" by simp
  obtain r s2 where r: "reassemble oc p ?s1 = (r, s2)" by fastforce
  have inv2: "session_inv s2" using session_inv_reassemble [OF inv1 seen, of oc] r by simp
  have rec2: "received_sequences s2 = bs_insert (p_sequence p) (received_sequences s)"
    using received_reassemble [of oc p ?s1] r by simp
  have ord2: "held_ordered q s2 = held_ordered q s"
    using arg_cong [OF reassemble_frame [of oc p ?s1], of ordered_buffers] r
      held_remember(1) [of q "p_sequence p" s]
    by (simp add: held_ordered_def)
  have frag2: "completed_copies q r + held_fragments q s2 \<le> held_fragments q s + one (p_sequence p = q)"
    using held_reassemble [OF session_invD(4) [OF inv1] seen, of q oc] r by simp
  show "received_sequences s' = bs_insert (p_sequence p) (received_sequences s)"
    using r rec2
    by (auto simp: s'_def receive_data_def Let_def split_beta split: sum.splits option.splits)
  show "copies_in q fs + held_ordered q s' + held_fragments q s'
       \<le> held_ordered q s + held_fragments q s
          + one (p_sequence p = q \<and> \<not> bs_member q (received_sequences s))"
  proof (cases "bs_member (p_sequence p) (received_sequences s)")
    case True
    then show ?thesis by (simp add: s'_def fs_def receive_data_def Let_def empty_result_def)
  next
    case False
    have frag: "held_fragments q (snd (deliver_frame p expected c s2)) = held_fragments q s2" for c
      by (simp add: held_fragments_def)
    have "one (p_sequence p = q \<and> \<not> bs_member q (received_sequences s)) = one (p_sequence p = q)"
      using False by (auto simp: one_def)
    moreover have "copies_in q fs + held_ordered q s' + held_fragments q s'
        \<le> held_ordered q s2 + completed_copies q r + held_fragments q s2"
    proof (cases "\<exists>frame ordered nxt. r = Inr (Some (frame, ordered, nxt))")
      case True
      then obtain frame ordered nxt where c: "r = Inr (Some (frame, ordered, nxt))" by blast
      show ?thesis
        using False r c frag held_deliver_frame [OF inv2, of q p expected frame ordered nxt]
        by (simp add: s'_def fs_def receive_data_def split_beta completed_copies_def)
    next
      case none: False
      with False r show ?thesis
        by (auto simp: s'_def fs_def receive_data_def completed_copies_def empty_result_def
            split: sum.splits option.splits)
    qed
    ultimately show ?thesis using ord2 frag2 by simp
  qed
qed

section \<open>A run of calls\<close>

text \<open>
  A call reaches the delivery code with a packet, remembers a sequence only, or leaves the
  receive side alone. Every invariant of delivery is proved over these three cases.
\<close>

lemma step_delivery_cases:
  assumes inv: "session_inv s" and c: "c \<noteq> CallReset"
  obtains (idle) "step_frames oc P c s = []" "delivery_state (snd (session_step oc c s)) = delivery_state s"
  | (remember) q where "step_frames oc P c s = []"
      "delivery_state (snd (session_step oc c s)) = delivery_state (remember_received q s)"
  | (data) p expected s1 t where "c = CallReceive p t" "p_type p = Data" "session_inv s1"
      "delivery_state s1 = delivery_state s"
      "step_frames oc P c s = (if P p then frames_of (fst (receive_data oc p expected s1)) else [])"
      "snd (session_step oc c s) = snd (receive_data oc p expected s1)"
proof (cases "\<exists>p t. c = CallReceive p t")
  case True
  then obtain p t where rc: "c = CallReceive p t" by blast
  have step: "snd (session_step oc c s) = snd (receive oc p t s)"
    by (simp add: rc split_beta)
  show thesis
  proof (rule receive_cases [of oc p t s])
    fix expected s1
    assume r: "receive oc p t s = receive_data oc p expected s1" "delivery_state s1 = delivery_state s"
      "p_type p = Data" "s1 = (apply_acknowledgements p s)\<lparr>last_received_at_ms := Some t\<rparr>"
    then have "session_inv s1" using inv by (simp add: session_inv_ack)
    with r step show thesis by (intro data [OF rc r(3)]) (simp_all add: step_frames_def rc)
  qed (use idle remember step in \<open>auto simp: step_frames_def rc\<close>)
next
  case False
  then have none: "step_frames oc P c s = []"
    by (auto simp: step_frames_def split: session_call.splits)
  show thesis
  proof (cases "\<exists>p t pl. c = CallAcceptConnect p t pl")
    case True
    then obtain p t pl where "c = CallAcceptConnect p t pl" by blast
    with accept_connect_delivery [of p t pl s] idle [OF none] remember [OF none] show thesis
      by auto
  next
    case other: False
    with False c show thesis by (intro idle [OF none] delivery_state_other) auto
  qed
qed

definition held :: "u32 \<Rightarrow> session \<Rightarrow> nat" where
  "held q s = held_ordered q s + held_fragments q s"

lemma held_step:
  assumes inv: "session_inv s" and c: "c \<noteq> CallReset"
  shows "copies_in q (step_frames oc P c s) + held q (snd (session_step oc c s))
      + one (bs_member q (received_sequences s))
     \<le> held q s + one (bs_member q (received_sequences (snd (session_step oc c s))))"
proof (rule step_delivery_cases [OF inv c, of oc P])
  assume f: "step_frames oc P c s = []" "delivery_state (snd (session_step oc c s)) = delivery_state s"
  show ?thesis using held_state [OF f(2)] by (simp add: held_def f(1))
next
  fix r
  assume f: "step_frames oc P c s = []"
    "delivery_state (snd (session_step oc c s)) = delivery_state (remember_received r s)"
  show ?thesis using held_state [OF f(2)] by (simp add: held_def f(1) one_def)
next
  fix p expected s1 t
  assume inv1: "session_inv s1" and d: "delivery_state s1 = delivery_state s"
    and f: "step_frames oc P c s = (if P p then frames_of (fst (receive_data oc p expected s1)) else [])"
      "snd (session_step oc c s) = snd (receive_data oc p expected s1)"
  show ?thesis
    using held_receive_data(1) [OF inv1, where p = p and oc = oc and expected = expected]
      held_receive_data(2) [OF inv1, where p = p and q = q and oc = oc and expected = expected]
      f held_state [OF d] by (auto simp: held_def one_def split: if_splits)
qed

lemma held_run:
  assumes "session_inv s" "no_reset calls"
  shows "copies_in q (deliveries oc P calls s) + one (bs_member q (received_sequences s)) \<le> held q s + 1"
proof -
  have "copies_in q (deliveries oc P calls s) + held q s' + one (bs_member q (received_sequences s))
      \<le> held q s + one (bs_member q (received_sequences s'))"
    if "s' = snd (run_ops (session_step oc) calls s)" for s'
    using assms that
  proof (induction calls arbitrary: s)
    case (Cons c calls)
    let ?s1 = "snd (session_step oc c s)"
    have "copies_in q (deliveries oc P calls ?s1) + held q s' + one (bs_member q (received_sequences ?s1))
        \<le> held q ?s1 + one (bs_member q (received_sequences s'))"
      using Cons.prems by (intro Cons.IH session_step_inv) (simp_all add: Let_def split_beta)
    moreover have "copies_in q (step_frames oc P c s) + held q ?s1 + one (bs_member q (received_sequences s))
       \<le> held q s + one (bs_member q (received_sequences ?s1))"
      using Cons.prems by (intro held_step) auto
    ultimately show ?case by simp
  qed simp
  from this [OF refl] show ?thesis by (simp add: one_def split: if_splits)
qed

section \<open>Order\<close>

text \<open>
  With overflow checks, what follows a frame has a higher sequence: for the frames held back
  (\<open>ordered_fwd\<close>) and for the ones reassembled. \<open>next_bound\<close> is the channel's next sequence.
\<close>

definition ordered_fwd :: "session \<Rightarrow> bool" where
  "ordered_fwd s \<longleftrightarrow> list_all (\<lambda>(ch, b). list_all (\<lambda>(q, pending). q < po_next_sequence pending) b) (ordered_buffers s)"

definition next_bound :: "string \<Rightarrow> session \<Rightarrow> u32" where
  "next_bound ch s = (case map_of (ordered_next_sequence_by_channel s) ch of None \<Rightarrow> 0 | Some n \<Rightarrow> n)"

text \<open>Frames that continue a channel: increasing, from its old bound on, below its new one.\<close>

definition continues :: "u32 \<Rightarrow> delivered_frame list \<Rightarrow> u32 \<Rightarrow> bool" where
  "continues n fs n' \<longleftrightarrow> sorted_wrt (<) (map df_sequence fs)
     \<and> (\<forall>f \<in> set fs. n \<le> df_sequence f \<and> df_sequence f < n') \<and> n \<le> n'"

lemma continues_Nil [simp]: "continues n [] n' \<longleftrightarrow> n \<le> n'"
  by (simp add: continues_def)

lemma continues_append:
  "continues n fs n' \<Longrightarrow> continues n' gs n'' \<Longrightarrow> continues n (fs @ gs) n''"
  unfolding continues_def
  by (fastforce simp: sorted_wrt_append intro: less_le_trans order_trans)

lemma continues_Cons:
  "df_sequence f < n' \<Longrightarrow> n \<le> df_sequence f \<Longrightarrow> continues n' gs n'' \<Longrightarrow> continues n (f # gs) n''"
  using continues_append [of n "[f]" n' gs n''] by (simp add: continues_def)

lemma ordered_fwd_drain_step:
  assumes inv: "session_inv s" "ordered_fwd s" and d: "drain_step ch s = Some (f, s1)"
  shows "ordered_fwd s1" "next_bound ch s = df_sequence f" "df_sequence f < next_bound ch s1"
    "ch' \<noteq> ch \<Longrightarrow> next_bound ch' s1 = next_bound ch' s"
proof -
  from d obtain nxt buf pending where
    n: "map_of (ordered_next_sequence_by_channel s) ch = Some nxt" and
    b: "map_of (ordered_buffers s) ch = Some buf" "map_of buf nxt = Some pending" "f = po_frame pending"
    and s1: "s1 = s\<lparr>ordered_buffers := bt_insert ch (bt_remove nxt buf) (ordered_buffers s),
      ordered_next_sequence_by_channel := bt_insert ch (po_next_sequence pending) (ordered_next_sequence_by_channel s)\<rparr>"
    by (rule drain_step_SomeD)
  have "ordered_buffer_ok (received_sequences s) (ch, buf)"
    using session_invD(3) [OF inv(1)] b(1) by (auto simp: ordered_inv_def dest: list_all_lookup)
  then have seq: "df_sequence f = nxt"
    using b(2,3) by (auto simp: ordered_buffer_ok_def dest: list_all_lookup)
  have "list_all (\<lambda>(q, pending). q < po_next_sequence pending) buf"
    using inv(2) b(1) by (auto simp: ordered_fwd_def dest: list_all_lookup)
  then show "ordered_fwd s1" "next_bound ch s = df_sequence f" "df_sequence f < next_bound ch s1"
      "ch' \<noteq> ch \<Longrightarrow> next_bound ch' s1 = next_bound ch' s"
    using inv(2) b n seq list_all_bt_remove
    by (auto simp: ordered_fwd_def s1 next_bound_def intro!: list_all_bt_insert dest: list_all_lookup)
qed

lemma ordered_fwd_drain:
  assumes "session_inv s" "ordered_fwd s"
  shows "ordered_fwd (snd (drain_ordered ch s)) \<and>
    continues (next_bound ch s) (fst (drain_ordered ch s)) (next_bound ch (snd (drain_ordered ch s))) \<and>
    (\<forall>ch'. ch' \<noteq> ch \<longrightarrow> next_bound ch' (snd (drain_ordered ch s)) = next_bound ch' s)"
  using assms
proof (induction s rule: drain_induct [where ch = ch])
  case (step s)
  show ?case
  proof (cases "drain_step ch s")
    case None
    with step.prems show ?thesis by (simp add: drain_ordered_step)
  next
    case (Some fs1)
    obtain f s1 where d: "drain_step ch s = Some (f, s1)" using Some by (cases fs1) auto
    note fwd = ordered_fwd_drain_step [OF step.prems d]
    have "drain_ordered ch s = (f # fst (drain_ordered ch s1), snd (drain_ordered ch s1))"
      by (subst drain_ordered_step) (simp add: d split_beta)
    with step.IH [OF d session_inv_drain_step [OF step.prems(1) d] fwd(1)] fwd(2,3,4)
    show ?thesis by (auto intro: continues_Cons)
  qed
qed

lemma ordered_fwd_next [simp]:
  "ordered_fwd (s\<lparr>ordered_next_sequence_by_channel := m\<rparr>) = ordered_fwd s"
  by (simp add: ordered_fwd_def)

lemma next_bound_insert [simp]:
  "next_bound ch' (s\<lparr>ordered_next_sequence_by_channel :=
      bt_insert ch n (ordered_next_sequence_by_channel s)\<rparr>) = (if ch' = ch then n else next_bound ch' s)"
  by (simp add: next_bound_def)

lemma next_bound_buffers [simp]: "next_bound ch (s\<lparr>ordered_buffers := m\<rparr>) = next_bound ch s"
  by (simp add: next_bound_def)

lemma ordered_fwd_buffered:
  assumes "ordered_fwd s" "df_sequence frame < nxt"
  shows "ordered_fwd (s\<lparr>ordered_buffers := bt_insert ch (bt_insert (df_sequence frame)
      \<lparr> po_frame = frame, po_next_sequence = nxt \<rparr>
      (case map_of (ordered_buffers s) ch of None \<Rightarrow> [] | Some b \<Rightarrow> b)) (ordered_buffers s)\<rparr>)"
  using assms by (auto simp: ordered_fwd_def intro!: list_all_bt_insert dest: list_all_lookup split: option.splits)

lemma ordered_fwd_deliver_at:
  assumes inv: "session_inv t" "ordered_fwd t" and f: "df_sequence frame < nxt"
  defines "d \<equiv> drain_ordered (df_channel_id frame) (t\<lparr>ordered_next_sequence_by_channel :=
      bt_insert (df_channel_id frame) nxt (ordered_next_sequence_by_channel t)\<rparr>)"
  shows "n \<le> df_sequence frame \<Longrightarrow>
      continues n (frame # fst d) (next_bound (df_channel_id frame) (snd d))"
    and "ordered_fwd (snd d)" and "ch \<noteq> df_channel_id frame \<Longrightarrow> next_bound ch (snd d) = next_bound ch t"
  using ordered_fwd_drain [OF session_inv_next_channel [OF inv(1), of "df_channel_id frame" nxt],
      of "df_channel_id frame"] inv(2) f
  by (auto simp: d_def intro: continues_Cons)

text \<open>The channel's next sequence when a frame arrives, set by the first frame if unset.\<close>

definition channel_next :: "delivered_frame \<Rightarrow> u32 \<Rightarrow> session \<Rightarrow> u32" where
  "channel_next frame expected s =
     (case map_of (ordered_next_sequence_by_channel s) (df_channel_id frame) of
        None \<Rightarrow> min expected (df_sequence frame) | Some n \<Rightarrow> n)"

definition channel_ready :: "delivered_frame \<Rightarrow> u32 \<Rightarrow> session \<Rightarrow> session" where
  "channel_ready frame expected s =
     (case map_of (ordered_next_sequence_by_channel s) (df_channel_id frame) of
        None \<Rightarrow> s\<lparr>ordered_next_sequence_by_channel :=
          bt_insert (df_channel_id frame) (channel_next frame expected s) (ordered_next_sequence_by_channel s)\<rparr>
      | Some _ \<Rightarrow> s)"

lemma deliver_ordered_eq:
  "deliver_ordered frame nxt expected s =
    (let ch = df_channel_id frame; n = channel_next frame expected s; t = channel_ready frame expected s in
     if df_sequence frame < n then ([], t)
     else if n < df_sequence frame then ([], t\<lparr>ordered_buffers := bt_insert ch (bt_insert (df_sequence frame)
        \<lparr> po_frame = frame, po_next_sequence = nxt \<rparr>
        (case map_of (ordered_buffers t) ch of None \<Rightarrow> [] | Some b \<Rightarrow> b)) (ordered_buffers t)\<rparr>)
     else case drain_ordered ch (t\<lparr>ordered_next_sequence_by_channel :=
        bt_insert ch nxt (ordered_next_sequence_by_channel t)\<rparr>) of (fs, s') \<Rightarrow> (frame # fs, s'))"
  by (cases "map_of (ordered_next_sequence_by_channel s) (df_channel_id frame)")
     (simp_all add: deliver_ordered_def Let_def channel_next_def channel_ready_def)

lemma channel_ready_inv:
  "session_inv s \<Longrightarrow> session_inv (channel_ready frame expected s)"
  "ordered_fwd (channel_ready frame expected s) = ordered_fwd s"
  "next_bound (df_channel_id frame) (channel_ready frame expected s) = channel_next frame expected s"
  "next_bound (df_channel_id frame) s \<le> channel_next frame expected s"
  "ch \<noteq> df_channel_id frame \<Longrightarrow> next_bound ch (channel_ready frame expected s) = next_bound ch s"
  by (auto simp: channel_ready_def channel_next_def session_inv_next_channel next_bound_def split: option.splits)

lemma ordered_fwd_deliver:
  fixes expected :: u32
  assumes inv: "session_inv s" "ordered_fwd s" and f: "df_sequence frame < nxt"
  defines "d \<equiv> deliver_ordered frame nxt expected s"
  shows "ordered_fwd (snd d)"
    and "continues (next_bound (df_channel_id frame) s) (fst d) (next_bound (df_channel_id frame) (snd d))"
    and "ch \<noteq> df_channel_id frame \<Longrightarrow> next_bound ch (snd d) = next_bound ch s"
proof -
  note t = channel_ready_inv [where frame = frame and expected = expected and s = s]
  have fwd: "ordered_fwd (channel_ready frame expected s)" using inv(2) t(2) by simp
  note at = ordered_fwd_deliver_at [OF t(1) [OF inv(1)] fwd f]
  show "ordered_fwd (snd d)"
    using fwd ordered_fwd_buffered [OF fwd f] at(2)
    by (simp add: d_def deliver_ordered_eq Let_def split_beta)
  show "continues (next_bound (df_channel_id frame) s) (fst d) (next_bound (df_channel_id frame) (snd d))"
    using t(3,4) at(1) by (auto simp: d_def deliver_ordered_eq Let_def split_beta)
  show "ch \<noteq> df_channel_id frame \<Longrightarrow> next_bound ch (snd d) = next_bound ch s"
    using t(5) at(3) by (auto simp: d_def deliver_ordered_eq Let_def split_beta)
qed

text \<open>A completed frame starts below the sequence that follows it.\<close>

lemma reassemble_fwd:
  assumes inv: "fragments_inv s" "bs_member (p_sequence p) (received_sequences s)"
    and r: "reassemble True p s = (Inr (Some (frame, ordered, nxt)), s')"
  shows "df_sequence frame < nxt"
proof (rule reassemble_completed [OF inv r])
  assume "df_sequence frame = p_sequence p" "rust_add True (p_sequence p) 1 = Some nxt"
  then show ?thesis by (auto simp: word_less_nat_alt dest!: rust_add_checked_SomeD)
next
  let ?S = "(\<lambda>i. the (map_of (fb_sequences (fragment_added p s)) (of_nat i))) ` {0..<unat (p_fragment_count p)}"
  assume c: "p_fragment_count p \<noteq> 0" and seqs: "df_sequence frame = Min ?S" "rust_add True (Max ?S) 1 = Some nxt"
  have "?S \<noteq> {}" using c by (simp add: unat_gt_0)
  then have "Min ?S \<le> Max ?S"
    by (metis (no_types, lifting) Max_ge Min_in finite_atLeastLessThan finite_imageI)
  also have "Max ?S < nxt"
    using seqs(2) by (auto simp: word_less_nat_alt dest!: rust_add_checked_SomeD)
  finally show ?thesis by (simp add: seqs(1))
qed

text \<open>A sequenced channel delivers from its highest delivered sequence on.\<close>

definition sequenced_bound :: "string \<Rightarrow> session \<Rightarrow> u32" where
  "sequenced_bound ch s =
     (case map_of (highest_delivered_sequenced_by_channel s) ch of None \<Rightarrow> 0 | Some n \<Rightarrow> n)"

definition follows :: "u32 \<Rightarrow> delivered_frame list \<Rightarrow> u32 \<Rightarrow> bool" where
  "follows n fs n' \<longleftrightarrow> sorted (map df_sequence fs)
     \<and> (\<forall>f \<in> set fs. n \<le> df_sequence f \<and> df_sequence f \<le> n') \<and> n \<le> n'"

lemma follows_Nil [simp]: "follows n [] n' \<longleftrightarrow> n \<le> n'"
  by (simp add: follows_def)

lemma follows_append: "follows n fs n' \<Longrightarrow> follows n' gs n'' \<Longrightarrow> follows n (fs @ gs) n''"
  unfolding follows_def by (fastforce simp: sorted_append intro: order_trans)

definition ordered_on :: "string \<Rightarrow> packet \<Rightarrow> bool" where
  "ordered_on ch p \<longleftrightarrow> p_ordered p \<and> p_channel_id p = ch"

definition sequenced_on :: "string \<Rightarrow> packet \<Rightarrow> bool" where
  "sequenced_on ch p \<longleftrightarrow> p_sequenced p \<and> \<not> p_ordered p \<and> p_channel_id p = ch"

lemma order_state:
  assumes "delivery_state s = delivery_state s'"
  shows "ordered_fwd s = ordered_fwd s'" "next_bound ch s = next_bound ch s'"
    "sequenced_bound ch s = sequenced_bound ch s'"
  using assms by (simp_all add: delivery_state_def ordered_fwd_def next_bound_def sequenced_bound_def)

lemma order_remember [simp]:
  "ordered_fwd (remember_received q s) = ordered_fwd s"
  "next_bound ch (remember_received q s) = next_bound ch s"
  "sequenced_bound ch (remember_received q s) = sequenced_bound ch s"
  by (subst remember_received_frame, simp add: ordered_fwd_def next_bound_def sequenced_bound_def)+

lemma order_fragments [simp]:
  "ordered_fwd (s\<lparr>fragment_buffers := m\<rparr>) = ordered_fwd s"
  "next_bound ch (s\<lparr>fragment_buffers := m\<rparr>) = next_bound ch s"
  "sequenced_bound ch (s\<lparr>fragment_buffers := m\<rparr>) = sequenced_bound ch s"
  by (simp_all add: ordered_fwd_def next_bound_def sequenced_bound_def)

lemma sequenced_drain: "highest_delivered_sequenced_by_channel (snd (drain_ordered ch s))
    = highest_delivered_sequenced_by_channel s"
proof (induction s rule: drain_induct [where ch = ch])
  case (step s)
  have "highest_delivered_sequenced_by_channel s1 = highest_delivered_sequenced_by_channel s"
    if "drain_step ch s = Some (f, s1)" for f s1
    by (rule drain_step_SomeD [OF that]) simp
  with step show ?case
    by (subst drain_ordered_step) (fastforce split: option.splits prod.splits)
qed

lemma sequenced_deliver_ordered:
  "highest_delivered_sequenced_by_channel (snd (deliver_ordered frame nxt expected s))
   = highest_delivered_sequenced_by_channel s"
  by (auto simp: deliver_ordered_def Let_def split_beta sequenced_drain split: option.splits)

lemma order_deliver_frame:
  fixes ordered :: bool and expected :: u32 and p :: packet
  assumes inv: "session_inv s" "ordered_fwd s" and f: "df_sequence frame < nxt"
  defines "d \<equiv> deliver_frame p expected (frame, ordered, nxt) s"
  shows "ordered_fwd (snd d)"
    and "continues (next_bound ch s)
      (if ordered \<and> df_channel_id frame = ch then rr_delivered (fst d) else []) (next_bound ch (snd d))"
    and "follows (sequenced_bound ch s)
      (if p_sequenced p \<and> \<not> ordered \<and> df_channel_id frame = ch then rr_delivered (fst d) else [])
      (sequenced_bound ch (snd d))"
proof -
  note o = ordered_fwd_deliver [OF inv f, where expected = expected]
  show "ordered_fwd (snd d)"
    using inv(2) o(1) by (auto simp: d_def deliver_frame_def Let_def split_beta)
       (simp_all add: ordered_fwd_def)
  show "continues (next_bound ch s)
      (if ordered \<and> df_channel_id frame = ch then rr_delivered (fst d) else []) (next_bound ch (snd d))"
    using o(2,3) by (auto simp: d_def deliver_frame_def Let_def split_beta) (simp_all add: next_bound_def)
  show "follows (sequenced_bound ch s)
      (if p_sequenced p \<and> \<not> ordered \<and> df_channel_id frame = ch then rr_delivered (fst d) else [])
      (sequenced_bound ch (snd d))"
    by (auto simp: d_def deliver_frame_def Let_def split_beta follows_def sequenced_bound_def
        empty_result_def sequenced_deliver_ordered split: option.splits)
qed

lemma order_receive_data:
  assumes inv: "session_inv s" "ordered_fwd s"
  shows "ordered_fwd (snd (receive_data True p expected s))"
    and "continues (next_bound ch s)
      (if ordered_on ch p then frames_of (fst (receive_data True p expected s)) else [])
      (next_bound ch (snd (receive_data True p expected s)))"
    and "follows (sequenced_bound ch s)
      (if sequenced_on ch p then frames_of (fst (receive_data True p expected s)) else [])
      (sequenced_bound ch (snd (receive_data True p expected s)))"
proof -
  let ?s1 = "remember_received (p_sequence p) s"
  have inv1: "session_inv ?s1" using inv(1) by (rule session_inv_remember)
  have seen: "bs_member (p_sequence p) (received_sequences ?s1)" by simp
  obtain r s2 where r: "reassemble True p ?s1 = (r, s2)" by fastforce
  have inv2: "session_inv s2" using session_inv_reassemble [OF inv1 seen, of True] r by simp
  have s2: "s2 = ?s1\<lparr>fragment_buffers := fragment_buffers s2\<rparr>"
    using reassemble_frame [of True p ?s1] r by simp
  have same: "ordered_fwd s2" "next_bound ch s2 = next_bound ch s" "sequenced_bound ch s2 = sequenced_bound ch s"
    using inv(2) by (subst s2, simp)+
  have "\<exists>fr. ordered_fwd (snd fr) \<and> continues (next_bound ch s) (if ordered_on ch p then fst fr else []) (next_bound ch (snd fr))
      \<and> follows (sequenced_bound ch s) (if sequenced_on ch p then fst fr else []) (sequenced_bound ch (snd fr))
      \<and> fr = (frames_of (fst (receive_data True p expected s)), snd (receive_data True p expected s))"
  proof (cases "bs_member (p_sequence p) (received_sequences s) \<or> (\<nexists>c. r = Inr (Some c))")
    case True
    then have "frames_of (fst (receive_data True p expected s)) = []"
        "snd (receive_data True p expected s) \<in> {?s1, s2}"
      using r by (auto simp: receive_data_def Let_def empty_result_def split: sum.splits option.splits)
    with inv(2) same show ?thesis by auto
  next
    case False
    then obtain frame ordered nxt where c: "r = Inr (Some (frame, ordered, nxt))" by auto
    note r' = r [unfolded c]
    note seq = reassemble_sequence [OF session_invD(4) [OF inv1] seen r']
    note fwd = order_deliver_frame [OF inv2 same(1) reassemble_fwd [OF session_invD(4) [OF inv1] seen r'],
        where p = p and expected = expected and ordered = ordered]
    note step = fwd(1) fwd(2,3) [where ch = ch]
    show ?thesis
      using False r' step seq(1,2) same
      by (auto simp: receive_data_def Let_def split_beta ordered_on_def sequenced_on_def)
  qed
  then show "ordered_fwd (snd (receive_data True p expected s))"
    "continues (next_bound ch s)
      (if ordered_on ch p then frames_of (fst (receive_data True p expected s)) else [])
      (next_bound ch (snd (receive_data True p expected s)))"
    "follows (sequenced_bound ch s)
      (if sequenced_on ch p then frames_of (fst (receive_data True p expected s)) else [])
      (sequenced_bound ch (snd (receive_data True p expected s)))"
    by (simp_all split: if_splits)
qed

lemma order_step:
  assumes inv: "session_inv s" "ordered_fwd s" and c: "c \<noteq> CallReset"
  shows "ordered_fwd (snd (session_step True c s))"
    and "continues (next_bound ch s) (step_frames True (ordered_on ch) c s)
      (next_bound ch (snd (session_step True c s)))"
    and "follows (sequenced_bound ch s) (step_frames True (sequenced_on ch) c s)
      (sequenced_bound ch (snd (session_step True c s)))"
proof -
  show "ordered_fwd (snd (session_step True c s))"
  proof (rule step_delivery_cases [OF inv(1) c, of True "\<lambda>_. True"])
    fix p expected s1
    assume "session_inv s1" "delivery_state s1 = delivery_state s"
      "snd (session_step True c s) = snd (receive_data True p expected s1)"
    then show ?thesis using inv(2) order_receive_data(1) order_state(1) by metis
  qed (use inv(2) order_state(1) order_remember(1) in metis)+
  show "continues (next_bound ch s) (step_frames True (ordered_on ch) c s)
      (next_bound ch (snd (session_step True c s)))"
  proof (rule step_delivery_cases [OF inv(1) c, of True "ordered_on ch"])
    fix p expected s1
    assume i: "session_inv s1" "delivery_state s1 = delivery_state s"
      "snd (session_step True c s) = snd (receive_data True p expected s1)"
      "step_frames True (ordered_on ch) c s
        = (if ordered_on ch p then frames_of (fst (receive_data True p expected s1)) else [])"
    have "ordered_fwd s1" using order_state(1) [OF i(2)] inv(2) by simp
    from order_receive_data(2) [OF i(1) this, of ch p expected] i order_state(2) [OF i(2), of ch]
    show ?thesis by simp
  next
    assume f: "step_frames True (ordered_on ch) c s = []"
      "delivery_state (snd (session_step True c s)) = delivery_state s"
    show ?thesis using order_state(2) [OF f(2), of ch] by (simp add: f(1))
  next
    fix q assume f: "step_frames True (ordered_on ch) c s = []"
      "delivery_state (snd (session_step True c s)) = delivery_state (remember_received q s)"
    show ?thesis using order_state(2) [OF f(2), of ch] by (simp add: f(1))
  qed
  show "follows (sequenced_bound ch s) (step_frames True (sequenced_on ch) c s)
      (sequenced_bound ch (snd (session_step True c s)))"
  proof (rule step_delivery_cases [OF inv(1) c, of True "sequenced_on ch"])
    fix p expected s1
    assume i: "session_inv s1" "delivery_state s1 = delivery_state s"
      "snd (session_step True c s) = snd (receive_data True p expected s1)"
      "step_frames True (sequenced_on ch) c s
        = (if sequenced_on ch p then frames_of (fst (receive_data True p expected s1)) else [])"
    have "ordered_fwd s1" using order_state(1) [OF i(2)] inv(2) by simp
    from order_receive_data(3) [OF i(1) this, of ch p expected] i order_state(3) [OF i(2), of ch]
    show ?thesis by simp
  next
    assume f: "step_frames True (sequenced_on ch) c s = []"
      "delivery_state (snd (session_step True c s)) = delivery_state s"
    show ?thesis using order_state(3) [OF f(2), of ch] by (simp add: f(1))
  next
    fix q assume f: "step_frames True (sequenced_on ch) c s = []"
      "delivery_state (snd (session_step True c s)) = delivery_state (remember_received q s)"
    show ?thesis using order_state(3) [OF f(2), of ch] by (simp add: f(1))
  qed
qed

lemma order_run:
  assumes "session_inv s" "ordered_fwd s" "no_reset calls"
  shows "\<exists>n. continues (next_bound ch s) (deliveries True (ordered_on ch) calls s) n"
    and "\<exists>n. follows (sequenced_bound ch s) (deliveries True (sequenced_on ch) calls s) n"
proof -
  have "\<exists>n n'. continues (next_bound ch s) (deliveries True (ordered_on ch) calls s) n
      \<and> follows (sequenced_bound ch s) (deliveries True (sequenced_on ch) calls s) n'"
    using assms
  proof (induction calls arbitrary: s)
    case Nil
    then show ?case by (auto intro: exI [of _ "next_bound ch s"] exI [of _ "sequenced_bound ch s"])
  next
    case (Cons c calls)
    let ?s1 = "snd (session_step True c s)"
    from Cons.prems have c: "c \<noteq> CallReset" "no_reset calls" by auto
    note step = order_step [OF Cons.prems(1,2) c(1)]
    obtain n n' where "continues (next_bound ch ?s1) (deliveries True (ordered_on ch) calls ?s1) n"
        "follows (sequenced_bound ch ?s1) (deliveries True (sequenced_on ch) calls ?s1) n'"
      using Cons.IH [OF session_step_inv [OF Cons.prems(1)] step(1) c(2)] by blast
    with step(2,3) [of ch] show ?case
      unfolding deliveries.simps by (blast intro: continues_append follows_append)
  qed
  then show "\<exists>n. continues (next_bound ch s) (deliveries True (ordered_on ch) calls s) n"
    "\<exists>n. follows (sequenced_bound ch s) (deliveries True (sequenced_on ch) calls s) n"
    by blast+
qed

lemma new_session [simp]:
  "held q (session_new opts) = 0" "\<not> bs_member q (received_sequences (session_new opts))"
  "ordered_fwd (session_new opts)"
  by (simp_all add: held_def held_ordered_def held_fragments_def session_new_def ordered_fwd_def)

lemma deliveries_distinct:
  assumes "no_reset calls"
  shows "distinct (map df_sequence (deliveries oc P calls (session_new opts)))"
proof -
  have "copies_in q (deliveries oc P calls (session_new opts)) \<le> 1" for q
    using held_run [OF session_inv_new assms, of q oc P opts] by simp
  then show ?thesis
    unfolding distinct_count_atmost_1 copies_in_def
    by (metis count_greater_zero_iff le_antisym less_one linorder_not_le not_gr0 set_mset_mset)
qed

section \<open>Claims\<close>

text \<open>C1.
  At-most-once delivery: over any run of calls of one conversation (no \<open>reset_peer_state\<close>),
  with any packets in any order, duplicated or replayed, fragmented or not, on any mix of
  ordered, sequenced and plain channels, the frames handed to the application carry pairwise
  different sequence numbers: no packet is delivered twice, in either build profile.\<close>

theorem no_frame_delivered_twice:
  assumes "no_reset calls"
  shows "distinct (map df_sequence (deliveries oc (\<lambda>_. True) calls (session_new opts)))"
  by (rule deliveries_distinct [OF assms])

definition plain_data :: "string \<Rightarrow> u32 \<Rightarrow> bool \<Rightarrow> bool \<Rightarrow> bytes \<Rightarrow> packet" where
  "plain_data ch q ordered sequenced payload = \<lparr> p_type = Data, p_connection_id = 0, p_sequence = q,
     p_ack = 0, p_ack_mask = 0, p_channel_id = ch, p_reliable = True, p_ordered = ordered,
     p_sequenced = sequenced, p_fragment_id = 0, p_fragment_index = 0, p_fragment_count = 0,
     p_payload = payload \<rparr>"

definition replayed_calls :: "session_call list" where
  "replayed_calls = map (\<lambda>q. CallReceive (plain_data ''a'' q True False [of_nat (unat q)]) 0) [2, 1, 2, 3, 1, 3]"

theorem no_frame_delivered_twice_witness:
  "map df_sequence (deliveries True (\<lambda>_. True) replayed_calls (session_new default_session_options)) = [2, 3]
   \<and> distinct (map df_sequence (deliveries True (\<lambda>_. True) replayed_calls (session_new default_session_options)))"
proof
  show "map df_sequence (deliveries True (\<lambda>_. True) replayed_calls (session_new default_session_options)) = [2, 3]"
    by code_simp
  show "distinct (map df_sequence (deliveries True (\<lambda>_. True) replayed_calls (session_new default_session_options)))"
    by (rule no_frame_delivered_twice) (simp add: replayed_calls_def)
qed


definition shuffled_calls :: "session_call list" where
  "shuffled_calls = map (\<lambda>(ch, q). CallReceive (plain_data ch q True False []) 0)
     [(''a'', 5), (''a'', 7), (''b'', 8), (''a'', 6), (''a'', 5)]"


text \<open>
  Sequenced channels: with overflow checks, the frames delivered for the sequenced, not
  ordered packets of a channel never go back: each has a higher sequence than all the ones
  delivered before it, so late packets are dropped.\<close>

theorem sequenced_channel_never_goes_back:
  assumes "no_reset calls"
  shows "sorted_wrt (<) (map df_sequence (deliveries True (sequenced_on ch) calls (session_new opts)))"
proof -
  have "sorted (map df_sequence (deliveries True (sequenced_on ch) calls (session_new opts)))"
    using order_run(2) [OF session_inv_new new_session(3) assms, of ch opts] by (auto simp: follows_def)
  with deliveries_distinct [OF assms] show ?thesis by (simp add: strict_sorted_iff)
qed

definition late_calls :: "session_call list" where
  "late_calls = map (\<lambda>q. CallReceive (plain_data ''pose'' q False True []) 0) [4, 9, 6, 9, 12]"

theorem sequenced_channel_never_goes_back_witness:
  "map df_sequence (deliveries True (sequenced_on ''pose'') late_calls (session_new default_session_options)) = [4, 9, 12]
   \<and> sorted_wrt (<) (map df_sequence (deliveries True (sequenced_on ''pose'') late_calls (session_new default_session_options)))"
proof
  show "map df_sequence (deliveries True (sequenced_on ''pose'') late_calls (session_new default_session_options)) = [4, 9, 12]"
    by code_simp
  show "sorted_wrt (<) (map df_sequence (deliveries True (sequenced_on ''pose'') late_calls (session_new default_session_options)))"
    by (rule sequenced_channel_never_goes_back) (simp add: late_calls_def)
qed

end
