(* ===== verification/RudpOrdered.thy ===== *)
theory RudpOrdered
  imports RudpDelivery
begin

text \<open>
  Ordered channels of \<open>src/rudp.rs\<close>, the liveness side. First that a burst of packets with
  consecutive sequences is delivered completely and in order whatever the order of arrival;
  then what happens when a sequence the channel waits for was used by a packet that is not
  on the channel: the channel never delivers again.
\<close>

section \<open>Lookups\<close>

definition next_for :: "string \<Rightarrow> session \<Rightarrow> u32 option" where
  "next_for ch s = map_of (ordered_next_sequence_by_channel s) ch"

definition buffered_at :: "string \<Rightarrow> u32 \<Rightarrow> session \<Rightarrow> pending_ordered_frame option" where
  "buffered_at ch q s = (case map_of (ordered_buffers s) ch of None \<Rightarrow> None | Some b \<Rightarrow> map_of b q)"

lemma drain_step_lookup:
  "drain_step ch s = (case next_for ch s of None \<Rightarrow> None
     | Some nxt \<Rightarrow> (case buffered_at ch nxt s of None \<Rightarrow> None
        | Some pending \<Rightarrow> Some (po_frame pending, snd (the (drain_step ch s)))))"
  by (simp add: drain_step_def next_for_def buffered_at_def split: option.splits)

lemma drain_step_effect:
  assumes "next_for ch s = Some nxt" "buffered_at ch nxt s = Some pending"
  shows "\<exists>s1. drain_step ch s = Some (po_frame pending, s1)
    \<and> next_for ch s1 = Some (po_next_sequence pending)
    \<and> (\<forall>q. buffered_at ch q s1 = (if q = nxt then None else buffered_at ch q s))"
proof -
  obtain buf where "map_of (ordered_buffers s) ch = Some buf" "map_of buf nxt = Some pending"
    using assms(2) by (auto simp: buffered_at_def split: option.splits)
  with assms(1) show ?thesis
    by (simp add: drain_step_def next_for_def buffered_at_def)
qed

lemma drain_ordered_None:
  assumes "next_for ch s = Some nxt" "buffered_at ch nxt s = None"
  shows "drain_ordered ch s = ([], s)"
  using assms by (subst drain_ordered_step) (subst drain_step_lookup, simp)

lemma drain_other_channel:
  assumes "ch' \<noteq> ch"
  shows "next_for ch' (snd (drain_ordered ch s)) = next_for ch' s
    \<and> buffered_at ch' q (snd (drain_ordered ch s)) = buffered_at ch' q s"
proof (induction s rule: drain_induct [where ch = ch])
  case (step s)
  have "next_for ch' s1 = next_for ch' s \<and> buffered_at ch' q s1 = buffered_at ch' q s"
    if "drain_step ch s = Some (f, s1)" for f s1
    using assms by (auto simp: next_for_def buffered_at_def intro: drain_step_SomeD [OF that])
  with step show ?case
    by (subst (1 2) drain_ordered_step) (fastforce split: option.splits prod.splits)
qed

lemma drain_window: "received_sequences (snd (drain_ordered ch s)) = received_sequences s
    \<and> highest_received_sequence (snd (drain_ordered ch s)) = highest_received_sequence s"
proof (induction s rule: drain_induct [where ch = ch])
  case (step s)
  have "received_sequences s1 = received_sequences s \<and> highest_received_sequence s1 = highest_received_sequence s"
    if "drain_step ch s = Some (f, s1)" for f s1
    by (rule drain_step_SomeD [OF that]) simp
  with step show ?case
    by (subst (1 2) drain_ordered_step) (fastforce split: option.splits prod.splits)
qed

lemma deliver_ordered_window [simp]:
  "received_sequences (snd (deliver_ordered frame nxt expected s)) = received_sequences s"
  "highest_received_sequence (snd (deliver_ordered frame nxt expected s)) = highest_received_sequence s"
  by (auto simp: deliver_ordered_def Let_def split_beta drain_window split: option.splits)

section \<open>Draining a window\<close>

text \<open>
  A burst: the frames of the consecutive sequences from \<open>n\<close> on, given by index. The channel
  has delivered those below \<open>m\<close>, and of the rest it holds the ones in \<open>R\<close>.
\<close>

definition burst_entry :: "u32 \<Rightarrow> (nat \<Rightarrow> delivered_frame) \<Rightarrow> nat \<Rightarrow> pending_ordered_frame" where
  "burst_entry n F i = \<lparr> po_frame = F i, po_next_sequence = n + of_nat i + 1 \<rparr>"

definition holds_burst ::
  "string \<Rightarrow> u32 \<Rightarrow> (nat \<Rightarrow> delivered_frame) \<Rightarrow> nat \<Rightarrow> nat set \<Rightarrow> nat \<Rightarrow> session \<Rightarrow> bool" where
  "holds_burst ch n F k R m s \<longleftrightarrow>
     (\<forall>i \<le> k. buffered_at ch (n + of_nat i) s = (if i \<in> R \<and> m \<le> i then Some (burst_entry n F i) else None))"

lemma burst_word: "unat (n :: u32) + k < 2 ^ 32 \<Longrightarrow> i \<le> k \<Longrightarrow> unat (n + of_nat i) = unat n + i"
  by (subst unat_add_no_overflow) (simp_all add: unat_of_nat_u32)

lemma burst_word_inj:
  "unat (n :: u32) + k < 2 ^ 32 \<Longrightarrow> i \<le> k \<Longrightarrow> j \<le> k \<Longrightarrow> n + of_nat i = n + of_nat j \<longleftrightarrow> i = j"
  by (metis add_left_cancel burst_word)

lemma drain_burst:
  assumes fit: "unat n + k < 2 ^ 32" and k: "k \<notin> R"
    and "m \<le> k" "next_for ch s = Some (n + of_nat m)" "holds_burst ch n F k R m s"
  shows "\<exists>m'. m \<le> m' \<and> m' \<le> k \<and> {m..<m'} \<subseteq> R \<and> m' \<notin> R
    \<and> fst (drain_ordered ch s) = map F [m..<m']
    \<and> next_for ch (snd (drain_ordered ch s)) = Some (n + of_nat m')
    \<and> holds_burst ch n F k R m' (snd (drain_ordered ch s))"
  using assms(3-5)
proof (induction "k - m" arbitrary: m s)
  case 0
  then have "buffered_at ch (n + of_nat m) s = None"
    using k by (auto simp: holds_burst_def)
  from drain_ordered_None [OF 0(3) this] 0 k show ?case
    by (intro exI [of _ m]) auto
next
  case (Suc j)
  show ?case
  proof (cases "m \<in> R")
    case False
    then have "buffered_at ch (n + of_nat m) s = None"
      using Suc.prems by (auto simp: holds_burst_def)
    from drain_ordered_None [OF Suc.prems(2) this] Suc.prems False show ?thesis
      by (intro exI [of _ m]) auto
  next
    case True
    then have "buffered_at ch (n + of_nat m) s = Some (burst_entry n F m)"
      using Suc.prems by (auto simp: holds_burst_def)
    from drain_step_effect [OF Suc.prems(2) this] obtain s1 where
      d: "drain_step ch s = Some (F m, s1)" and n1: "next_for ch s1 = Some (n + of_nat m + 1)"
      and b1: "\<forall>q. buffered_at ch q s1 = (if q = n + of_nat m then None else buffered_at ch q s)"
      by (auto simp: burst_entry_def)
    have "holds_burst ch n F k R (Suc m) s1"
      using Suc.prems burst_word_inj [OF fit] by (auto simp: holds_burst_def b1)
    moreover have "next_for ch s1 = Some (n + of_nat (Suc m))" using n1 by (simp add: ac_simps)
    moreover have "j = k - Suc m" "Suc m \<le> k" using Suc.hyps(2) by simp_all
    ultimately obtain m' where m': "Suc m \<le> m'" "m' \<le> k" "{Suc m..<m'} \<subseteq> R" "m' \<notin> R"
        "fst (drain_ordered ch s1) = map F [Suc m..<m']"
        "next_for ch (snd (drain_ordered ch s1)) = Some (n + of_nat m')"
        "holds_burst ch n F k R m' (snd (drain_ordered ch s1))"
      using Suc.hyps(1) by blast
    have "drain_ordered ch s = (F m # fst (drain_ordered ch s1), snd (drain_ordered ch s1))"
      by (subst drain_ordered_step) (simp add: d split_beta)
    moreover have "{m..<m'} \<subseteq> R"
    proof
      fix x assume "x \<in> {m..<m'}"
      then show "x \<in> R" using True m'(3) by (cases "x = m") auto
    qed
    moreover have "map F [m..<m'] = F m # map F [Suc m..<m']"
      using m'(1) by (simp add: upt_conv_Cons)
    ultimately show ?thesis
      using m' by (intro exI [of _ m'] conjI) simp_all
  qed
qed

section \<open>A burst of packets\<close>

definition frame_of :: "packet \<Rightarrow> delivered_frame" where
  "frame_of p = \<lparr> df_channel_id = p_channel_id p, df_payload = p_payload p, df_sequence = p_sequence p \<rparr>"

definition burst_packet :: "string \<Rightarrow> u32 \<Rightarrow> u32 \<Rightarrow> nat \<Rightarrow> packet \<Rightarrow> bool" where
  "burst_packet ch cid n i p \<longleftrightarrow> p_type p = Data \<and> p_connection_id p = cid \<and> p_sequence p = n + of_nat i
     \<and> p_channel_id p = ch \<and> p_ordered p \<and> p_fragment_count p = 0"

definition burst_state ::
  "string \<Rightarrow> u32 \<Rightarrow> (nat \<Rightarrow> delivered_frame) \<Rightarrow> nat \<Rightarrow> nat set \<Rightarrow> nat \<Rightarrow> session \<Rightarrow> bool" where
  "burst_state ch n F k R m s \<longleftrightarrow>
     (case next_for ch s of
        None \<Rightarrow> R = {} \<and> m = 0 \<and> n \<noteq> 0 \<and> highest_received_sequence s = Some (n - 1)
      | Some x \<Rightarrow> x = n + of_nat m)
     \<and> holds_burst ch n F k R m s \<and> {..<m} \<subseteq> R \<and> m \<notin> R \<and> m \<le> k \<and> R \<subseteq> {..<k}
     \<and> (\<forall>i < k. bs_member (n + of_nat i) (received_sequences s) \<longleftrightarrow> i \<in> R)
     \<and> (case highest_received_sequence s of None \<Rightarrow> True | Some h \<Rightarrow> unat h < unat n + k)"

lemma lookup_state:
  assumes "delivery_state s = delivery_state s'"
  shows "next_for ch s = next_for ch s'" "buffered_at ch q s = buffered_at ch q s'"
  using assms by (simp_all add: delivery_state_def next_for_def buffered_at_def)

lemma lookup_remember [simp]:
  "next_for ch (remember_received q s) = next_for ch s"
  "buffered_at ch q' (remember_received q s) = buffered_at ch q' s"
  by (subst remember_received_frame, simp add: next_for_def buffered_at_def)+

lemma highest_remember:
  "highest_received_sequence (remember_received q s) =
     (case highest_received_sequence s of None \<Rightarrow> Some q | Some h \<Rightarrow> Some (max h q))"
  by (auto simp: remember_received_def Let_def max_def split: option.splits)

text \<open>Delivery of one frame of the burst, on a session that has just remembered its sequence.\<close>

lemma deliver_burst_frame:
  assumes fit: "unat n + k < 2 ^ 32" and i: "i < k" "i \<notin> R" "m \<le> i" and R: "R \<subseteq> {..<k}" "{..<m} \<subseteq> R" "m \<notin> R"
    and F: "df_channel_id (F i) = ch" "df_sequence (F i) = n + of_nat i"
    and nxt: "channel_next (F i) expected s = n + of_nat m"
    and hold: "holds_burst ch n F k R m s"
  shows "\<exists>m'. m \<le> m' \<and> m' \<le> k \<and> {..<m'} \<subseteq> insert i R \<and> m' \<notin> insert i R
    \<and> fst (deliver_ordered (F i) (n + of_nat i + 1) expected s) = map F [m..<m']
    \<and> next_for ch (snd (deliver_ordered (F i) (n + of_nat i + 1) expected s)) = Some (n + of_nat m')
    \<and> holds_burst ch n F k (insert i R) m' (snd (deliver_ordered (F i) (n + of_nat i + 1) expected s))"
proof (cases "i = m")
  case True
  let ?t = "channel_ready (F i) expected s"
  let ?t1 = "?t\<lparr>ordered_next_sequence_by_channel := bt_insert ch (n + of_nat i + 1) (ordered_next_sequence_by_channel ?t)\<rparr>"
  have "next_for ch ?t1 = Some (n + of_nat (Suc m))" by (simp add: next_for_def True ac_simps)
  moreover have "holds_burst ch n F k (insert i R) (Suc m) ?t1"
  proof -
    have "buffered_at ch q ?t1 = buffered_at ch q s" for q
      by (simp add: buffered_at_def channel_ready_def split: option.splits)
    moreover have "j \<in> insert i R \<and> Suc m \<le> j \<longleftrightarrow> j \<in> R \<and> m \<le> j" for j
      using True R(3) by (cases "j = m") auto
    ultimately show ?thesis using hold by (simp only: holds_burst_def)
  qed
  moreover have "k \<notin> insert i R" using R(1) i(1) by auto
  moreover have "Suc m \<le> k" using i True by simp
  ultimately obtain m' where m': "Suc m \<le> m'" "m' \<le> k" "{Suc m..<m'} \<subseteq> insert i R" "m' \<notin> insert i R"
      "fst (drain_ordered ch ?t1) = map F [Suc m..<m']"
      "next_for ch (snd (drain_ordered ch ?t1)) = Some (n + of_nat m')"
      "holds_burst ch n F k (insert i R) m' (snd (drain_ordered ch ?t1))"
    using drain_burst [OF fit] by blast
  have "{..<m'} \<subseteq> insert i R"
  proof
    fix x assume "x \<in> {..<m'}"
    then consider "x < m" | "x = m" | "x \<in> {Suc m..<m'}" by fastforce
    then show "x \<in> insert i R" using R(2) m'(3) True by cases auto
  qed
  moreover have "map F [m..<m'] = F m # map F [Suc m..<m']"
    using m'(1) by (simp add: upt_conv_Cons)
  moreover have "deliver_ordered (F i) (n + of_nat i + 1) expected s
      = (F m # fst (drain_ordered ch ?t1), snd (drain_ordered ch ?t1))"
    using nxt F True by (simp add: deliver_ordered_eq Let_def split_beta)
  ultimately show ?thesis
    using m' by (intro exI [of _ m'] conjI) simp_all
next
  case False
  with i have lt: "n + of_nat m < n + of_nat i"
    using burst_word [OF fit, of m] burst_word [OF fit, of i] by (simp add: word_less_nat_alt)
  let ?t = "channel_ready (F i) expected s"
  let ?t1 = "?t\<lparr>ordered_buffers := bt_insert ch (bt_insert (n + of_nat i) (burst_entry n F i)
      (case map_of (ordered_buffers ?t) ch of None \<Rightarrow> [] | Some b \<Rightarrow> b)) (ordered_buffers ?t)\<rparr>"
  have d: "deliver_ordered (F i) (n + of_nat i + 1) expected s = ([], ?t1)"
    using nxt F lt by (simp add: deliver_ordered_eq Let_def burst_entry_def)
  have "next_for ch ?t1 = Some (n + of_nat m)"
    using nxt F by (auto simp: next_for_def channel_ready_def channel_next_def split: option.splits)
  moreover have at: "buffered_at ch q ?t1 = (if q = n + of_nat i then Some (burst_entry n F i) else buffered_at ch q s)" for q
    by (auto simp: buffered_at_def channel_ready_def split: option.splits)
  have "holds_burst ch n F k (insert i R) m ?t1"
    unfolding holds_burst_def
  proof (intro allI impI)
    fix j assume "j \<le> k"
    with hold burst_word_inj [OF fit this, of i] i
    show "buffered_at ch (n + of_nat j) ?t1 = (if j \<in> insert i R \<and> m \<le> j then Some (burst_entry n F j) else None)"
      by (auto simp: at holds_burst_def)
  qed
  moreover have "m \<notin> insert i R" "{..<m} \<subseteq> insert i R" using R False by auto
  ultimately show ?thesis
    using i by (intro exI [of _ m]) (simp add: d)
qed

text \<open>Receiving a whole ordered packet whose sequence is new.\<close>

lemma receive_ordered_packet:
  fixes t :: u64
  assumes "p_type p = Data" "p_connection_id p = connection_id s" "p_ordered p" "p_fragment_count p = 0"
    and new: "\<not> bs_member (p_sequence p) (received_sequences s)"
    and seq: "unat (p_sequence p) + 1 < 2 ^ 32"
    and high: "\<And>h. highest_received_sequence s = Some h \<Longrightarrow> unat h + 1 < 2 ^ 32"
  defines "expected \<equiv> (case highest_received_sequence s of None \<Rightarrow> p_sequence p | Some h \<Rightarrow> h + 1)"
    and "s1 \<equiv> remember_received (p_sequence p) ((apply_acknowledgements p s)\<lparr>last_received_at_ms := Some t\<rparr>)"
  shows "receive oc p t s =
    (Inr (empty_result\<lparr>rr_delivered := fst (deliver_ordered (frame_of p) (p_sequence p + 1) expected s1)\<rparr>),
     snd (deliver_ordered (frame_of p) (p_sequence p + 1) expected s1))"
proof -
  let ?s0 = "(apply_acknowledgements p s)\<lparr>last_received_at_ms := Some t\<rparr>"
  have high0: "highest_received_sequence ?s0 = highest_received_sequence s"
    and rec0: "received_sequences ?s0 = received_sequences s"
    by (simp_all add: apply_acknowledgements_def)
  have e: "(case highest_received_sequence ?s0 of None \<Rightarrow> Some (p_sequence p) | Some h \<Rightarrow> rust_add oc h 1) = Some expected"
    unfolding high0 using high by (auto simp: expected_def rust_add_def split: option.splits)
  have r: "reassemble oc p s1 = (Inr (Some (frame_of p, True, p_sequence p + 1)), s1)"
    using assms(3,4) seq by (simp add: reassemble_def rust_add_def frame_of_def)
  have "receive oc p t s = receive_data oc p expected ?s0"
    using assms(1,2) e by (simp add: receive_def require_connection_def)
  also have "\<dots> = (let (r, s3) = deliver_frame p expected (frame_of p, True, p_sequence p + 1) s1 in (Inr r, s3))"
    using new r by (simp add: receive_data_def Let_def rec0 s1_def)
  finally show ?thesis by (simp add: deliver_frame_def split_beta)
qed

lemma burst_step:
  assumes fit: "unat n + k < 2 ^ 32" and st: "burst_state ch n F k R m s" and i: "i < k" "i \<notin> R"
    and p: "burst_packet ch (connection_id s) n i p" "F i = frame_of p"
  shows "\<exists>m'. m \<le> m' \<and> frames_of (fst (receive oc p t s)) = map F [m..<m']
    \<and> burst_state ch n F k (insert i R) m' (snd (receive oc p t s))"
proof -
  let ?s0 = "(apply_acknowledgements p s)\<lparr>last_received_at_ms := Some t\<rparr>"
  let ?s1 = "remember_received (p_sequence p) ?s0"
  let ?e = "case highest_received_sequence s of None \<Rightarrow> p_sequence p | Some h \<Rightarrow> h + 1"
  let ?d = "deliver_ordered (frame_of p) (p_sequence p + 1) ?e ?s1"
  have seq: "p_sequence p = n + of_nat i" and useq: "unat (p_sequence p) = unat n + i"
    using p(1) burst_word [OF fit, of i] i by (auto simp: burst_packet_def)
  have st': "holds_burst ch n F k R m s" "{..<m} \<subseteq> R" "m \<notin> R" "m \<le> k" "R \<subseteq> {..<k}"
      "\<forall>i < k. bs_member (n + of_nat i) (received_sequences s) \<longleftrightarrow> i \<in> R"
      "\<And>h. highest_received_sequence s = Some h \<Longrightarrow> unat h < unat n + k"
    using st by (auto simp: burst_state_def)
  have recv: "receive oc p t s = (Inr (empty_result\<lparr>rr_delivered := fst ?d\<rparr>), snd ?d)"
    using p(1) i fit st'(6,7) useq seq
    by (intro receive_ordered_packet) (fastforce simp: burst_packet_def)+
  have d0: "delivery_state ?s0 = delivery_state s" by (simp add: delivery_frame)
  have next1: "next_for ch ?s1 = next_for ch s" and buf1: "buffered_at ch q ?s1 = buffered_at ch q s" for q
    using lookup_state [OF d0] by simp_all
  have chan: "df_channel_id (frame_of p) = ch" "df_sequence (frame_of p) = n + of_nat i"
    using p(1) by (auto simp: burst_packet_def frame_of_def)
  have "m \<le> i" using st'(2) i(2) by (metis lessThan_iff not_le subsetD)
  have "channel_next (F i) ?e ?s1 = n + of_nat m"
  proof (cases "next_for ch s")
    case None
    then have "m = 0" "?e = n" using st by (auto simp: burst_state_def)
    moreover have "n \<le> n + of_nat i" using burst_word [OF fit, of i] i by (simp add: word_le_nat_alt)
    ultimately show ?thesis
      using None next1 chan by (simp add: p(2) channel_next_def next_for_def min_def)
  next
    case (Some x)
    with st next1 chan show ?thesis
      by (simp add: p(2) channel_next_def next_for_def burst_state_def)
  qed
  from deliver_burst_frame [where F = F, OF fit i \<open>m \<le> i\<close> st'(5,2,3) _ _ this] chan st'(1) buf1
  obtain m' where m': "m \<le> m'" "m' \<le> k" "{..<m'} \<subseteq> insert i R" "m' \<notin> insert i R"
      "fst ?d = map F [m..<m']" "next_for ch (snd ?d) = Some (n + of_nat m')"
      "holds_burst ch n F k (insert i R) m' (snd ?d)"
    by (auto simp: p(2) seq holds_burst_def)
  have rec: "received_sequences (snd ?d) = bs_insert (n + of_nat i) (received_sequences s)"
    by (simp add: seq apply_acknowledgements_def)
  have high: "highest_received_sequence (snd ?d)
      = (case highest_received_sequence s of None \<Rightarrow> Some (n + of_nat i) | Some h \<Rightarrow> Some (max h (n + of_nat i)))"
    by (simp add: seq apply_acknowledgements_def highest_remember)
  have "bs_member (n + of_nat j) (received_sequences (snd ?d)) \<longleftrightarrow> j \<in> insert i R" if "j < k" for j
    using that st'(6) i(1) burst_word_inj [OF fit, of j i] unfolding rec by auto
  moreover have "case highest_received_sequence (snd ?d) of None \<Rightarrow> True | Some h \<Rightarrow> unat h < unat n + k"
    using st'(7) useq i(1) unfolding high by (auto simp: seq max_def split: option.splits)
  ultimately have "burst_state ch n F k (insert i R) m' (snd ?d)"
    using m' st'(5) i(1) by (auto simp: burst_state_def)
  with m'(1,5) recv show ?thesis by (intro exI [of _ m']) simp
qed

lemma connection_receive: "connection_id (snd (receive oc p t s)) = connection_id s"
  using config_receive [of oc p t s] by (simp add: config_def)

lemma burst_run:
  assumes fit: "unat n + k < 2 ^ 32"
    and "burst_state ch n F k R m s" "distinct is" "set is \<subseteq> {..<k} - R"
    and "\<And>i. i < k \<Longrightarrow> burst_packet ch (connection_id s) n i (pk i) \<and> F i = frame_of (pk i)"
    and "map fst calls = map pk is"
  shows "\<exists>m'. m \<le> m' \<and> deliveries oc (\<lambda>_. True) (map (\<lambda>(p, t). CallReceive p t) calls) s = map F [m..<m']
    \<and> burst_state ch n F k (R \<union> set is) m' (snd (run_ops (session_step oc) (map (\<lambda>(p, t). CallReceive p t) calls) s))"
  using assms(2-)
proof (induction "is" arbitrary: calls R m s)
  case Nil
  then show ?case by (intro exI [of _ m]) simp
next
  case (Cons i "is")
  obtain t cs where calls: "calls = (pk i, t) # cs" "map fst cs = map pk is"
    using Cons.prems(5) by (cases calls) auto
  let ?s1 = "snd (receive oc (pk i) t s)"
  have i: "i < k" "i \<notin> R" using Cons.prems(3) by auto
  obtain m1 where m1: "m \<le> m1" "frames_of (fst (receive oc (pk i) t s)) = map F [m..<m1]"
      "burst_state ch n F k (insert i R) m1 ?s1"
    using burst_step [OF fit Cons.prems(1) i] Cons.prems(4) [OF i(1)] by blast
  have "distinct is" "set is \<subseteq> {..<k} - insert i R" using Cons.prems(2,3) by auto
  from Cons.IH [OF m1(3) this _ calls(2)] Cons.prems(4)
  obtain m' where m': "m1 \<le> m'"
      "deliveries oc (\<lambda>_. True) (map (\<lambda>(p, t). CallReceive p t) cs) ?s1 = map F [m1..<m']"
      "burst_state ch n F k (insert i R \<union> set is) m' (snd (run_ops (session_step oc) (map (\<lambda>(p, t). CallReceive p t) cs) ?s1))"
    by (auto simp: connection_receive)
  have "map F [m..<m'] = map F [m..<m1] @ map F [m1..<m']"
    using m1(1) m'(1) by (metis le_Suc_ex map_append upt_add_eq_append)
  then show ?case
    using m1(1,2) m' by (intro exI [of _ m']) (simp add: calls(1) step_frames_def case_prod_unfold Let_def)
qed

section \<open>A channel whose next sequence is gone\<close>

text \<open>
  The channel waits for sequence \<open>n\<close>, but the session has already seen \<open>n\<close> (on another channel,
  or as a ping, an ack or any other packet), and holds no frame or fragment with it.
\<close>

definition channel_stuck :: "string \<Rightarrow> u32 \<Rightarrow> session \<Rightarrow> bool" where
  "channel_stuck ch n s \<longleftrightarrow> next_for ch s = Some n \<and> bs_member n (received_sequences s)
     \<and> buffered_at ch n s = None \<and> held_fragments n s = 0"

lemma stuck_state:
  "delivery_state s = delivery_state s' \<Longrightarrow> channel_stuck ch n s = channel_stuck ch n s'"
  by (simp add: channel_stuck_def delivery_state_def next_for_def buffered_at_def held_fragments_def)

lemma stuck_remember: "channel_stuck ch n s \<Longrightarrow> channel_stuck ch n (remember_received q s)"
  by (simp add: channel_stuck_def)

lemma stuck_deliver_ordered:
  assumes st: "channel_stuck ch n s" and seq: "df_sequence frame \<noteq> n"
  shows "channel_stuck ch n (snd (deliver_ordered frame nxt expected s))"
    and "df_channel_id frame = ch \<Longrightarrow> fst (deliver_ordered frame nxt expected s) = []"
proof -
  have frags: "held_fragments n (snd (deliver_ordered frame nxt expected s)) = held_fragments n s"
    using fragments_drain
    by (auto simp: held_fragments_def deliver_ordered_def Let_def split_beta split: option.splits)
  note st' = st [unfolded channel_stuck_def]
  have "next_for ch (snd (deliver_ordered frame nxt expected s)) = Some n
     \<and> buffered_at ch n (snd (deliver_ordered frame nxt expected s)) = None
     \<and> (df_channel_id frame = ch \<longrightarrow> fst (deliver_ordered frame nxt expected s) = [])"
  proof (cases "df_channel_id frame = ch")
    case True
    with st' have "channel_next frame expected s = n" "channel_ready frame expected s = s"
      by (simp_all add: channel_next_def channel_ready_def next_for_def)
    with True seq st' show ?thesis
      by (auto simp: deliver_ordered_eq Let_def next_for_def buffered_at_def split: option.splits)
  next
    case False
    then have "next_for ch (channel_ready frame expected s) = next_for ch s"
        "\<And>q. buffered_at ch q (channel_ready frame expected s) = buffered_at ch q s"
      by (simp_all add: channel_ready_def next_for_def buffered_at_def split: option.splits)
    with False st' show ?thesis
      using drain_other_channel [of ch "df_channel_id frame"]
      by (auto simp: deliver_ordered_eq Let_def split_beta next_for_def buffered_at_def)
  qed
  with frags st' show "channel_stuck ch n (snd (deliver_ordered frame nxt expected s))"
    and "df_channel_id frame = ch \<Longrightarrow> fst (deliver_ordered frame nxt expected s) = []"
    by (auto simp: channel_stuck_def)
qed

lemma stuck_deliver_frame:
  assumes "channel_stuck ch n s" "df_sequence frame \<noteq> n"
  shows "channel_stuck ch n (snd (deliver_frame p expected (frame, ordered, nxt) s))"
    and "ordered \<Longrightarrow> df_channel_id frame = ch \<Longrightarrow>
      rr_delivered (fst (deliver_frame p expected (frame, ordered, nxt) s)) = []"
proof -
  have "channel_stuck ch n (s\<lparr>highest_delivered_sequenced_by_channel := m\<rparr>)" for m
    using assms(1) by (simp add: channel_stuck_def next_for_def buffered_at_def held_fragments_def)
  then show "channel_stuck ch n (snd (deliver_frame p expected (frame, ordered, nxt) s))"
    using assms stuck_deliver_ordered(1) [OF assms]
    by (auto simp: deliver_frame_def Let_def split_beta)
  show "ordered \<Longrightarrow> df_channel_id frame = ch \<Longrightarrow>
      rr_delivered (fst (deliver_frame p expected (frame, ordered, nxt) s)) = []"
    using stuck_deliver_ordered(2) [OF assms] by (simp add: deliver_frame_def split_beta)
qed

lemma stuck_receive_data:
  assumes inv: "session_inv s" and st: "channel_stuck ch n s"
  shows "channel_stuck ch n (snd (receive_data oc p expected s))"
    and "ordered_on ch p \<Longrightarrow> frames_of (fst (receive_data oc p expected s)) = []"
proof -
  let ?s1 = "remember_received (p_sequence p) s"
  have inv1: "session_inv ?s1" using inv by (rule session_inv_remember)
  have st1: "channel_stuck ch n ?s1" using st by (rule stuck_remember)
  have seen: "bs_member (p_sequence p) (received_sequences ?s1)" by simp
  obtain r s2 where r: "reassemble oc p ?s1 = (r, s2)" by fastforce
  have "channel_stuck ch n (snd (receive_data oc p expected s))
     \<and> (ordered_on ch p \<longrightarrow> frames_of (fst (receive_data oc p expected s)) = [])"
  proof (cases "bs_member (p_sequence p) (received_sequences s)")
    case True
    with st1 show ?thesis by (simp add: receive_data_def Let_def empty_result_def)
  next
    case new: False
    with st have "p_sequence p \<noteq> n" by (auto simp: channel_stuck_def)
    with held_reassemble [OF session_invD(4) [OF inv1] seen, of n oc] r st1
    have zero: "completed_copies n r = 0" "held_fragments n s2 = 0"
      by (auto simp: channel_stuck_def one_def)
    obtain fb where "s2 = ?s1\<lparr>fragment_buffers := fb\<rparr>"
      using reassemble_frame [of oc p ?s1] r by auto
    then have "next_for ch s2 = next_for ch ?s1" "buffered_at ch n s2 = buffered_at ch n ?s1"
        "received_sequences s2 = received_sequences ?s1"
      by (simp_all add: next_for_def buffered_at_def)
    with zero(2) st1 have st2: "channel_stuck ch n s2" by (simp add: channel_stuck_def)
    show ?thesis
    proof (cases "\<exists>frame ordered nxt. r = Inr (Some (frame, ordered, nxt))")
      case True
      then obtain frame ordered nxt where c: "r = Inr (Some (frame, ordered, nxt))" by blast
      note seq = reassemble_sequence [OF session_invD(4) [OF inv1] seen r [unfolded c]]
      have "df_sequence frame \<noteq> n" using zero(1) by (auto simp: c completed_copies_def one_def split: if_splits)
      from stuck_deliver_frame [OF st2 this] new r c seq(1,2) show ?thesis
        by (simp add: receive_data_def Let_def split_beta ordered_on_def)
    next
      case False
      with new r st2 show ?thesis
        by (auto simp: receive_data_def empty_result_def split: sum.splits option.splits)
    qed
  qed
  then show "channel_stuck ch n (snd (receive_data oc p expected s))"
    and "ordered_on ch p \<Longrightarrow> frames_of (fst (receive_data oc p expected s)) = []"
    by auto
qed

lemma stuck_step:
  assumes inv: "session_inv s" and c: "c \<noteq> CallReset" and st: "channel_stuck ch n s"
  shows "step_frames oc (ordered_on ch) c s = [] \<and> channel_stuck ch n (snd (session_step oc c s))"
proof (rule step_delivery_cases [OF inv c, of oc "ordered_on ch"])
  fix p expected s1
  assume inv1: "session_inv s1" and d: "delivery_state s1 = delivery_state s"
    and f: "step_frames oc (ordered_on ch) c s = (if ordered_on ch p then frames_of (fst (receive_data oc p expected s1)) else [])"
    "snd (session_step oc c s) = snd (receive_data oc p expected s1)"
  have "channel_stuck ch n s1" using st by (simp only: stuck_state [OF d])
  from stuck_receive_data [OF inv1 this, where oc = oc and p = p and expected = expected] show ?thesis by (simp add: f)
next
  assume f: "step_frames oc (ordered_on ch) c s = []" "delivery_state (snd (session_step oc c s)) = delivery_state s"
  show ?thesis using st by (simp only: stuck_state [OF f(2)] f(1))
next
  fix q assume f: "step_frames oc (ordered_on ch) c s = []"
    "delivery_state (snd (session_step oc c s)) = delivery_state (remember_received q s)"
  show ?thesis using stuck_remember [OF st] by (simp only: stuck_state [OF f(2)] f(1))
qed

lemma stuck_run:
  "session_inv s \<Longrightarrow> channel_stuck ch n s \<Longrightarrow> no_reset calls \<Longrightarrow>
   deliveries oc (ordered_on ch) calls s = [] \<and> next_for ch (snd (run_ops (session_step oc) calls s)) = Some n"
proof (induction calls arbitrary: s)
  case Nil
  then show ?case by (simp add: channel_stuck_def)
next
  case (Cons c calls)
  then have "c \<noteq> CallReset" "no_reset calls" by auto
  with stuck_step [OF Cons.prems(1) this(1) Cons.prems(2), of oc] Cons.IH [OF session_step_inv [OF Cons.prems(1)]]
  show ?case by (simp add: Let_def split_beta)
qed

section \<open>Claims\<close>

text \<open>C8.
  Ordered delivery is complete on a channel that has the sequence space to itself: when
  the channel waits for sequence \<open>n\<close> (or nothing was received on it yet and \<open>n\<close> is the next
  sequence of the session), nothing from \<open>n\<close> on was received and nothing is held back, then \<open>k\<close> whole
  ordered packets with the consecutive sequences \<open>n, ..., n + k - 1\<close>, arriving in any order
  at any times, are all delivered, each once, in the order they were sent.\<close>

theorem ordered_burst_delivered:
  assumes "unat n + k < 2 ^ 32" and "burst_state ch n (frame_of \<circ> pk) k {} 0 s"
    and "list_all (\<lambda>i. burst_packet ch (connection_id s) n i (pk i)) [0..<k]"
    and "mset (map fst arrivals) = mset (map pk [0..<k])"
  shows "deliveries oc (\<lambda>_. True) (map (\<lambda>(p, t). CallReceive p t) arrivals) s = map (frame_of \<circ> pk) [0..<k]"
proof -
  obtain "is" where ix: "mset is = mset [0..<k]" "map pk is = map fst arrivals"
    using mset_map_preimage [OF assms(4)] by blast
  then have "distinct is" "set is = {..<k}"
    by (metis distinct_upt mset_eq_imp_distinct_iff, metis atLeast_upt mset_eq_setD)
  moreover have "burst_packet ch (connection_id s) n i (pk i) \<and> (frame_of \<circ> pk) i = frame_of (pk i)" if "i < k" for i
    using assms(3) that by (auto simp: list_all_iff)
  ultimately obtain m' where m': "deliveries oc (\<lambda>_. True) (map (\<lambda>(p, t). CallReceive p t) arrivals) s
        = map (frame_of \<circ> pk) [0..<m']"
      "burst_state ch n (frame_of \<circ> pk) k {..<k} m' (snd (run_ops (session_step oc) (map (\<lambda>(p, t). CallReceive p t) arrivals) s))"
    using burst_run [OF assms(1,2), of "is" pk arrivals oc] ix(2) by auto
  from m'(2) have "m' \<le> k" "\<not> m' < k" by (auto simp: burst_state_def)
  with m'(1) show ?thesis by simp
qed

definition greeted_session :: session where
  "greeted_session = snd (receive True ((plain_data ''control'' 10 True False [])\<lparr>p_type := Accept\<rparr>) 0
     (session_new default_session_options))"

definition burst_of_three :: "nat \<Rightarrow> packet" where
  "burst_of_three i = plain_data ''doc'' (11 + of_nat i) True False [of_nat i]"

lemma greeted_session_fields:
  "ordered_next_sequence_by_channel greeted_session = []" "ordered_buffers greeted_session = []"
  "highest_received_sequence greeted_session = Some 10" "received_sequences greeted_session = [(10, ())]"
  "connection_id greeted_session = 0"
  by code_simp+

theorem ordered_burst_delivered_witness:
  "deliveries True (\<lambda>_. True) (map (\<lambda>(p, t). CallReceive p t)
      [(burst_of_three 2, 5), (burst_of_three 0, 6), (burst_of_three 1, 7)]) greeted_session
   = map (frame_of \<circ> burst_of_three) [0..<3]"
proof (rule ordered_burst_delivered [where n = 11 and ch = "''doc''"])
  have "(11 :: u32) + of_nat i \<noteq> 10" if "i < 3" for i
  proof
    assume "(11 :: u32) + of_nat i = 10"
    then have "unat ((11 :: u32) + of_nat i) = unat (10 :: u32)" by (rule arg_cong)
    moreover have "unat ((11 :: u32) + of_nat i) = unat (11 :: u32) + i"
      using that by (intro burst_word [where k = 3]) simp_all
    ultimately show False by simp
  qed
  then show "burst_state ''doc'' 11 (frame_of \<circ> burst_of_three) 3 {} 0 greeted_session"
    by (simp add: burst_state_def next_for_def holds_burst_def buffered_at_def greeted_session_fields
        bs_member_def)
  show "list_all (\<lambda>i. burst_packet ''doc'' (connection_id greeted_session) 11 i (burst_of_three i)) [0..<3]"
    by (simp add: greeted_session_fields burst_packet_def burst_of_three_def plain_data_def list_all_iff)
  show "mset (map fst [(burst_of_three 2, 5 :: u64), (burst_of_three 0, 6), (burst_of_three 1, 7)])
      = mset (map burst_of_three [0..<3])"
    by (simp add: upt_rec numeral_eq_Suc)
qed simp

text \<open>
  An ordered channel stalls for good once the sequence it waits for is used elsewhere: the
  sequence counter is shared by all channels and by acks, pings and pongs, but an ordered
  channel only moves on at exactly the sequence after its last frame. If it waits for \<open>n\<close>, the
  session has already received \<open>n\<close> in a packet that is not held on the channel or in a
  fragment set, then over any further run of calls (short of resetting the session) not one
  more ordered frame of the channel is delivered, and the channel waits for \<open>n\<close> for ever.\<close>

theorem ordered_channel_stalls:
  assumes "session_inv s" and "channel_stuck ch n s" and "no_reset calls"
  shows "deliveries oc (ordered_on ch) calls s = []
    \<and> next_for ch (snd (run_ops (session_step oc) calls s)) = Some n"
  by (rule stuck_run [OF assms])

text \<open>One document frame, then a ping: every later frame of the channel is withheld.\<close>

definition pinged_calls :: "session_call list" where
  "pinged_calls = [CallReceive (plain_data ''doc'' 11 True False [1]) 0,
     CallReceive ((plain_data ''control'' 12 False False [])\<lparr>p_type := Ping\<rparr>) 1]"

definition later_calls :: "session_call list" where
  "later_calls = [CallReceive (plain_data ''doc'' 13 True False [2]) 2,
     CallReceive (plain_data ''doc'' 14 True False [3]) 3, CallDueResends 900,
     CallReceive (plain_data ''doc'' 15 True False [4]) 4]"

definition pinged_session :: session where
  "pinged_session = session_after True default_session_options pinged_calls"

theorem ordered_channel_stalls_witness:
  "deliveries True (ordered_on ''doc'') pinged_calls (session_new default_session_options)
     = [\<lparr> df_channel_id = ''doc'', df_payload = [1], df_sequence = 11 \<rparr>]
   \<and> channel_stuck ''doc'' 12 pinged_session
   \<and> deliveries True (ordered_on ''doc'') later_calls pinged_session = []
   \<and> next_for ''doc'' (snd (run_ops (session_step True) later_calls pinged_session)) = Some 12"
proof -
  have stuck: "channel_stuck ''doc'' 12 pinged_session" by code_simp
  have inv: "session_inv pinged_session" by (simp add: pinged_session_def session_after_inv)
  have "no_reset later_calls" by (simp add: later_calls_def)
  from ordered_channel_stalls [OF inv stuck this, of True] stuck
  show ?thesis by (intro conjI) (code_simp, simp_all)
qed

end
