(* ===== verification/Contracts.thy ===== *)
theory Contracts
  imports RustStr
begin

text \<open>
  The message vocabulary of \<open>src/contracts.rs\<close>: its enums and structs, and the validation
  every outgoing message and every parsed schema message passes. A \<open>serde_json::Value\<close> inside a
  document is the type parameter \<open>'j\<close>; the validation never looks into it. The wire codecs
  are in theory \<open>WireCodec\<close>.
\<close>

section \<open>Data\<close>

datatype wire_contract = CultNetSchemaV0 | GameCultNetworkingV0

datatype schema_kind = WireMessage | DocumentPayload | SharedContract

datatype raw_payload_encoding = Messagepack

record 'j document_record =
  dr_schema_id :: string
  dr_record_key :: string
  dr_stored_at :: string
  dr_payload :: 'j
  dr_source_runtime_id :: "string option"
  dr_source_agent_id :: "string option"
  dr_source_role :: "string option"
  dr_tags :: "string list option"

datatype document_operation = Snapshot | DocumentPutOp | DocumentDeleteOp | IntentSubmit | ReceiptWatch

datatype mutation_authority = ReadOnly | LocalUser | Coordinator | Runtime | Denied

record mutation_contract =
  mc_document_type :: string
  mc_payload_schema_version :: "string option"
  mc_operations :: "document_operation list"
  mc_authority :: mutation_authority
  mc_intent_document_types :: "string list option"
  mc_receipt_document_types :: "string list option"
  mc_notes :: "string list option"

datatype transport_protocol = TcpFramed | Litenetlib | Websocket | Rudp

datatype transport_delivery = Reliable | Unreliable

datatype transport_ordering = Ordered | Unordered | Sequenced

record transport_channel =
  tc_channel_id :: string
  tc_delivery :: transport_delivery
  tc_ordering :: transport_ordering
  tc_max_payload_bytes :: "u32 option"
  tc_max_fragment_bytes :: "u32 option"
  tc_max_pending_reliable_packets :: "u32 option"
  tc_reliable_expire_after_ms :: "u64 option"

record transport_descriptor =
  td_transport_id :: string
  td_protocol :: transport_protocol
  td_host :: "string option"
  td_port :: "u16 option"
  td_path :: "string option"
  td_discovery_group :: "string option"
  td_wire_contracts :: "string list option"
  td_channels :: "transport_channel list"

record transport_profile =
  tp_schema_version :: string
  tp_runtime_id :: string
  tp_transports :: "transport_descriptor list"

record raw_document_record =
  rd_schema_id :: string
  rd_record_key :: string
  rd_stored_at :: string
  rd_payload_encoding :: raw_payload_encoding
  rd_payload :: bytes
  rd_source_runtime_id :: "string option"
  rd_source_agent_id :: "string option"
  rd_source_role :: "string option"
  rd_tags :: "string list option"

record schema_descriptor =
  sd_schema_id :: string
  sd_kind :: schema_kind
  sd_schema_version :: "string option"
  sd_document_type :: "string option"
  sd_title :: "string option"
  sd_wire_contracts :: "wire_contract list"
  sd_content_hash :: string
  sd_schema_json :: "string option"

text \<open>The fields of \<open>CultNetMessage::Hello\<close>; the other variants list their fields in order.\<close>

record hello =
  h_runtime_id :: string
  h_runtime_kind :: string
  h_agent_id :: "string option"
  h_role :: "string option"
  h_display_name :: "string option"
  h_supported_document_types :: "string list option"
  h_supported_mutation_contracts :: "mutation_contract list option"
  h_supported_message_versions :: "string list option"
  h_transport_profiles :: "transport_profile list option"
  h_supports_schema_catalog :: "bool option"

datatype 'j cultnet_message =
    Hello hello
  | Login string string string
  | Register string string string string
  | Verify string string
  | LoginSuccess string string
  | Error string
  | SampleChangeName string
  | SampleChat string
  | DocumentPut string "'j document_record"
  | DocumentDelete string string string
  | DocumentPutRaw string raw_document_record
  | SnapshotRequest string "string list option" "string list option"
  | SnapshotResponse string "'j document_record list"
  | SnapshotResponseRaw string "raw_document_record list"
  | SchemaCatalogRequest string "bool option" "string list option" "schema_kind list option"
  | SchemaCatalogResponse string "schema_descriptor list"

section \<open>Validation\<close>

datatype contract_error =
    FieldEmpty string
  | NoOperations string
  | EmptyPayload
  | NoWireContracts
  | WrongType string
  | Unsupported string
  | NotInContract
  | Base64Error string
  | SerdeError string

type_synonym 'a contract_result = "contract_error + 'a"

definition require_non_empty :: "string \<Rightarrow> string \<Rightarrow> unit contract_result" where
  "require_non_empty value field = (if trim_is_empty value then Err (FieldEmpty field) else Ok ())"

definition require_optional_non_empty :: "string option \<Rightarrow> string \<Rightarrow> unit contract_result" where
  "require_optional_non_empty value field =
     (case value of Some v \<Rightarrow> require_non_empty v field | None \<Rightarrow> Ok ())"

definition require_optional_string_vec :: "string list option \<Rightarrow> string \<Rightarrow> unit contract_result" where
  "require_optional_string_vec value field =
     (case value of
        Some values \<Rightarrow> check_all (map (\<lambda>item. require_non_empty item field) values)
      | None \<Rightarrow> Ok ())"

definition validate_mutation_contract :: "mutation_contract \<Rightarrow> unit contract_result" where
  "validate_mutation_contract c = check_all
     [require_non_empty (mc_document_type c) ''documentType'',
      require_optional_non_empty (mc_payload_schema_version c) ''payloadSchemaVersion'',
      if mc_operations c = [] then Err (NoOperations (mc_document_type c)) else Ok (),
      require_optional_string_vec (mc_intent_document_types c) ''intentDocumentTypes'',
      require_optional_string_vec (mc_receipt_document_types c) ''receiptDocumentTypes'',
      require_optional_string_vec (mc_notes c) ''notes'']"

definition validate_document_record :: "'j document_record \<Rightarrow> unit contract_result" where
  "validate_document_record d = check_all
     [require_non_empty (dr_schema_id d) ''schemaId'',
      require_non_empty (dr_record_key d) ''recordKey'',
      require_non_empty (dr_stored_at d) ''storedAt'',
      require_optional_non_empty (dr_source_runtime_id d) ''sourceRuntimeId'',
      require_optional_non_empty (dr_source_agent_id d) ''sourceAgentId'',
      require_optional_non_empty (dr_source_role d) ''sourceRole'',
      require_optional_string_vec (dr_tags d) ''tags'']"

definition validate_raw_document_record :: "raw_document_record \<Rightarrow> unit contract_result" where
  "validate_raw_document_record d = check_all
     [require_non_empty (rd_schema_id d) ''schemaId'',
      require_non_empty (rd_record_key d) ''recordKey'',
      require_non_empty (rd_stored_at d) ''storedAt'',
      if rd_payload d = [] then Err EmptyPayload else Ok (),
      require_optional_non_empty (rd_source_runtime_id d) ''sourceRuntimeId'',
      require_optional_non_empty (rd_source_agent_id d) ''sourceAgentId'',
      require_optional_non_empty (rd_source_role d) ''sourceRole'',
      require_optional_string_vec (rd_tags d) ''tags'']"

definition validate_schema_descriptor :: "schema_descriptor \<Rightarrow> unit contract_result" where
  "validate_schema_descriptor d = check_all
     [require_non_empty (sd_schema_id d) ''schemaId'',
      require_optional_non_empty (sd_schema_version d) ''schemaVersion'',
      require_optional_non_empty (sd_document_type d) ''documentType'',
      require_optional_non_empty (sd_title d) ''title'',
      require_non_empty (sd_content_hash d) ''contentHash'',
      require_optional_non_empty (sd_schema_json d) ''schemaJson'',
      if sd_wire_contracts d = [] then Err NoWireContracts else Ok ()]"

fun validate_message :: "'j cultnet_message \<Rightarrow> unit contract_result" where
  "validate_message (Hello h) = check_all
     [require_non_empty (h_runtime_id h) ''runtimeId'',
      require_non_empty (h_runtime_kind h) ''runtimeKind'',
      require_optional_non_empty (h_agent_id h) ''agentId'',
      require_optional_non_empty (h_role h) ''role'',
      require_optional_non_empty (h_display_name h) ''displayName'',
      require_optional_string_vec (h_supported_document_types h) ''supportedDocumentTypes'',
      (case h_supported_mutation_contracts h of
         Some contracts \<Rightarrow> check_all (map validate_mutation_contract contracts) | None \<Rightarrow> Ok ()),
      require_optional_string_vec (h_supported_message_versions h) ''supportedMessageVersions'']"
| "validate_message (Login nonce auth password) = check_all
     [require_non_empty nonce ''nonce'', require_non_empty auth ''auth'', require_non_empty password ''password'']"
| "validate_message (Register nonce email password name) = check_all
     [require_non_empty nonce ''nonce'', require_non_empty email ''email'',
      require_non_empty password ''password'', require_non_empty name ''name'']"
| "validate_message (Verify nonce session) = check_all
     [require_non_empty nonce ''nonce'', require_non_empty session ''session'']"
| "validate_message (LoginSuccess nonce session) = check_all
     [require_non_empty nonce ''nonce'', require_non_empty session ''session'']"
| "validate_message (Error error) = require_non_empty error ''error''"
| "validate_message (SampleChangeName name) = require_non_empty name ''name''"
| "validate_message (SampleChat text) = require_non_empty text ''text''"
| "validate_message (DocumentPut message_id document) = check_all
     [require_non_empty message_id ''messageId'', validate_document_record document]"
| "validate_message (DocumentDelete message_id schema_id record_key) = check_all
     [require_non_empty message_id ''messageId'', require_non_empty schema_id ''schemaId'',
      require_non_empty record_key ''recordKey'']"
| "validate_message (DocumentPutRaw message_id document) = check_all
     [require_non_empty message_id ''messageId'', validate_raw_document_record document]"
| "validate_message (SnapshotRequest message_id schema_ids record_keys) = check_all
     [require_non_empty message_id ''messageId'', require_optional_string_vec schema_ids ''schemaIds'',
      require_optional_string_vec record_keys ''recordKeys'']"
| "validate_message (SnapshotResponse message_id documents) = check_all
     [require_non_empty message_id ''messageId'', check_all (map validate_document_record documents)]"
| "validate_message (SnapshotResponseRaw message_id documents) = check_all
     [require_non_empty message_id ''messageId'', check_all (map validate_raw_document_record documents)]"
| "validate_message (SchemaCatalogRequest message_id include_schema_json schema_ids kinds) = check_all
     [require_non_empty message_id ''messageId'', require_optional_string_vec schema_ids ''schemaIds'']"
| "validate_message (SchemaCatalogResponse message_id schemas) = check_all
     [require_non_empty message_id ''messageId'', check_all (map validate_schema_descriptor schemas)]"

section \<open>What a valid message is\<close>

text \<open>
  The rule behind the checks, without their order or messages: every string of the message
  that names something has a visible character, and the lists and byte strings that carry
  its meaning are not empty. Free text inside a transport profile is not covered.
\<close>

abbreviation opt_strings :: "string option \<Rightarrow> string list" where
  "opt_strings v \<equiv> (case v of None \<Rightarrow> [] | Some s \<Rightarrow> [s])"

abbreviation opt_string_lists :: "string list option \<Rightarrow> string list" where
  "opt_string_lists v \<equiv> (case v of None \<Rightarrow> [] | Some ss \<Rightarrow> ss)"

definition mutation_contract_strings :: "mutation_contract \<Rightarrow> string list" where
  "mutation_contract_strings c = mc_document_type c # opt_strings (mc_payload_schema_version c)
     @ opt_string_lists (mc_intent_document_types c) @ opt_string_lists (mc_receipt_document_types c)
     @ opt_string_lists (mc_notes c)"

definition document_strings :: "'j document_record \<Rightarrow> string list" where
  "document_strings d = [dr_schema_id d, dr_record_key d, dr_stored_at d]
     @ opt_strings (dr_source_runtime_id d) @ opt_strings (dr_source_agent_id d)
     @ opt_strings (dr_source_role d) @ opt_string_lists (dr_tags d)"

definition raw_document_strings :: "raw_document_record \<Rightarrow> string list" where
  "raw_document_strings d = [rd_schema_id d, rd_record_key d, rd_stored_at d]
     @ opt_strings (rd_source_runtime_id d) @ opt_strings (rd_source_agent_id d)
     @ opt_strings (rd_source_role d) @ opt_string_lists (rd_tags d)"

definition descriptor_strings :: "schema_descriptor \<Rightarrow> string list" where
  "descriptor_strings d = [sd_schema_id d, sd_content_hash d] @ opt_strings (sd_schema_version d)
     @ opt_strings (sd_document_type d) @ opt_strings (sd_title d) @ opt_strings (sd_schema_json d)"

definition hello_contracts :: "hello \<Rightarrow> mutation_contract list" where
  "hello_contracts h = (case h_supported_mutation_contracts h of None \<Rightarrow> [] | Some cs \<Rightarrow> cs)"

fun message_strings :: "'j cultnet_message \<Rightarrow> string list" where
  "message_strings (Hello h) = [h_runtime_id h, h_runtime_kind h] @ opt_strings (h_agent_id h)
     @ opt_strings (h_role h) @ opt_strings (h_display_name h)
     @ opt_string_lists (h_supported_document_types h)
     @ concat (map mutation_contract_strings (hello_contracts h))
     @ opt_string_lists (h_supported_message_versions h)"
| "message_strings (Login a b c) = [a, b, c]"
| "message_strings (Register a b c d) = [a, b, c, d]"
| "message_strings (Verify a b) = [a, b]"
| "message_strings (LoginSuccess a b) = [a, b]"
| "message_strings (Error a) = [a]"
| "message_strings (SampleChangeName a) = [a]"
| "message_strings (SampleChat a) = [a]"
| "message_strings (DocumentPut mid d) = mid # document_strings d"
| "message_strings (DocumentDelete mid sid key) = [mid, sid, key]"
| "message_strings (DocumentPutRaw mid d) = mid # raw_document_strings d"
| "message_strings (SnapshotRequest mid sids keys) = mid # opt_string_lists sids @ opt_string_lists keys"
| "message_strings (SnapshotResponse mid ds) = mid # concat (map document_strings ds)"
| "message_strings (SnapshotResponseRaw mid ds) = mid # concat (map raw_document_strings ds)"
| "message_strings (SchemaCatalogRequest mid j sids ks) = mid # opt_string_lists sids"
| "message_strings (SchemaCatalogResponse mid ds) = mid # concat (map descriptor_strings ds)"

fun message_lists_ok :: "'j cultnet_message \<Rightarrow> bool" where
  "message_lists_ok (Hello h) = list_all (\<lambda>c. mc_operations c \<noteq> []) (hello_contracts h)"
| "message_lists_ok (DocumentPutRaw mid d) = (rd_payload d \<noteq> [])"
| "message_lists_ok (SnapshotResponseRaw mid ds) = list_all (\<lambda>d. rd_payload d \<noteq> []) ds"
| "message_lists_ok (SchemaCatalogResponse mid ds) = list_all (\<lambda>d. sd_wire_contracts d \<noteq> []) ds"
| "message_lists_ok _ = True"

definition named :: "string \<Rightarrow> bool" where
  "named s \<longleftrightarrow> \<not> trim_is_empty s"

lemma require_ok [simp]:
  "require_non_empty v f = Inr u \<longleftrightarrow> named v"
  "require_optional_non_empty ov f = Inr u \<longleftrightarrow> list_all named (opt_strings ov)"
  "require_optional_string_vec vs f = Inr u \<longleftrightarrow> list_all named (opt_string_lists vs)"
  by (auto simp: require_non_empty_def require_optional_non_empty_def require_optional_string_vec_def
      named_def check_all_ok_iff list_all_iff split: option.splits)

lemma validate_parts_ok:
  "validate_mutation_contract c = Inr () \<longleftrightarrow> list_all named (mutation_contract_strings c) \<and> mc_operations c \<noteq> []"
  "validate_document_record d = Inr () \<longleftrightarrow> list_all named (document_strings d)"
  "validate_raw_document_record r = Inr () \<longleftrightarrow> list_all named (raw_document_strings r) \<and> rd_payload r \<noteq> []"
  "validate_schema_descriptor sd = Inr () \<longleftrightarrow> list_all named (descriptor_strings sd) \<and> sd_wire_contracts sd \<noteq> []"
  by (simp_all add: validate_mutation_contract_def validate_document_record_def validate_raw_document_record_def
      validate_schema_descriptor_def mutation_contract_strings_def document_strings_def
      raw_document_strings_def descriptor_strings_def conj_ac)

lemma unit_result: "(r :: 'e + unit) = Inr u \<longleftrightarrow> r = Inr ()"
  by simp

lemma check_all_map_ok: "check_all (map f xs) = Inr u \<longleftrightarrow> list_all (\<lambda>x. f x = Inr ()) xs"
  by (auto simp: check_all_ok_iff list_all_iff)

lemma list_all_concat_map: "list_all P (concat (map f xs)) \<longleftrightarrow> list_all (\<lambda>x. list_all P (f x)) xs"
  by (auto simp: list_all_iff)

lemma list_all_conj: "list_all (\<lambda>x. P x \<and> Q x) xs \<longleftrightarrow> list_all P xs \<and> list_all Q xs"
  by (auto simp: list_all_iff)


end
