(* ===== verification/Transport.thy ===== *)
theory Transport
  imports Framing Contracts
begin

text \<open>
  \<open>src/transport.rs\<close>: the reconnect policy and its back-off delay, the advertised profile of the
  framed TCP transport, and the framed connection itself over any byte stream. The stream
  (\<open>std::io::Read\<close> and \<open>Write\<close> of the caller's type) is the parameter \<open>stream_ops\<close>; the
  properties assume of it what the traits document (\<open>stream_laws\<close>). The traffic counters are
  64 bits wide.
\<close>

section \<open>Statistics and frames\<close>

record transport_stats =
  bytes_received :: u64
  bytes_sent :: u64
  frames_received :: u64
  frames_sent :: u64
  stats_reliable_packets_expired :: u64

definition default_stats :: transport_stats where
  "default_stats = \<lparr> bytes_received = 0, bytes_sent = 0, frames_received = 0, frames_sent = 0,
     stats_reliable_packets_expired = 0 \<rparr>"

record transport_frame =
  tf_channel_id :: string
  tf_payload :: bytes

section \<open>Reconnecting\<close>

record reconnect_policy =
  rp_schema_version :: string
  rp_policy_id :: string
  rp_base_delay_ms :: u64
  rp_max_delay_ms :: u64
  rp_max_jitter_ms :: u64
  rp_max_attempts :: "u32 option"

record reconnect_policy_options =
  ro_policy_id :: string
  ro_base_delay_ms :: u64
  ro_max_delay_ms :: u64
  ro_max_jitter_ms :: u64
  ro_max_attempts :: "u32 option"

definition default_reconnect_policy_options :: reconnect_policy_options where
  "default_reconnect_policy_options = \<lparr> ro_policy_id = ''default'', ro_base_delay_ms = 1000,
     ro_max_delay_ms = 30000, ro_max_jitter_ms = 250, ro_max_attempts = None \<rparr>"

definition create_reconnect_policy :: "reconnect_policy_options \<Rightarrow> reconnect_policy" where
  "create_reconnect_policy opts = \<lparr>
     rp_schema_version = ''cultnet.reconnect_policy.v0'',
     rp_policy_id = (if trim_is_empty (ro_policy_id opts) then ''default'' else ro_policy_id opts),
     rp_base_delay_ms = ro_base_delay_ms opts, rp_max_delay_ms = ro_max_delay_ms opts,
     rp_max_jitter_ms = ro_max_jitter_ms opts, rp_max_attempts = ro_max_attempts opts \<rparr>"

text \<open>\<open>None\<close> is the panic of the final \<open>+\<close> in a build with overflow checks.\<close>

definition compute_reconnect_delay_ms :: "bool \<Rightarrow> reconnect_policy \<Rightarrow> u32 \<Rightarrow> u64 \<Rightarrow> u64 option" where
  "compute_reconnect_delay_ms oc policy attempt jitter_ms =
     (let normalized_attempt = max attempt 1;
          multiplier = saturating_pow (2 :: u64) (unat (saturating_sub normalized_attempt 1));
          capped_base_delay = min (saturating_mul (rp_base_delay_ms policy) multiplier) (rp_max_delay_ms policy)
      in rust_add oc capped_base_delay (min jitter_ms (rp_max_jitter_ms policy)))"

section \<open>The framed TCP transport\<close>

record tcp_profile_options =
  tpo_transport_id :: "string option"
  tpo_host :: "string option"
  tpo_port :: "u16 option"
  tpo_max_payload_bytes :: "u32 option"
  tpo_max_fragment_bytes :: "u32 option"

definition create_tcp_framed_transport_profile :: "string \<Rightarrow> tcp_profile_options \<Rightarrow> transport_profile" where
  "create_tcp_framed_transport_profile runtime_id opts = \<lparr>
     tp_schema_version = ''cultnet.transport_profile.v0'',
     tp_runtime_id = runtime_id,
     tp_transports = [\<lparr>
       td_transport_id = (case tpo_transport_id opts of None \<Rightarrow> ''tcp-framed'' | Some i \<Rightarrow> i),
       td_protocol = TcpFramed, td_host = tpo_host opts, td_port = tpo_port opts, td_path = None,
       td_discovery_group = None, td_wire_contracts = Some [''cultnet.schema.v0''],
       td_channels = [\<lparr> tc_channel_id = ''schema'', tc_delivery = Reliable, tc_ordering = Ordered,
         tc_max_payload_bytes = tpo_max_payload_bytes opts,
         tc_max_fragment_bytes = tpo_max_fragment_bytes opts,
         tc_max_pending_reliable_packets = None, tc_reliable_expire_after_ms = None \<rparr>] \<rparr>] \<rparr>"

text \<open>\<open>write_all\<close>, \<open>flush\<close> and \<open>read_exact\<close> of the stream type.\<close>

record 's stream_ops =
  s_write_all :: "bytes \<Rightarrow> 's \<Rightarrow> (string + unit) \<times> 's"
  s_flush :: "'s \<Rightarrow> (string + unit) \<times> 's"
  s_read_exact :: "nat \<Rightarrow> 's \<Rightarrow> (string + bytes) \<times> 's"

datatype tcp_error = OnlySchemaChannel string | TcpFrameError frame_error | TcpIoError string

record 's tcp_connection =
  tcp_stream :: 's
  tcp_profile :: transport_profile
  tcp_stats :: transport_stats

definition tcp_new :: "'s \<Rightarrow> transport_profile \<Rightarrow> 's tcp_connection" where
  "tcp_new stream profile = \<lparr> tcp_stream = stream, tcp_profile = profile, tcp_stats = default_stats \<rparr>"

definition tcp_send ::
  "'s stream_ops \<Rightarrow> string \<Rightarrow> bytes \<Rightarrow> 's tcp_connection \<Rightarrow> (tcp_error + unit) \<times> 's tcp_connection" where
  "tcp_send ops channel_id payload c =
     (if channel_id \<noteq> ''schema'' then (Err (OnlySchemaChannel channel_id), c)
      else case encode_frame payload of
        Inl e \<Rightarrow> (Err (TcpFrameError e), c)
      | Inr frame \<Rightarrow>
        (case s_write_all ops frame (tcp_stream c) of
           (Inl e, st) \<Rightarrow> (Err (TcpIoError e), c\<lparr>tcp_stream := st\<rparr>)
         | (Inr _, st) \<Rightarrow>
           (case s_flush ops st of
              (Inl e, st') \<Rightarrow> (Err (TcpIoError e), c\<lparr>tcp_stream := st'\<rparr>)
            | (Inr _, st') \<Rightarrow>
              (Ok (), c\<lparr>tcp_stream := st', tcp_stats := (tcp_stats c)
                 \<lparr>bytes_sent := bytes_sent (tcp_stats c) + of_nat (length frame),
                  frames_sent := frames_sent (tcp_stats c) + 1\<rparr>\<rparr>))))"

definition tcp_receive ::
  "'s stream_ops \<Rightarrow> 's tcp_connection \<Rightarrow> (tcp_error + transport_frame) \<times> 's tcp_connection" where
  "tcp_receive ops c =
     (case s_read_exact ops FRAME_HEADER_BYTES (tcp_stream c) of
        (Inl e, st) \<Rightarrow> (Err (TcpIoError e), c\<lparr>tcp_stream := st\<rparr>)
      | (Inr header, st) \<Rightarrow>
        (let payload_len = unat (u32_from_be header) in
         case s_read_exact ops payload_len st of
           (Inl e, st') \<Rightarrow> (Err (TcpIoError e), c\<lparr>tcp_stream := st'\<rparr>)
         | (Inr payload, st') \<Rightarrow>
           (Ok \<lparr> tf_channel_id = ''schema'', tf_payload = payload \<rparr>,
            c\<lparr>tcp_stream := st', tcp_stats := (tcp_stats c)
               \<lparr>bytes_received := bytes_received (tcp_stats c) + of_nat (FRAME_HEADER_BYTES + payload_len),
                frames_received := frames_received (tcp_stats c) + 1\<rparr>\<rparr>)))"

section \<open>The back-off delay\<close>

lemma unat_saturating_pow:
  "unat (saturating_pow a n) = min (2 ^ LENGTH('a) - 1) (unat (a :: 'a::len word) ^ n)"
proof -
  have "unat (a ^ n) = unat a ^ n mod 2 ^ LENGTH('a)"
    by (induction n) (simp_all add: unat_word_ariths mod_mult_right_eq)
  then show ?thesis
    by (auto simp: saturating_pow_def not_le unat_max_word)
qed

lemma min_saturated:
  fixes b k m c :: nat
  assumes "m \<le> c"
  shows "min (min c (b * min c k)) m = min (b * k) m"
proof (cases "k \<le> c")
  case True
  with assms show ?thesis by simp
next
  case False
  then have "min c k = c" by simp
  moreover have "min c (b * c) = c" "min (b * k) m = m" if "b \<noteq> 0"
  proof -
    have "1 * c \<le> b * c" by (rule mult_le_mono1) (use that in simp)
    then show "min c (b * c) = c" by simp
    have "1 * k \<le> b * k" by (rule mult_le_mono1) (use that in simp)
    with False assms have "m \<le> b * k" by linarith
    then show "min (b * k) m = m" by simp
  qed
  ultimately show ?thesis using assms by (cases "b = 0") auto
qed

definition reconnect_delay :: "reconnect_policy \<Rightarrow> nat \<Rightarrow> nat \<Rightarrow> nat" where
  "reconnect_delay policy attempt jitter =
     min (unat (rp_base_delay_ms policy) * 2 ^ (attempt - 1)) (unat (rp_max_delay_ms policy))
     + min jitter (unat (rp_max_jitter_ms policy))"

lemma unat_min: "unat (min a b) = min (unat a) (unat (b :: 'a::len word))"
  by (simp add: min_def word_le_nat_alt)

lemma unat_max: "unat (max a b) = max (unat a) (unat (b :: 'a::len word))"
  by (simp add: max_def word_le_nat_alt)

text \<open>C33.
  The saturating arithmetic of the back-off computes the exact exponential delay
  \<open>min (base * 2^(attempt-1)) max + min jitter max_jitter\<close> for every 32-bit attempt number (0
  counts as 1), however large the power is; only the last sum is unprotected: where it reaches
  2^64 a build with overflow checks panics and a release build wraps around.\<close>

theorem reconnect_delay_exact:
  "compute_reconnect_delay_ms oc policy attempt jitter =
     (let d = reconnect_delay policy (unat attempt) (unat jitter)
      in if oc \<and> 2 ^ 64 \<le> d then None else Some (of_nat d))"
proof -
  let ?k = "unat (saturating_sub (max attempt 1) 1)"
  let ?capped = "min (saturating_mul (rp_base_delay_ms policy) (saturating_pow 2 ?k)) (rp_max_delay_ms policy)"
  have k: "?k = unat attempt - 1"
    by (simp add: unat_saturating_sub unat_max)
  have bound: "unat (rp_max_delay_ms policy) \<le> 2 ^ 64 - 1"
    using unat_less_exp [of "rp_max_delay_ms policy"] by simp
  have "unat ?capped = min (min (2 ^ 64 - 1) (unat (rp_base_delay_ms policy) * min (2 ^ 64 - 1) (2 ^ (unat attempt - 1))))
      (unat (rp_max_delay_ms policy))"
    unfolding unat_min unat_saturating_mul unat_saturating_pow k by simp
  then have capped: "unat ?capped = min (unat (rp_base_delay_ms policy) * 2 ^ (unat attempt - 1)) (unat (rp_max_delay_ms policy))"
    by (simp only: min_saturated [OF bound])
  have sum: "unat ?capped + unat (min jitter (rp_max_jitter_ms policy)) = reconnect_delay policy (unat attempt) (unat jitter)"
    by (simp only: capped reconnect_delay_def unat_min [of jitter])
  have "?capped + min jitter (rp_max_jitter_ms policy) = of_nat (reconnect_delay policy (unat attempt) (unat jitter))"
    by (simp flip: sum)
  then show ?thesis
    using sum by (simp add: compute_reconnect_delay_ms_def rust_add_def Let_def)
qed

section \<open>The connection as a queue\<close>

text \<open>
  The documented behaviour of a stream whose two ends are joined, with the bytes on their way as
  \<open>pending\<close>: writing appends all bytes, reading takes them from the front once enough are there.
\<close>

definition stream_laws :: "'s stream_ops \<Rightarrow> ('s \<Rightarrow> bytes) \<Rightarrow> bool" where
  "stream_laws ops pending \<longleftrightarrow>
     (\<forall>b s. fst (s_write_all ops b s) = Inr () \<and> pending (snd (s_write_all ops b s)) = pending s @ b)
     \<and> (\<forall>s. fst (s_flush ops s) = Inr () \<and> pending (snd (s_flush ops s)) = pending s)
     \<and> (\<forall>n s. n \<le> length (pending s) \<longrightarrow>
          fst (s_read_exact ops n s) = Inr (take n (pending s)) \<and> pending (snd (s_read_exact ops n s)) = drop n (pending s))"

datatype tcp_op = TcpSend string bytes | TcpReceive

datatype tcp_out = Sent "tcp_error + unit" | Received "tcp_error + transport_frame"

fun tcp_step :: "'s stream_ops \<Rightarrow> tcp_op \<Rightarrow> 's tcp_connection \<Rightarrow> tcp_out \<times> 's tcp_connection" where
  "tcp_step ops (TcpSend channel_id payload) c = map_prod Sent id (tcp_send ops channel_id payload c)"
| "tcp_step ops TcpReceive c = map_prod Received id (tcp_receive ops c)"

text \<open>The abstract transport: a queue of payloads.\<close>

fun queue_step :: "tcp_op \<Rightarrow> bytes list \<Rightarrow> tcp_out \<times> bytes list" where
  "queue_step (TcpSend channel_id payload) q =
     (if channel_id \<noteq> ''schema'' then (Sent (Err (OnlySchemaChannel channel_id)), q)
      else if 2 ^ 32 \<le> length payload then (Sent (Err (TcpFrameError FramePayloadTooLarge)), q)
      else (Sent (Ok ()), q @ [payload]))"
| "queue_step TcpReceive (payload # q) =
     (Received (Ok \<lparr> tf_channel_id = ''schema'', tf_payload = payload \<rparr>), q)"
| "queue_step TcpReceive [] = (Received (Err (TcpIoError ''waiting'')), [])"

fun never_waits :: "tcp_op list \<Rightarrow> bytes list \<Rightarrow> bool" where
  "never_waits [] q = True"
| "never_waits (op # ops) q = ((op = TcpReceive \<longrightarrow> q \<noteq> []) \<and> never_waits ops (snd (queue_step op q)))"

definition carries :: "('s \<Rightarrow> bytes) \<Rightarrow> bytes list \<Rightarrow> 's tcp_connection \<Rightarrow> bool" where
  "carries pending q c \<longleftrightarrow> pending (tcp_stream c) = concat (map frame_bytes q)
     \<and> list_all (\<lambda>p. length p < 2 ^ 32) q
     \<and> bytes_sent (tcp_stats c) = bytes_received (tcp_stats c) + of_nat (length (pending (tcp_stream c)))
     \<and> frames_sent (tcp_stats c) = frames_received (tcp_stats c) + of_nat (length q)"

lemma stream_lawsD:
  assumes "stream_laws ops pending"
  shows "\<exists>s'. s_write_all ops b s = (Inr (), s') \<and> pending s' = pending s @ b"
    "\<exists>s'. s_flush ops s = (Inr (), s') \<and> pending s' = pending s"
    "n \<le> length (pending s) \<Longrightarrow>
       \<exists>s'. s_read_exact ops n s = (Inr (take n (pending s)), s') \<and> pending s' = drop n (pending s)"
  using assms by (auto simp: stream_laws_def prod_eq_iff)

lemma tcp_send_carries:
  assumes "stream_laws ops pending" "carries pending q c"
  shows "fst (tcp_step ops (TcpSend ch p) c) = fst (queue_step (TcpSend ch p) q)"
    "carries pending (snd (queue_step (TcpSend ch p) q)) (snd (tcp_step ops (TcpSend ch p) c))"
proof -
  let ?f = "frame_bytes p"
  obtain s1 where s1: "s_write_all ops ?f (tcp_stream c) = (Inr (), s1)" "pending s1 = pending (tcp_stream c) @ ?f"
    using stream_lawsD(1) [OF assms(1)] by blast
  obtain s2 where s2: "s_flush ops s1 = (Inr (), s2)" "pending s2 = pending s1"
    using stream_lawsD(2) [OF assms(1)] by blast
  have enc: "encode_frame p = (if 2 ^ 32 \<le> length p then Inl FramePayloadTooLarge else Inr ?f)"
    by (simp add: encode_frame_def frame_bytes_def)
  show "fst (tcp_step ops (TcpSend ch p) c) = fst (queue_step (TcpSend ch p) q)"
    by (simp add: tcp_send_def enc s1 s2)
  show "carries pending (snd (queue_step (TcpSend ch p) q)) (snd (tcp_step ops (TcpSend ch p) c))"
    using assms(2) by (simp add: tcp_send_def enc s1 s2 carries_def not_le algebra_simps)
qed

lemma tcp_receive_carries:
  assumes "stream_laws ops pending" "carries pending (p # q) c"
  shows "fst (tcp_step ops TcpReceive c) = fst (queue_step TcpReceive (p # q))"
    "carries pending q (snd (tcp_step ops TcpReceive c))"
proof -
  have len: "length p < 2 ^ 32" and pend: "pending (tcp_stream c) = u32_to_be (of_nat (length p)) @ p @ concat (map frame_bytes q)"
    using assms(2) by (simp_all add: carries_def frame_bytes_def)
  obtain s1 where s1: "s_read_exact ops 4 (tcp_stream c) = (Inr (u32_to_be (of_nat (length p))), s1)"
      "pending s1 = p @ concat (map frame_bytes q)"
    using stream_lawsD(3) [OF assms(1), of 4 "tcp_stream c"] by (auto simp: pend)
  obtain s2 where s2: "s_read_exact ops (length p) s1 = (Inr p, s2)" "pending s2 = concat (map frame_bytes q)"
    using stream_lawsD(3) [OF assms(1), of "length p" s1] by (auto simp: s1)
  have n: "unat (of_nat (length p) :: u32) = length p" using len by (rule unat_of_nat_u32)
  show "fst (tcp_step ops TcpReceive c) = fst (queue_step TcpReceive (p # q))"
    by (simp add: tcp_receive_def FRAME_HEADER_BYTES_def s1 s2 n)
  show "carries pending q (snd (tcp_step ops TcpReceive c))"
    using assms(2) by (simp add: tcp_receive_def FRAME_HEADER_BYTES_def s1 s2 n carries_def algebra_simps frame_bytes_def)
qed

text \<open>C22.
  Over a stream that keeps its bytes, the framed TCP connection refines a queue of payloads: any
  sequence of sends and receives that never reads an empty queue produces exactly the outputs of
  the queue (wrong channels and payloads of 2^32 bytes or more are refused without touching the
  stream, every other payload comes out once, whole and in order), and at every point the
  counters differ by what is still on its way.\<close>

theorem tcp_refines_queue:
  assumes "stream_laws ops pending" "carries pending q c" "never_waits calls q"
  shows "fst (run_ops (tcp_step ops) calls c) = fst (run_ops queue_step calls q)
    \<and> carries pending (snd (run_ops queue_step calls q)) (snd (run_ops (tcp_step ops) calls c))"
  using assms(2,3)
proof (induction calls arbitrary: q c)
  case Nil
  then show ?case by simp
next
  case (Cons call calls)
  have "fst (tcp_step ops call c) = fst (queue_step call q)
    \<and> carries pending (snd (queue_step call q)) (snd (tcp_step ops call c))"
  proof (cases call)
    case (TcpSend ch p)
    then show ?thesis using tcp_send_carries [OF assms(1) Cons.prems(1)] by simp
  next
    case TcpReceive
    with Cons.prems obtain p r where "q = p # r" by (cases q) auto
    with TcpReceive show ?thesis using tcp_receive_carries [OF assms(1), of p r c] Cons.prems by simp
  qed
  moreover have "never_waits calls (snd (queue_step call q))" using Cons.prems by simp
  ultimately show ?case using Cons.IH by (simp add: split_beta Let_def)
qed

text \<open>An in-memory pipe.\<close>

definition pipe_ops :: "bytes stream_ops" where
  "pipe_ops = \<lparr> s_write_all = (\<lambda>b s. (Inr (), s @ b)), s_flush = (\<lambda>s. (Inr (), s)),
     s_read_exact = (\<lambda>n s. if n \<le> length s then (Inr (take n s), drop n s)
                           else (Inl ''unexpected end of file'', s)) \<rparr>"

lemma pipe_laws: "stream_laws pipe_ops id"
  by (auto simp: stream_laws_def pipe_ops_def)

definition sample_connection :: "bytes tcp_connection" where
  "sample_connection = tcp_new [] (create_tcp_framed_transport_profile ''r1''
     \<lparr> tpo_transport_id = None, tpo_host = None, tpo_port = Some 9000,
       tpo_max_payload_bytes = None, tpo_max_fragment_bytes = None \<rparr>)"

lemma tcp_refines_queue_witness:
  "fst (run_ops (tcp_step pipe_ops) [TcpSend ''schema'' [1, 2], TcpSend ''media'' [9], TcpSend ''schema'' [], TcpReceive, TcpReceive]
     sample_connection)
   = [Sent (Ok ()), Sent (Err (OnlySchemaChannel ''media'')), Sent (Ok ()),
      Received (Ok \<lparr> tf_channel_id = ''schema'', tf_payload = [1, 2] \<rparr>),
      Received (Ok \<lparr> tf_channel_id = ''schema'', tf_payload = [] \<rparr>)]"
proof -
  let ?calls = "[TcpSend ''schema'' [1, 2], TcpSend ''media'' [9], TcpSend ''schema'' [], TcpReceive, TcpReceive]"
  have "carries id [] sample_connection"
    by (simp add: carries_def sample_connection_def tcp_new_def default_stats_def)
  moreover have "never_waits ?calls []" by simp
  ultimately show ?thesis
    using tcp_refines_queue [OF pipe_laws, of "[]" sample_connection ?calls] by simp
qed

end
