(* ===== verification/RudpSocket.thy ===== *)
theory RudpSocket
  imports RudpOrdered Transport
begin

text \<open>
  The UDP transport around a session, \<open>CultNetRudpSocketTransportConnection\<close> of
  \<open>src/rudp.rs\<close>, with its options and its advertised profile. The operating system enters as
  arguments: \<open>net n wire addr\<close> is what the \<open>n\<close>-th \<open>send_to\<close> answers (the bytes sent, or None
  for an error), an \<open>incoming\<close> is what \<open>recv_from\<close> answers, and \<open>now_ms\<close> is passed in. Two
  fields of the model record what the OS sees: the number of \<open>send_to\<close> calls and the datagrams
  sent. The trace output and the one-millisecond pauses between bursts are left out; the
  traffic counters are 64 bits wide. Socket addresses are any type \<open>'a\<close>.
\<close>

section \<open>Options and profile\<close>

definition DEFAULT_MEDIA_RELIABLE_EXPIRE_AFTER_MS :: u64 where
  "DEFAULT_MEDIA_RELIABLE_EXPIRE_AFTER_MS = 75"

datatype socket_mode = Client | Server

record 'a socket_options =
  opt_runtime_id :: string
  opt_mode :: socket_mode
  opt_remote_addr :: "'a option"
  opt_connection_id :: u32
  opt_initial_sequence :: u32
  opt_resend_delay_ms :: u64
  opt_transport_id :: "string option"
  opt_max_payload_bytes :: "u32 option"
  opt_max_fragment_bytes :: "u32 option"
  opt_max_pending_reliable_packets :: "u32 option"
  opt_media_reliable_expire_after_ms :: "u64 option"

definition client_options :: "string \<Rightarrow> 'a \<Rightarrow> u32 \<Rightarrow> 'a socket_options" where
  "client_options runtime_id remote_addr conn_id = \<lparr>
     opt_runtime_id = runtime_id, opt_mode = Client, opt_remote_addr = Some remote_addr,
     opt_connection_id = conn_id, opt_initial_sequence = 1, opt_resend_delay_ms = 250,
     opt_transport_id = None, opt_max_payload_bytes = None, opt_max_fragment_bytes = None,
     opt_max_pending_reliable_packets = None,
     opt_media_reliable_expire_after_ms = Some DEFAULT_MEDIA_RELIABLE_EXPIRE_AFTER_MS \<rparr>"

definition server_options :: "string \<Rightarrow> u32 \<Rightarrow> 'a socket_options" where
  "server_options runtime_id conn_id = \<lparr>
     opt_runtime_id = runtime_id, opt_mode = Server, opt_remote_addr = None,
     opt_connection_id = conn_id, opt_initial_sequence = 1, opt_resend_delay_ms = 250,
     opt_transport_id = None, opt_max_payload_bytes = None, opt_max_fragment_bytes = None,
     opt_max_pending_reliable_packets = None,
     opt_media_reliable_expire_after_ms = Some DEFAULT_MEDIA_RELIABLE_EXPIRE_AFTER_MS \<rparr>"

record rudp_profile_options =
  rpo_transport_id :: "string option"
  rpo_host :: "string option"
  rpo_port :: "u16 option"
  rpo_max_payload_bytes :: "u32 option"
  rpo_max_fragment_bytes :: "u32 option"
  rpo_max_pending_reliable_packets :: "u32 option"
  rpo_media_reliable_expire_after_ms :: "u64 option"

definition rudp_channel ::
  "string \<Rightarrow> transport_delivery \<Rightarrow> transport_ordering \<Rightarrow> u64 option \<Rightarrow> rudp_profile_options \<Rightarrow> transport_channel" where
  "rudp_channel chan delivery order expire opts = \<lparr>
     tc_channel_id = chan, tc_delivery = delivery, tc_ordering = order,
     tc_max_payload_bytes = rpo_max_payload_bytes opts,
     tc_max_fragment_bytes = rpo_max_fragment_bytes opts,
     tc_max_pending_reliable_packets = rpo_max_pending_reliable_packets opts,
     tc_reliable_expire_after_ms = expire \<rparr>"

definition create_rudp_transport_profile :: "string \<Rightarrow> rudp_profile_options \<Rightarrow> transport_profile" where
  "create_rudp_transport_profile runtime_id opts = \<lparr>
     tp_schema_version = ''cultnet.transport_profile.v0'',
     tp_runtime_id = runtime_id,
     tp_transports = [\<lparr>
       td_transport_id = (case rpo_transport_id opts of None \<Rightarrow> ''rudp'' | Some i \<Rightarrow> i),
       td_protocol = Rudp, td_host = rpo_host opts, td_port = rpo_port opts, td_path = None,
       td_discovery_group = None, td_wire_contracts = Some [''cultnet.schema.v0''],
       td_channels =
         [rudp_channel ''schema'' Reliable Ordered None opts,
          rudp_channel ''latest'' Unreliable Sequenced None opts,
          rudp_channel ''realtime'' Unreliable Unordered None opts,
          rudp_channel ''media'' Reliable Unordered (rpo_media_reliable_expire_after_ms opts) opts] \<rparr>] \<rparr>"

section \<open>State\<close>

record 'a socket =
  sk_session :: session
  sk_mode :: socket_mode
  sk_remote_addr :: "'a option"
  sk_profile :: transport_profile
  sk_transport_id :: "string option"
  sk_stats :: transport_stats
  sk_delivered_frames :: "transport_frame list"
  sk_max_fragment_bytes :: "nat option"
  sk_media_reliable_expire_after_ms :: "u64 option"
  sk_disconnect_reason :: "bytes option"
  sk_pong_payloads :: "bytes list"
  sk_send_calls :: nat
  sk_sent :: "(bytes \<times> 'a) list"

type_synonym 'a net = "nat \<Rightarrow> bytes \<Rightarrow> 'a \<Rightarrow> nat option"

datatype 'a incoming = NothingArrived | ReceiveFailed | Datagram bytes 'a

text \<open>\<open>local_addr\<close> is the address the OS reports for the socket, None when it cannot.\<close>

definition socket_new :: "'a socket_options \<Rightarrow> (string \<times> u16) option \<Rightarrow> rudp_error + 'a socket" where
  "socket_new opts local_addr =
     (case local_addr of
        None \<Rightarrow> Err SocketError
      | Some (host, port) \<Rightarrow> Ok \<lparr>
          sk_session = session_new \<lparr>
            so_connection_id = opt_connection_id opts,
            so_initial_sequence = opt_initial_sequence opts,
            so_resend_delay_ms = opt_resend_delay_ms opts,
            so_max_pending_reliable_packets = map_option unat (opt_max_pending_reliable_packets opts) \<rparr>,
          sk_mode = opt_mode opts,
          sk_remote_addr = opt_remote_addr opts,
          sk_profile = create_rudp_transport_profile (opt_runtime_id opts) \<lparr>
            rpo_transport_id = opt_transport_id opts, rpo_host = Some host, rpo_port = Some port,
            rpo_max_payload_bytes = opt_max_payload_bytes opts,
            rpo_max_fragment_bytes = opt_max_fragment_bytes opts,
            rpo_max_pending_reliable_packets = opt_max_pending_reliable_packets opts,
            rpo_media_reliable_expire_after_ms = opt_media_reliable_expire_after_ms opts \<rparr>,
          sk_transport_id = opt_transport_id opts,
          sk_stats = default_stats,
          sk_delivered_frames = [],
          sk_max_fragment_bytes = map_option unat (opt_max_fragment_bytes opts),
          sk_media_reliable_expire_after_ms = opt_media_reliable_expire_after_ms opts,
          sk_disconnect_reason = None,
          sk_pong_payloads = [],
          sk_send_calls = 0,
          sk_sent = [] \<rparr>)"

definition socket_connected :: "'a socket \<Rightarrow> bool" where
  "socket_connected c = connected (sk_session c)"

definition socket_assume_connected :: "u64 \<Rightarrow> 'a socket \<Rightarrow> 'a socket" where
  "socket_assume_connected now_ms c = c\<lparr>sk_session := assume_connected now_ms (sk_session c)\<rparr>"

definition socket_stats :: "'a socket \<Rightarrow> transport_stats" where
  "socket_stats c = (sk_stats c)\<lparr>stats_reliable_packets_expired := reliable_packets_expired (sk_session c)\<rparr>"

definition pop_pong_payload :: "'a socket \<Rightarrow> bytes option \<times> 'a socket" where
  "pop_pong_payload c =
     (case sk_pong_payloads c of [] \<Rightarrow> (None, c) | p # ps \<Rightarrow> (Some p, c\<lparr>sk_pong_payloads := ps\<rparr>))"

section \<open>Sending\<close>

definition send_packet :: "'a net \<Rightarrow> packet \<Rightarrow> 'a socket \<Rightarrow> (rudp_error + unit) \<times> 'a socket" where
  "send_packet net p c =
     (case sk_remote_addr c of
        None \<Rightarrow> (Err NoRemoteEndpoint, c)
      | Some remote_addr \<Rightarrow>
        (case encode_rudp_packet p of
           Inl e \<Rightarrow> (Err e, c)
         | Inr wire \<Rightarrow>
           (let c1 = c\<lparr>sk_send_calls := sk_send_calls c + 1\<rparr> in
            case net (sk_send_calls c) wire remote_addr of
              None \<Rightarrow> (Err SocketError, c1)
            | Some sent \<Rightarrow>
              (Ok (), c1\<lparr>sk_sent := sk_sent c1 @ [(wire, remote_addr)],
                        sk_stats := (sk_stats c1)\<lparr>bytes_sent := bytes_sent (sk_stats c1) + of_nat sent\<rparr>\<rparr>))))"

fun send_packets :: "'a net \<Rightarrow> packet list \<Rightarrow> 'a socket \<Rightarrow> (rudp_error + unit) \<times> 'a socket" where
  "send_packets net [] c = (Ok (), c)"
| "send_packets net (p # ps) c =
     (case send_packet net p c of
        (Inl e, c1) \<Rightarrow> (Err e, c1) | (Inr _, c1) \<Rightarrow> send_packets net ps c1)"

text \<open>A session method that makes one packet, and the sending of it.\<close>

definition send_created :: "'a net \<Rightarrow> packet session_op \<Rightarrow> 'a socket \<Rightarrow> (rudp_error + unit) \<times> 'a socket" where
  "send_created net create c =
     (case create (sk_session c) of
        (Inl e, s) \<Rightarrow> (Err e, c\<lparr>sk_session := s\<rparr>)
      | (Inr p, s) \<Rightarrow> send_packet net p (c\<lparr>sk_session := s\<rparr>))"

definition socket_connect :: "'a net \<Rightarrow> u64 \<Rightarrow> bytes \<Rightarrow> 'a socket \<Rightarrow> (rudp_error + unit) \<times> 'a socket" where
  "socket_connect net now_ms payload c =
     (if sk_mode c \<noteq> Client then (Err OnlyClientConnects, c)
      else send_created net (create_connect now_ms payload) c)"

definition channel_send_options :: "'a socket \<Rightarrow> string \<Rightarrow> u64 \<Rightarrow> send_options" where
  "channel_send_options c channel_id now_ms =
     (if channel_id = ''schema'' then
        \<lparr> o_reliable = True, o_ordered = True, o_sequenced = False, o_now_ms = now_ms,
          o_reliable_expire_after_ms = None \<rparr>
      else if channel_id = ''latest'' then
        \<lparr> o_reliable = False, o_ordered = False, o_sequenced = True, o_now_ms = now_ms,
          o_reliable_expire_after_ms = None \<rparr>
      else if channel_id = ''media'' then
        \<lparr> o_reliable = True, o_ordered = False, o_sequenced = False, o_now_ms = now_ms,
          o_reliable_expire_after_ms = sk_media_reliable_expire_after_ms c \<rparr>
      else
        \<lparr> o_reliable = False, o_ordered = False, o_sequenced = False, o_now_ms = now_ms,
          o_reliable_expire_after_ms = None \<rparr>)"

definition socket_send ::
  "'a net \<Rightarrow> u64 \<Rightarrow> string \<Rightarrow> bytes \<Rightarrow> 'a socket \<Rightarrow> (rudp_error + unit) \<times> 'a socket" where
  "socket_send net now_ms channel_id payload c =
     (case send_many channel_id payload (channel_send_options c channel_id now_ms)
             (sk_max_fragment_bytes c) (sk_session c) of
        (Inl e, s) \<Rightarrow> (Err e, c\<lparr>sk_session := s\<rparr>)
      | (Inr packets, s) \<Rightarrow>
        (case send_packets net packets (c\<lparr>sk_session := s\<rparr>) of
           (Inl e, c1) \<Rightarrow> (Err e, c1)
         | (Inr _, c1) \<Rightarrow>
           (Ok (), c1\<lparr>sk_stats := (sk_stats c1)\<lparr>frames_sent := frames_sent (sk_stats c1) + 1\<rparr>\<rparr>)))"

definition socket_disconnect :: "'a net \<Rightarrow> bytes \<Rightarrow> 'a socket \<Rightarrow> (rudp_error + unit) \<times> 'a socket" where
  "socket_disconnect net reason c = send_created net (create_disconnect reason) c"

definition socket_ping :: "'a net \<Rightarrow> bytes \<Rightarrow> 'a socket \<Rightarrow> (rudp_error + unit) \<times> 'a socket" where
  "socket_ping net payload c = send_created net (create_ping payload) c"

definition socket_check_timeout :: "u64 \<Rightarrow> u64 \<Rightarrow> 'a socket \<Rightarrow> bool \<times> 'a socket" where
  "socket_check_timeout now_ms timeout_ms c =
     (let (r, s) = check_timeout now_ms timeout_ms (sk_session c) in (r, c\<lparr>sk_session := s\<rparr>))"

definition poll_resends :: "'a net \<Rightarrow> u64 \<Rightarrow> 'a socket \<Rightarrow> (rudp_error + unit) \<times> 'a socket" where
  "poll_resends net now_ms c =
     (let (packets, s) = due_resends now_ms (sk_session c) in send_packets net packets (c\<lparr>sk_session := s\<rparr>))"

section \<open>Receiving\<close>

text \<open>Whose datagram is let through: the remote address from then on, or None to drop it.\<close>

definition admit_sender :: "socket_mode \<Rightarrow> 'a option \<Rightarrow> packet_type \<Rightarrow> 'a \<Rightarrow> 'a option" where
  "admit_sender mode remote ptype from_addr =
     (case remote of
        Some expected \<Rightarrow>
          if expected \<noteq> from_addr then
            (if mode = Server \<and> ptype = Connect then Some from_addr else None)
          else Some expected
      | None \<Rightarrow> if mode = Server \<and> ptype \<noteq> Connect then None else Some from_addr)"

definition accept_client ::
  "'a net \<Rightarrow> u64 \<Rightarrow> packet \<Rightarrow> 'a socket \<Rightarrow> (rudp_error + transport_frame option) \<times> 'a socket" where
  "accept_client net now_ms p c =
     (case send_created net (accept_connect p now_ms []) (c\<lparr>sk_session := reset_peer_state (sk_session c)\<rparr>) of
        (Inl e, c1) \<Rightarrow> (Err e, c1) | (Inr _, c1) \<Rightarrow> (Ok None, c1))"

definition transport_frame_of :: "delivered_frame \<Rightarrow> transport_frame" where
  "transport_frame_of f = \<lparr> tf_channel_id = df_channel_id f, tf_payload = df_payload f \<rparr>"

definition note_pong :: "receive_result \<Rightarrow> 'a socket \<Rightarrow> 'a socket" where
  "note_pong r c = (if rr_pong r then c\<lparr>sk_pong_payloads := sk_pong_payloads c @ [rr_pong_payload r]\<rparr> else c)"

definition queue_frames :: "delivered_frame list \<Rightarrow> 'a socket \<Rightarrow> 'a socket" where
  "queue_frames frames c = c\<lparr>
     sk_delivered_frames := sk_delivered_frames c @ map transport_frame_of frames,
     sk_stats := (sk_stats c)\<lparr>frames_received := frames_received (sk_stats c) + of_nat (length frames)\<rparr>\<rparr>"

definition pop_frame :: "'a socket \<Rightarrow> transport_frame option \<times> 'a socket" where
  "pop_frame c = (case sk_delivered_frames c of
     [] \<Rightarrow> (None, c) | f # fs \<Rightarrow> (Some f, c\<lparr>sk_delivered_frames := fs\<rparr>))"

text \<open>What follows once the session has taken the packet and a reply was sent.\<close>

definition hand_out ::
  "'a net \<Rightarrow> packet \<Rightarrow> receive_result \<Rightarrow> 'a socket \<Rightarrow> (rudp_error + transport_frame option) \<times> 'a socket" where
  "hand_out net p r c =
     (let c1 = note_pong r c in
      if rr_disconnected r then (Ok None, c1\<lparr>sk_disconnect_reason := Some (rr_disconnect_reason r)\<rparr>)
      else let (frame, c2) = pop_frame (queue_frames (rr_delivered r) c1) in
        if p_type p = Accept \<or> frame \<noteq> None then
          (case send_created net create_ack c2 of
             (Inl e, c3) \<Rightarrow> (Err e, c3) | (Inr _, c3) \<Rightarrow> (Ok frame, c3))
        else (Ok frame, c2))"

definition process_packet ::
  "bool \<Rightarrow> 'a net \<Rightarrow> u64 \<Rightarrow> packet \<Rightarrow> 'a socket \<Rightarrow> (rudp_error + transport_frame option) \<times> 'a socket" where
  "process_packet oc net now_ms p c =
     (case receive oc p now_ms (sk_session c) of
        (Inl e, s) \<Rightarrow> (Err e, c\<lparr>sk_session := s\<rparr>)
      | (Inr r, s) \<Rightarrow>
        (case rr_reply r of
           None \<Rightarrow> hand_out net p r (c\<lparr>sk_session := s\<rparr>)
         | Some reply \<Rightarrow>
           (case send_packet net reply (c\<lparr>sk_session := s\<rparr>) of
              (Inl e, c1) \<Rightarrow> (Err e, c1) | (Inr _, c1) \<Rightarrow> hand_out net p r c1)))"

definition handle_packet ::
  "bool \<Rightarrow> 'a net \<Rightarrow> u64 \<Rightarrow> packet \<Rightarrow> 'a \<Rightarrow> 'a socket \<Rightarrow> (rudp_error + transport_frame option) \<times> 'a socket" where
  "handle_packet oc net now_ms p from_addr c =
     (case admit_sender (sk_mode c) (sk_remote_addr c) (p_type p) from_addr of
        None \<Rightarrow> (Ok None, c)
      | Some remote \<Rightarrow>
        (let c1 = c\<lparr>sk_remote_addr := Some remote\<rparr> in
         if sk_mode c1 = Server \<and> p_type p = Connect then accept_client net now_ms p c1
         else process_packet oc net now_ms p c1))"

definition receive_once ::
  "bool \<Rightarrow> 'a net \<Rightarrow> u64 \<Rightarrow> 'a incoming \<Rightarrow> 'a socket \<Rightarrow> (rudp_error + transport_frame option) \<times> 'a socket" where
  "receive_once oc net now_ms incoming c =
     (case sk_delivered_frames c of
        f # fs \<Rightarrow> (Ok (Some f), c\<lparr>sk_delivered_frames := fs,
                                  sk_session := assume_connected now_ms (sk_session c)\<rparr>)
      | [] \<Rightarrow>
        (case incoming of
           NothingArrived \<Rightarrow> (Ok None, c)
         | ReceiveFailed \<Rightarrow> (Err SocketError, c)
         | Datagram bytes from_addr \<Rightarrow>
           (let wire = take 65535 bytes;
                c1 = c\<lparr>sk_stats := (sk_stats c)
                        \<lparr>bytes_received := bytes_received (sk_stats c) + of_nat (length wire)\<rparr>\<rparr> in
            case decode_rudp_packet wire of
              Inl e \<Rightarrow> (Ok None, c1)
            | Inr p \<Rightarrow> handle_packet oc net now_ms p from_addr c1)))"

end
