(* ===== verification/RudpFragments.thy ===== *)
theory RudpFragments
  imports RudpOrdered
begin

text \<open>
  Fragmentation end to end: \<open>send_many\<close> cuts a payload into fragments, \<open>reassemble\<close> puts
  them together whatever the order they arrive in. First the sender's packets, then a
  simulation of the receiver's fragment set by the set of indices that have arrived.
\<close>

section \<open>Cutting a payload\<close>

definition chunk :: "nat \<Rightarrow> bytes \<Rightarrow> nat \<Rightarrow> bytes" where
  "chunk maxb payload i = slice (i * maxb) (min (i * maxb + maxb) (length payload)) payload"

lemma concat_chunks: "concat (map (chunk maxb payload) [0..<n]) = take (n * maxb) payload"
proof (induction n)
  case (Suc n)
  have "chunk maxb payload n = take maxb (drop (n * maxb) payload)"
    by (simp add: chunk_def slice_def min_def)
  moreover have "take (Suc n * maxb) payload = take (n * maxb) payload @ take maxb (drop (n * maxb) payload)"
    by (simp only: mult_Suc add.commute [of maxb] take_add)
  ultimately show ?case using Suc by simp
qed simp

lemma div_ceil_bounds:
  assumes "0 < b" shows "a \<le> div_ceil a b * b" "0 < a \<Longrightarrow> (div_ceil a b - 1) * b < a"
    "0 < a \<Longrightarrow> 0 < div_ceil a b"
proof -
  let ?q = "div_ceil a b"
  have le: "?q * b \<le> a + b - 1" and lt: "a + b - 1 < ?q * b + b"
    using assms dividend_less_div_times [of b "a + b - 1"] by (simp_all add: div_ceil_def add.commute)
  show "a \<le> ?q * b" using lt by linarith
  show pos: "0 < a \<Longrightarrow> 0 < ?q" using lt assms by (cases ?q) auto
  show "0 < a \<Longrightarrow> (?q - 1) * b < a"
    using le pos by (cases ?q) auto
qed

lemma concat_all_chunks:
  "0 < maxb \<Longrightarrow> concat (map (chunk maxb payload) [0..<div_ceil (length payload) maxb]) = payload"
  by (simp add: concat_chunks div_ceil_bounds)

lemma length_chunk: "length (chunk maxb payload i) \<le> maxb"
  by (auto simp: chunk_def slice_def min_def)

definition fragment_packet ::
  "string \<Rightarrow> bytes \<Rightarrow> send_options \<Rightarrow> nat \<Rightarrow> u16 \<Rightarrow> nat \<Rightarrow> u32 \<Rightarrow> nat \<Rightarrow> packet \<Rightarrow> bool" where
  "fragment_packet ch payload opts maxb fid cnt cid i p \<longleftrightarrow>
     p_type p = Data \<and> p_connection_id p = cid \<and> p_channel_id p = ch \<and> p_payload p = chunk maxb payload i
     \<and> p_reliable p = o_reliable opts \<and> p_ordered p = o_ordered opts \<and> p_sequenced p = o_sequenced opts
     \<and> p_fragment_id p = fid \<and> p_fragment_index p = of_nat i \<and> p_fragment_count p = of_nat cnt"

lemma send_fragments_Inr:
  assumes "send_fragments ch payload opts maxb fid cnt idxs s = (Inr ps, s')"
  shows "list_all2 (fragment_packet ch payload opts maxb fid cnt (connection_id s)) idxs ps
    \<and> map p_sequence ps = map (\<lambda>j. next_sequence s + of_nat j) [0..<length idxs]
    \<and> unat (next_sequence s) + length idxs < 2 ^ 32"
  using assms
proof (induction idxs arbitrary: s ps)
  case Nil
  then show ?case using unat_less_exp [of "next_sequence s"] by simp
next
  case (Cons i idxs)
  obtain r s1 where c: "create_packet_with_fragments Data ch (chunk maxb payload i) (o_reliable opts)
      (o_ordered opts) (o_sequenced opts) fid (of_nat i) (of_nat cnt) s = (r, s1)"
    by fastforce
  with Cons.prems obtain p where p: "r = Inr p"
    by (cases r) (auto simp: chunk_def)
  note f = create_packet_with_fragments_Inr [OF c [unfolded p]]
  from Cons.prems c p obtain qs where qs: "ps = p # qs"
      "send_fragments ch payload opts maxb fid cnt idxs (track_if_reliable opts p s1) = (Inr qs, s')"
    by (auto simp: chunk_def Let_def split: prod.splits sum.splits)
  have same: "connection_id (track_if_reliable opts p s1) = connection_id s"
      "next_sequence (track_if_reliable opts p s1) = next_sequence s + 1"
    by (simp_all add: f(1))
  note ih = Cons.IH [OF qs(2), unfolded same]
  have "map (\<lambda>j. next_sequence s + of_nat j) [0..<Suc (length idxs)]
      = next_sequence s # map (\<lambda>j. next_sequence s + 1 + of_nat j) [0..<length idxs]"
    by (simp only: map_upt_Suc) (simp add: ac_simps)
  with ih f(2,4) show ?case
    by (simp add: qs(1) fragment_packet_def f del: upt_Suc)
qed

lemma send_fragmented_Inr:
  assumes "send_many ch payload opts (Some maxb) s = (Inr ps, s')" "maxb < length payload"
  shows "list_all2 (fragment_packet ch payload opts maxb (next_fragment_id s)
        (div_ceil (length payload) maxb) (connection_id s)) [0..<div_ceil (length payload) maxb] ps"
    "map p_sequence ps = map (\<lambda>j. next_sequence s + of_nat j) [0..<div_ceil (length payload) maxb]"
    "unat (next_sequence s) + div_ceil (length payload) maxb < 2 ^ 32"
    "0 < maxb" "div_ceil (length payload) maxb \<le> 65535"
proof -
  let ?n = "div_ceil (length payload) maxb" and ?s1 = "purge_expired_reliable (o_now_ms opts) s"
  have pos: "0 < maxb" and cnt: "?n \<le> 65535"
    and sent: "send_fragments ch payload opts maxb (next_fragment_id ?s1) ?n [0..<?n]
      (?s1\<lparr>next_fragment_id := saturating_add (next_fragment_id ?s1) 1\<rparr>) = (Inr ps, s')"
    using assms by (auto simp: send_many_def send_fragmented_def Let_def allocate_fragment_id_frame
        split: if_splits sum.splits)
  have "next_fragment_id ?s1 = next_fragment_id s" "connection_id ?s1 = connection_id s"
      "next_sequence ?s1 = next_sequence s"
    by (simp_all add: purge_expired_reliable_def Let_def)
  with send_fragments_Inr [OF sent] pos cnt
  show "list_all2 (fragment_packet ch payload opts maxb (next_fragment_id s) ?n (connection_id s)) [0..<?n] ps"
    "map p_sequence ps = map (\<lambda>j. next_sequence s + of_nat j) [0..<?n]"
    "unat (next_sequence s) + ?n < 2 ^ 32" "0 < maxb" "?n \<le> 65535"
    by simp_all
qed

section \<open>Gathering fragments\<close>

text \<open>The fragment set of a payload of \<open>cnt\<close> chunks, the indices in \<open>R\<close> having arrived.\<close>

definition set_holds ::
  "nat \<Rightarrow> bool \<Rightarrow> (nat \<Rightarrow> bytes) \<Rightarrow> u32 \<Rightarrow> nat set \<Rightarrow> fragment_buffer \<Rightarrow> bool" where
  "set_holds cnt ord pl base R b \<longleftrightarrow>
     fb_fragment_count b = of_nat cnt \<and> fb_ordered b = ord \<and> length (fb_payloads b) = card R
     \<and> (\<forall>i < cnt. map_of (fb_payloads b) (of_nat i) = (if i \<in> R then Some (pl i) else None))
     \<and> (\<forall>i < cnt. map_of (fb_sequences b) (of_nat i) = (if i \<in> R then Some (base + of_nat i) else None))"

definition fragment_of ::
  "string \<Rightarrow> u16 \<Rightarrow> nat \<Rightarrow> bool \<Rightarrow> (nat \<Rightarrow> bytes) \<Rightarrow> u32 \<Rightarrow> nat \<Rightarrow> packet \<Rightarrow> bool" where
  "fragment_of ch fid cnt ord pl base i p \<longleftrightarrow>
     p_channel_id p = ch \<and> p_fragment_id p = fid \<and> p_fragment_count p = of_nat cnt
     \<and> p_fragment_index p = of_nat i \<and> p_ordered p = ord \<and> p_payload p = pl i
     \<and> p_sequence p = base + of_nat i"

lemma u16_index: "cnt \<le> 65535 \<Longrightarrow> i \<le> cnt \<Longrightarrow> unat (of_nat i :: u16) = i"
  by (intro unat_of_nat_u16) simp

lemma u16_index_inj: "cnt \<le> 65535 \<Longrightarrow> i \<le> cnt \<Longrightarrow> j \<le> cnt \<Longrightarrow> (of_nat i :: u16) = of_nat j \<longleftrightarrow> i = j"
  by (metis u16_index)

lemma set_holds_target:
  assumes "fragment_of ch fid cnt ord pl base i p"
    and "case map_of (fragment_buffers s) (ch, fid) of None \<Rightarrow> R = {} | Some b \<Rightarrow> set_holds cnt ord pl base R b"
  shows "set_holds cnt ord pl base R (fragment_target p s)"
  using assms
  by (auto simp: fragment_of_def fragment_target_def new_fragment_buffer_def set_holds_def split: option.splits)

lemma set_holds_added:
  assumes f: "fragment_of ch fid cnt ord pl base i p" and i: "i < cnt" "i \<notin> R" "cnt \<le> 65535" "finite R"
    and t: "set_holds cnt ord pl base R (fragment_target p s)"
  shows "set_holds cnt ord pl base (insert i R) (fragment_added p s)"
proof -
  let ?b = "fragment_target p s"
  have "map_of (fb_payloads ?b) (of_nat i) = None" using t i(1,2) by (simp add: set_holds_def)
  then have "length (bt_insert (of_nat i) (pl i) (fb_payloads ?b)) = card (insert i R)"
    using t i(2,4) by (simp add: length_bt_insert_fresh set_holds_def)
  moreover have "(of_nat j :: u16) = of_nat i \<longleftrightarrow> j = i" if "j < cnt" for j
    using that i u16_index_inj [of cnt j i] by simp
  ultimately show ?thesis
    using f t by (auto simp: set_holds_def fragment_added_def fragment_of_def Let_def)
qed

lemma image_words:
  assumes "unat (base :: u32) + cnt < 2 ^ 32" "0 < cnt"
  defines "S \<equiv> (\<lambda>i. base + of_nat i) ` {0..<cnt}"
  shows "Min S = base" "rust_add oc (Max S) 1 = Some (base + of_nat cnt)"
proof -
  have ui: "unat (base + of_nat i) = unat base + i" if "i \<le> cnt" for i
    using burst_word [OF assms(1) that] .
  show "Min S = base"
  proof (rule Min_eqI)
    show "base \<le> y" if "y \<in> S" for y
      using that ui by (auto simp: S_def word_le_nat_alt)
    show "base \<in> S" using assms(2) by (auto simp: S_def image_iff intro!: bexI [of _ 0])
  qed (simp add: S_def)
  have "Max S = base + of_nat (cnt - 1)"
  proof (rule Max_eqI)
    show "y \<le> base + of_nat (cnt - 1)" if "y \<in> S" for y
    proof -
      from that obtain i where "i < cnt" "y = base + of_nat i" by (auto simp: S_def)
      with ui [of i] ui [of "cnt - 1"] show ?thesis by (simp add: word_le_nat_alt)
    qed
    show "base + of_nat (cnt - 1) \<in> S"
      unfolding S_def by (rule imageI) (use assms(2) in simp)
  qed (simp add: S_def)
  moreover have "base + of_nat (cnt - 1) + 1 = base + of_nat cnt"
    using assms(2) by (cases cnt) (simp_all add: ac_simps)
  moreover have "unat (base + of_nat (cnt - 1)) + 1 < 2 ^ 32"
    using ui [of "cnt - 1"] assms(1,2) by simp
  ultimately show "rust_add oc (Max S) 1 = Some (base + of_nat cnt)"
    by (simp add: rust_add_def)
qed

text \<open>One more fragment: the set grows, or the payload is complete.\<close>

lemma reassemble_gather:
  assumes inv: "fragments_inv s" and seen: "bs_member (p_sequence p) (received_sequences s)"
    and f: "fragment_of ch fid cnt ord pl base i p" and i: "i < cnt" "i \<notin> R" "R \<subseteq> {..<cnt}"
    and c: "cnt \<le> 65535" "fid \<noteq> 0" "unat base + cnt < 2 ^ 32"
    and t: "set_holds cnt ord pl base R (fragment_target p s)"
  shows "reassemble oc p s =
    (if insert i R = {..<cnt}
     then (Inr (Some (\<lparr> df_channel_id = ch, df_payload = concat (map pl [0..<cnt]), df_sequence = base \<rparr>,
             ord, base + of_nat cnt)),
           s\<lparr>fragment_buffers := bt_remove (ch, fid) (fragment_buffers s)\<rparr>)
     else (Inr None, s\<lparr>fragment_buffers := bt_insert (ch, fid) (fragment_added p s) (fragment_buffers s)\<rparr>))"
proof -
  let ?a = "fragment_added p s"
  have fin: "finite R" using i(3) finite_subset by blast
  have a: "set_holds cnt ord pl base (insert i R) ?a"
    by (rule set_holds_added [OF f i(1,2) c(1) fin t])
  have cnt: "unat (of_nat cnt :: u16) = cnt" using c(1) by (intro u16_index) simp_all
  have guards: "p_fragment_count p \<noteq> 0" "p_fragment_id p \<noteq> 0" "p_fragment_index p < p_fragment_count p"
    using f i(1) c cnt u16_index [of cnt i] by (auto simp: fragment_of_def word_less_nat_alt unat_eq_zero [symmetric])
  have sub: "insert i R \<subseteq> {..<cnt}" using i by auto
  then have len: "length (fb_payloads ?a) < cnt \<longleftrightarrow> insert i R \<noteq> {..<cnt}"
    using a psubset_card_mono [of "{..<cnt}" "insert i R"] by (auto simp: set_holds_def)
  have full: "map (\<lambda>j. the (map_of (fb_sequences ?a) (of_nat j))) [0..<cnt] = map (\<lambda>j. base + of_nat j) [0..<cnt]
     \<and> map (\<lambda>j. the (map_of (fb_payloads ?a) (of_nat j))) [0..<cnt] = map pl [0..<cnt]"
    if "insert i R = {..<cnt}"
    using a that by (auto simp: set_holds_def)
  have meta: "fb_fragment_count (fragment_target p s) = p_fragment_count p" "fb_ordered (fragment_target p s) = p_ordered p"
    using t f by (simp_all add: set_holds_def fragment_of_def)
  have p: "p_fragment_count p = of_nat cnt" "p_channel_id p = ch" "p_fragment_id p = fid" "p_ordered p = ord"
    using f by (simp_all add: fragment_of_def)
  have pos: "0 < cnt" using i(1) by simp
  note eq = reassemble_fragment [OF inv seen guards, where oc = oc, unfolded p cnt]
  show ?thesis
  proof (cases "insert i R = {..<cnt}")
    case True
    with meta len p show ?thesis
      by (simp only: eq conjunct1 [OF full] conjunct2 [OF full] set_map set_upt image_words(1) [OF c(3) pos]
          image_words(2) [OF c(3) pos]) (simp add: Let_def)
  next
    case False
    with meta len p show ?thesis by (simp add: eq)
  qed
qed

section \<open>The receiver of a fragmented payload\<close>

definition gathering ::
  "string \<Rightarrow> u16 \<Rightarrow> nat \<Rightarrow> bool \<Rightarrow> (nat \<Rightarrow> bytes) \<Rightarrow> u32 \<Rightarrow> nat set \<Rightarrow> session \<Rightarrow> bool" where
  "gathering ch fid cnt ord pl base R s \<longleftrightarrow>
     (case map_of (fragment_buffers s) (ch, fid) of None \<Rightarrow> R = {} | Some b \<Rightarrow> set_holds cnt ord pl base R b)
     \<and> (\<forall>i < cnt. bs_member (base + of_nat i) (received_sequences s) \<longleftrightarrow> i \<in> R)
     \<and> (case highest_received_sequence s of None \<Rightarrow> True | Some h \<Rightarrow> unat h + 1 < 2 ^ 32)"

text \<open>The channel takes a frame of sequence \<open>base\<close> at once, and holds none after it.\<close>

definition accepts_frame :: "bool \<Rightarrow> bool \<Rightarrow> string \<Rightarrow> u32 \<Rightarrow> u32 \<Rightarrow> session \<Rightarrow> bool" where
  "accepts_frame ord sq ch base nxt s \<longleftrightarrow>
     (if ord then next_for ch s = Some base \<and> buffered_at ch nxt s = None
      else \<not> sq \<or> sequenced_bound ch s \<le> base)"

lemma accepts_frame_remember [simp]:
  "accepts_frame ord sq ch base nxt (remember_received q s) = accepts_frame ord sq ch base nxt s"
  by (simp add: accepts_frame_def)

lemma accepts_frame_state:
  "delivery_state s = delivery_state s' \<Longrightarrow> accepts_frame ord sq ch base nxt s = accepts_frame ord sq ch base nxt s'"
  by (simp add: accepts_frame_def delivery_state_def next_for_def buffered_at_def sequenced_bound_def)

lemma accepts_frame_fragments [simp]:
  "accepts_frame ord sq ch base nxt (s\<lparr>fragment_buffers := m\<rparr>) = accepts_frame ord sq ch base nxt s"
  by (simp add: accepts_frame_def next_for_def buffered_at_def)

lemma deliver_accepted:
  assumes "accepts_frame ord (p_sequenced p) ch base nxt s"
  shows "rr_delivered (fst (deliver_frame p expected (\<lparr> df_channel_id = ch, df_payload = pl, df_sequence = base \<rparr>, ord, nxt) s))
    = [\<lparr> df_channel_id = ch, df_payload = pl, df_sequence = base \<rparr>]"
proof (cases ord)
  case True
  let ?f = "\<lparr> df_channel_id = ch, df_payload = pl, df_sequence = base \<rparr>"
  let ?t = "s\<lparr>ordered_next_sequence_by_channel := bt_insert ch nxt (ordered_next_sequence_by_channel s)\<rparr>"
  from assms True have n: "next_for ch s = Some base" "buffered_at ch nxt s = None"
    by (simp_all add: accepts_frame_def)
  then have c: "channel_next ?f expected s = base" "channel_ready ?f expected s = s"
    by (simp_all add: channel_next_def channel_ready_def next_for_def)
  have "drain_ordered ch ?t = ([], ?t)"
    using n(2) by (intro drain_ordered_None [where nxt = nxt]) (simp_all add: next_for_def buffered_at_def)
  with True c show ?thesis by (simp add: deliver_frame_def deliver_ordered_eq Let_def)
next
  case False
  with assms show ?thesis
    by (auto simp: deliver_frame_def accepts_frame_def sequenced_bound_def Let_def split: option.splits)
qed

lemma receive_new_data:
  assumes "p_type p = Data" "p_connection_id p = connection_id s"
    and "case highest_received_sequence s of None \<Rightarrow> True | Some h \<Rightarrow> unat h + 1 < 2 ^ 32"
  obtains expected where "receive oc p t s
    = receive_data oc p expected ((apply_acknowledgements p s)\<lparr>last_received_at_ms := Some t\<rparr>)"
proof -
  have "\<exists>e. (case highest_received_sequence s of None \<Rightarrow> Some (p_sequence p) | Some h \<Rightarrow> rust_add oc h 1) = Some e"
    using assms(3) by (auto simp: rust_add_def split: option.splits)
  then show thesis
    using assms(1,2) that by (auto simp: receive_def require_connection_def apply_acknowledgements_def)
qed

lemma gather_step:
  fixes t :: u64 and oc :: bool
  assumes inv: "session_inv s" and g: "gathering ch fid cnt ord pl base R s"
    and acc: "accepts_frame ord sq ch base (base + of_nat cnt) s"
    and p: "p_type p = Data" "p_connection_id p = connection_id s" "p_sequenced p = sq"
      "fragment_of ch fid cnt ord pl base i p"
    and i: "i < cnt" "i \<notin> R" "R \<subseteq> {..<cnt}"
    and c: "cnt \<le> 65535" "fid \<noteq> 0" "unat base + cnt < 2 ^ 32"
  defines "fs \<equiv> frames_of (fst (receive oc p t s))" and "s' \<equiv> snd (receive oc p t s)"
  shows "if insert i R = {..<cnt}
     then fs = [\<lparr> df_channel_id = ch, df_payload = concat (map pl [0..<cnt]), df_sequence = base \<rparr>]
       \<and> map_of (fragment_buffers s') (ch, fid) = None
     else fs = [] \<and> gathering ch fid cnt ord pl base (insert i R) s'
       \<and> accepts_frame ord sq ch base (base + of_nat cnt) s'"
proof -
  let ?s0 = "(apply_acknowledgements p s)\<lparr>last_received_at_ms := Some t\<rparr>"
  let ?s1 = "remember_received (p_sequence p) ?s0"
  have d0: "delivery_state ?s0 = delivery_state s" by (simp add: delivery_frame)
  have frag1: "fragment_buffers ?s1 = fragment_buffers s"
    by (subst remember_received_frame) (simp add: apply_acknowledgements_def)
  have high0: "highest_received_sequence ?s0 = highest_received_sequence s"
    and rec0: "received_sequences ?s0 = received_sequences s"
    by (simp_all add: apply_acknowledgements_def)
  have inv1: "session_inv ?s1" using inv by (simp add: session_inv_ack session_inv_remember)
  obtain expected where recv: "receive oc p t s = receive_data oc p expected ?s0"
    using receive_new_data [OF p(1,2)] g by (auto simp: gathering_def)
  have seq: "p_sequence p = base + of_nat i" using p(4) by (simp add: fragment_of_def)
  then have new: "\<not> bs_member (p_sequence p) (received_sequences ?s0)"
    unfolding rec0 using g i by (simp add: gathering_def)
  have fin: "finite R" using i(3) finite_subset by blast
  have t: "set_holds cnt ord pl base R (fragment_target p ?s1)"
    using g by (intro set_holds_target [OF p(4)]) (simp add: frag1 gathering_def)
  have seen: "bs_member (p_sequence p) (received_sequences ?s1)" by simp
  note r = reassemble_gather [OF session_invD(4) [OF inv1] seen p(4) i c t, of oc]
  have acc1: "accepts_frame ord (p_sequenced p) ch base (base + of_nat cnt) ?s1"
    using acc accepts_frame_state [OF d0] p(3) by simp
  show ?thesis
  proof (cases "insert i R = {..<cnt}")
    case True
    have "accepts_frame ord (p_sequenced p) ch base (base + of_nat cnt)
        (?s1\<lparr>fragment_buffers := bt_remove (ch, fid) (fragment_buffers ?s1)\<rparr>)"
      using acc1 by (simp only: accepts_frame_fragments)
    note delivered = deliver_accepted [OF this]
    with r new True show ?thesis
      by (simp add: fs_def s'_def recv receive_data_def Let_def split_beta)
  next
    case False
    have a: "set_holds cnt ord pl base (insert i R) (fragment_added p ?s1)"
      by (rule set_holds_added [OF p(4) i(1,2) c(1) fin t])
    let ?s2 = "?s1\<lparr>fragment_buffers := bt_insert (ch, fid) (fragment_added p ?s1) (fragment_buffers ?s1)\<rparr>"
    have out: "fs = []" "s' = ?s2"
      using r new False by (simp_all add: fs_def s'_def recv receive_data_def Let_def empty_result_def)
    have "bs_member (base + of_nat j) (received_sequences ?s2) \<longleftrightarrow> j \<in> insert i R" if "j < cnt" for j
      using g that i(1) burst_word_inj [OF c(3), of j i] by (auto simp: gathering_def rec0 seq)
    moreover have "case highest_received_sequence ?s2 of None \<Rightarrow> True | Some h \<Rightarrow> unat h + 1 < 2 ^ 32"
      using g burst_word [OF c(3), of i] i(1) c(3)
      by (auto simp: highest_remember high0 seq gathering_def max_def split: option.splits)
    ultimately have "gathering ch fid cnt ord pl base (insert i R) ?s2"
      using a by (simp add: gathering_def)
    with out acc1 p(3) False show ?thesis by simp
  qed
qed

lemma gather_run:
  assumes c: "cnt \<le> 65535" "fid \<noteq> 0" "unat base + cnt < 2 ^ 32"
    and "session_inv s" "gathering ch fid cnt ord pl base R s"
    and "accepts_frame ord sq ch base (base + of_nat cnt) s"
    and "distinct is" "set is = {..<cnt} - R" "R \<subseteq> {..<cnt}" "R \<noteq> {..<cnt}"
    and "\<And>i. i < cnt \<Longrightarrow> p_type (pk i) = Data \<and> p_connection_id (pk i) = connection_id s
      \<and> p_sequenced (pk i) = sq \<and> fragment_of ch fid cnt ord pl base i (pk i)"
    and "map fst calls = map pk is"
  shows "deliveries oc (\<lambda>_. True) (map (\<lambda>(p, t). CallReceive p t) calls) s
      = [\<lparr> df_channel_id = ch, df_payload = concat (map pl [0..<cnt]), df_sequence = base \<rparr>]
    \<and> map_of (fragment_buffers (snd (run_ops (session_step oc) (map (\<lambda>(p, t). CallReceive p t) calls) s))) (ch, fid) = None"
  using assms(4-)
proof (induction "is" arbitrary: calls R s)
  case Nil
  then show ?case by auto
next
  case (Cons i "is")
  obtain t cs where calls: "calls = (pk i, t) # cs" "map fst cs = map pk is"
    using Cons.prems(9) by (cases calls) auto
  let ?s1 = "snd (receive oc (pk i) t s)"
  have i: "i < cnt" "i \<notin> R" using Cons.prems(5) by auto
  have "p_type (pk i) = Data" "p_connection_id (pk i) = connection_id s" "p_sequenced (pk i) = sq"
      "fragment_of ch fid cnt ord pl base i (pk i)"
    using Cons.prems(8) [OF i(1)] by simp_all
  note step = gather_step [OF Cons.prems(1-3) this i Cons.prems(6) c, of oc t]
  have rest: "set is = {..<cnt} - insert i R" "distinct is" using Cons.prems(4,5) by auto
  show ?case
  proof (cases "insert i R = {..<cnt}")
    case True
    with rest(1) have "is = []" by auto
    with step True calls show ?thesis by (simp add: step_frames_def split_beta Let_def)
  next
    case False
    have inv1: "session_inv ?s1" using Cons.prems(1) by (rule session_inv_receive)
    from step False have s1: "gathering ch fid cnt ord pl base (insert i R) ?s1"
        "accepts_frame ord sq ch base (base + of_nat cnt) ?s1" "frames_of (fst (receive oc (pk i) t s)) = []"
      by simp_all
    have "insert i R \<subseteq> {..<cnt}" using i Cons.prems(6) by auto
    from Cons.IH [OF inv1 s1(1,2) rest(2,1) this False _ calls(2)] Cons.prems(8)
    show ?thesis
      by (simp add: connection_receive calls(1) step_frames_def case_prod_unfold Let_def s1(3))
  qed
qed

lemma list_all2_upt: "list_all2 P [0..<n] ps \<longleftrightarrow> length ps = n \<and> (\<forall>i < n. P i (ps ! i))"
  by (auto simp: list_all2_conv_all_nth)

lemma chunk_nonempty:
  assumes "0 < maxb" "i < div_ceil (length payload) maxb" shows "0 < length (chunk maxb payload i)"
proof -
  have "div_ceil 0 maxb = 0" using assms(1) by (simp add: div_ceil_def)
  then have "0 < length payload" using assms(2) by (cases payload) simp_all
  then have upper: "(div_ceil (length payload) maxb - 1) * maxb < length payload"
    using div_ceil_bounds(2) [OF assms(1)] by simp
  have "i * maxb \<le> (div_ceil (length payload) maxb - 1) * maxb"
    using assms(2) by (intro mult_right_mono) simp_all
  then have "i * maxb < length payload" using upper by (rule le_less_trans)
  with assms(1) show ?thesis by (simp add: chunk_def slice_def)
qed

text \<open>The packets of a fragmented payload, by index.\<close>

lemma send_fragmented_nth:
  assumes "send_many ch payload opts (Some maxb) s = (Inr ps, s')" "maxb < length payload"
  defines "n \<equiv> div_ceil (length payload) maxb"
  shows "length ps = n" "0 < n" "n \<le> 65535" "0 < maxb" "unat (next_sequence s) + n < 2 ^ 32"
    "i < n \<Longrightarrow> fragment_packet ch payload opts maxb (next_fragment_id s) n (connection_id s) i (ps ! i)"
    "i < n \<Longrightarrow> p_sequence (ps ! i) = next_sequence s + of_nat i"
proof -
  note f = send_fragmented_Inr [OF assms(1,2), folded n_def]
  show len: "length ps = n" using f(1) by (simp add: list_all2_upt)
  show "0 < n" using div_ceil_bounds(3) [OF f(4), of "length payload"] assms(2) by (cases payload) (simp_all add: n_def)
  show "n \<le> 65535" "0 < maxb" "unat (next_sequence s) + n < 2 ^ 32" using f by simp_all
  show "i < n \<Longrightarrow> fragment_packet ch payload opts maxb (next_fragment_id s) n (connection_id s) i (ps ! i)"
    using f(1) by (simp add: list_all2_upt)
  show "p_sequence (ps ! i) = next_sequence s + of_nat i" if "i < n"
    using arg_cong [OF f(2), of "\<lambda>xs. xs ! i"] that len by simp
qed

section \<open>Claims\<close>

text \<open>
  What \<open>send_many\<close> produces for a payload larger than the fragment size: the payload cut into
  \<open>\<lceil>length / size\<rceil>\<close> consecutive chunks, none larger than the limit and none empty, in data
  packets with the options' flags, one common non-zero fragment id, the indices 0, 1, ...,
  the right count, and consecutive sequence numbers; put together they are the payload.\<close>

theorem send_many_fragments:
  assumes "session_inv s" and "maxb < length payload"
    and "send_many ch payload opts (Some maxb) s = (Inr ps, s')"
  shows "length ps = div_ceil (length payload) maxb
    \<and> concat (map p_payload ps) = payload
    \<and> list_all (\<lambda>p. 0 < length (p_payload p) \<and> length (p_payload p) \<le> maxb) ps
    \<and> list_all (\<lambda>p. p_type p = Data \<and> p_channel_id p = ch \<and> p_reliable p = o_reliable opts
         \<and> p_ordered p = o_ordered opts \<and> p_sequenced p = o_sequenced opts
         \<and> p_fragment_id p = next_fragment_id s \<and> p_fragment_id p \<noteq> 0
         \<and> unat (p_fragment_count p) = length ps) ps
    \<and> map (unat \<circ> p_fragment_index) ps = [0..<length ps]
    \<and> map (unat \<circ> p_sequence) ps = map ((+) (unat (next_sequence s))) [0..<length ps]"
proof -
  note n = send_fragmented_nth [OF assms(3,2)]
  let ?n = "div_ceil (length payload) maxb"
  have fid: "next_fragment_id s \<noteq> 0" using assms(1) by (rule session_invD)
  have "map p_payload ps = map (chunk maxb payload) [0..<?n]"
    using n(1,6) by (intro nth_equalityI) (simp_all add: fragment_packet_def)
  then have whole: "concat (map p_payload ps) = payload"
    using concat_all_chunks [OF n(4)] by simp
  have sizes: "list_all (\<lambda>p. 0 < length (p_payload p) \<and> length (p_payload p) \<le> maxb) ps"
    using n(1,6) chunk_nonempty [OF n(4)] length_chunk
    by (simp add: list_all_length fragment_packet_def)
  have fields: "list_all (\<lambda>p. p_type p = Data \<and> p_channel_id p = ch \<and> p_reliable p = o_reliable opts
         \<and> p_ordered p = o_ordered opts \<and> p_sequenced p = o_sequenced opts
         \<and> p_fragment_id p = next_fragment_id s \<and> p_fragment_id p \<noteq> 0
         \<and> unat (p_fragment_count p) = length ps) ps"
    using n(1,6) fid u16_index [OF n(3) le_refl]
    by (simp add: list_all_length fragment_packet_def)
  have "map (unat \<circ> p_fragment_index) ps = [0..<length ps]"
    using n(1,6) u16_index [OF n(3)] by (intro nth_equalityI) (simp_all add: fragment_packet_def)
  moreover have "map (unat \<circ> p_sequence) ps = map ((+) (unat (next_sequence s))) [0..<length ps]"
    using n(1,7) burst_word [OF n(5)] by (intro nth_equalityI) simp_all
  ultimately show ?thesis using n(1) whole sizes fields by simp
qed

definition note_options :: send_options where
  "note_options = \<lparr> o_reliable = True, o_ordered = False, o_sequenced = False, o_now_ms = 0,
     o_reliable_expire_after_ms = None \<rparr>"

definition open_session :: "u32 \<Rightarrow> session" where
  "open_session q = assume_connected 0 (session_new (default_session_options\<lparr>so_initial_sequence := q\<rparr>))"

lemma open_session_inv: "session_inv (open_session q)"
  by (simp add: open_session_def session_inv_intros)

theorem send_many_fragments_witness:
  "let (r, s') = send_many ''note'' [1, 2, 3, 4, 5] note_options (Some 2) (open_session 40); ps = projr r in
     map p_payload ps = [[1, 2], [3, 4], [5]]
     \<and> length ps = div_ceil (length [1, 2, 3, 4, 5 :: u8]) 2 \<and> concat (map p_payload ps) = [1, 2, 3, 4, 5]"
proof -
  obtain r s' where r: "send_many ''note'' [1, 2, 3, 4, 5] note_options (Some 2) (open_session 40) = (r, s')"
    by fastforce
  have "is_ok (fst (send_many ''note'' [1, 2, 3, 4, 5] note_options (Some 2) (open_session 40)))"
    and p: "map p_payload (projr (fst (send_many ''note'' [1, 2, 3, 4, 5] note_options (Some 2) (open_session 40))))
      = [[1, 2], [3, 4], [5]]"
    by code_simp+
  then obtain ps where ps: "r = Inr ps" by (auto simp: r is_ok_iff)
  from send_many_fragments [OF open_session_inv _ r [unfolded ps]] p show ?thesis
    by (simp add: r ps)
qed

text \<open>C9.
  A payload survives fragmentation end to end: whatever \<open>send_many\<close> cut a payload into, a
  receiver that gets these packets in any order, each once, at any times, delivers exactly
  one frame, with the whole payload under the first fragment's sequence, and keeps nothing of
  the set. It needs a receiver of the same connection that has not yet seen these sequences,
  no unfinished set under the same id, and a channel ready for the frame.\<close>

theorem fragmented_payload_delivered:
  assumes "send_many ch payload opts (Some maxb) s = (Inr ps, s')" and "maxb < length payload"
    and "next_fragment_id s \<noteq> 0" and "connection_id r = connection_id s" and "session_inv r"
    and "gathering ch (next_fragment_id s) (length ps) (o_ordered opts) (chunk maxb payload) (next_sequence s) {} r"
    and "accepts_frame (o_ordered opts) (o_sequenced opts) ch (next_sequence s)
       (next_sequence s + of_nat (length ps)) r"
    and "mset (map fst arrivals) = mset ps"
  shows "deliveries oc (\<lambda>_. True) (map (\<lambda>(p, t). CallReceive p t) arrivals) r
      = [\<lparr> df_channel_id = ch, df_payload = payload, df_sequence = next_sequence s \<rparr>]
    \<and> map_of (fragment_buffers (snd (run_ops (session_step oc) (map (\<lambda>(p, t). CallReceive p t) arrivals) r)))
        (ch, next_fragment_id s) = None"
proof -
  note n = send_fragmented_nth [OF assms(1,2)]
  let ?n = "length ps"
  have "ps = map ((!) ps) [0..<?n]" by (simp add: map_nth)
  then have "mset (map fst arrivals) = mset (map ((!) ps) [0..<?n])" using assms(8) by simp
  then obtain "is" where ix: "mset is = mset [0..<?n]" "map ((!) ps) is = map fst arrivals"
    using mset_map_preimage by blast
  have ixs: "distinct is" "set is = {..<?n} - {}"
    using ix(1) by (metis distinct_upt mset_eq_imp_distinct_iff, metis Diff_empty atLeast_upt mset_eq_setD)
  have pk: "p_type (ps ! i) = Data \<and> p_connection_id (ps ! i) = connection_id r
      \<and> p_sequenced (ps ! i) = o_sequenced opts
      \<and> fragment_of ch (next_fragment_id s) ?n (o_ordered opts) (chunk maxb payload) (next_sequence s) i (ps ! i)"
    if "i < ?n" for i
    using n(6,7) [of i] that n(1) assms(4) by (simp add: fragment_packet_def fragment_of_def)
  have whole: "concat (map (chunk maxb payload) [0..<?n]) = payload"
    using concat_all_chunks [OF n(4)] n(1) by simp
  have pos: "{} \<noteq> {..<?n}" using n(1,2) by auto
  have c: "?n \<le> 65535" "next_fragment_id s \<noteq> 0" "unat (next_sequence s) + ?n < 2 ^ 32"
    using n(1,3,5) assms(3) by simp_all
  from gather_run [OF c assms(5,6,7) ixs _ pos, where pk = "(!) ps" and calls = arrivals and oc = oc] pk ix(2)
  show ?thesis by (simp add: whole)
qed

theorem fragmented_payload_delivered_witness:
  "let ps = projr (fst (send_many ''note'' [1, 2, 3, 4, 5] note_options (Some 2) (open_session 40))) in
     deliveries True (\<lambda>_. True) (map (\<lambda>(p, t). CallReceive p t) [(ps ! 2, 7), (ps ! 0, 8), (ps ! 1, 9)]) (open_session 1)
     = [\<lparr> df_channel_id = ''note'', df_payload = [1, 2, 3, 4, 5], df_sequence = 40 \<rparr>]"
proof -
  let ?send = "send_many ''note'' [1, 2, 3, 4, 5] note_options (Some 2) (open_session 40)"
  obtain r s' where r: "?send = (r, s')" by fastforce
  have ok: "is_ok (fst ?send)" and len: "length (projr (fst ?send)) = 3"
    by code_simp+
  from ok obtain ps where ps: "r = Inr ps" by (auto simp: r is_ok_iff)
  have l: "length ps = 3" using len by (simp add: r ps)
  have arr: "mset (map fst [(ps ! 2, 7 :: u64), (ps ! 0, 8), (ps ! 1, 9)]) = mset ps"
    using l by (auto simp: length_Suc_conv numeral_3_eq_3)
  have fields: "next_fragment_id (open_session q) = 1" "next_sequence (open_session q) = q"
      "fragment_buffers (open_session q) = []" "received_sequences (open_session q) = []"
      "highest_received_sequence (open_session q) = None" "connection_id (open_session q) = 0"
      "highest_delivered_sequenced_by_channel (open_session q) = []" for q
    by (simp_all add: open_session_def assume_connected_def session_new_def default_session_options_def)
  have g: "gathering ''note'' (next_fragment_id (open_session 40)) (length ps) (o_ordered note_options)
      (chunk 2 [1, 2, 3, 4, 5]) (next_sequence (open_session 40)) {} (open_session 1)"
    by (simp add: gathering_def fields)
  have a: "accepts_frame (o_ordered note_options) (o_sequenced note_options) ''note''
      (next_sequence (open_session 40)) (next_sequence (open_session 40) + of_nat (length ps)) (open_session 1)"
    by (simp add: accepts_frame_def note_options_def)
  from fragmented_payload_delivered [OF r [unfolded ps] _ _ _ open_session_inv g a arr, of True]
  show ?thesis by (simp add: r ps fields Let_def)
qed

end
