(* ===== verification/RudpTimers.thy ===== *)
theory RudpTimers
  imports RudpFragments
begin

text \<open>
  Reliability of \<open>src/rudp.rs\<close> over time: which packets \<open>due_resends\<close> sends again, how an
  entry can leave the resend queue, the three-way handshake, and the arithmetic limits of
  the sequence and fragment counters.
\<close>

section \<open>The resend queue under every call\<close>

text \<open>The packet with sequence \<open>q\<close> still waits, with an entry that satisfies \<open>R\<close>.\<close>

definition kept :: "u32 \<Rightarrow> (pending_reliable_packet \<Rightarrow> bool) \<Rightarrow> session \<Rightarrow> bool" where
  "kept q R s \<longleftrightarrow> (\<exists>e. map_of (pending_reliable s) q = Some e \<and> R e)"

lemma kept_fields [simp]:
  "kept q R (s\<lparr>connected := c\<rparr>) = kept q R s" "kept q R (s\<lparr>last_received_at_ms := t\<rparr>) = kept q R s"
  "kept q R (s\<lparr>next_sequence := n\<rparr>) = kept q R s" "kept q R (s\<lparr>next_fragment_id := f\<rparr>) = kept q R s"
  by (simp_all add: kept_def)

lemma kept_remember [simp]: "kept q R (remember_received r s) = kept q R s"
  by (subst remember_received_frame) (simp add: kept_def)

lemma kept_create:
  "create_packet_with_fragments t ch pl rel ord sq fid fi fc s = (r, s') \<Longrightarrow> kept q R s' = kept q R s"
  "create_packet t ch pl rel ord sq s = (r, s') \<Longrightarrow> kept q R s' = kept q R s"
  by (auto simp: create_packet_def create_packet_with_fragments_def Let_def split: option.splits prod.splits)

lemma kept_track:
  "kept q R s \<Longrightarrow> p_sequence p \<noteq> q \<Longrightarrow> kept q R (track_reliable opts p s)"
  "kept q R s \<Longrightarrow> p_sequence p \<noteq> q \<Longrightarrow> kept q R (track_if_reliable opts p s)"
  by (auto simp: kept_def track_if_reliable_def track_reliable_def Let_def)

lemma kept_purge:
  assumes "bt_wf (pending_reliable s)" "kept q R s" "\<And>e. R e \<Longrightarrow> not_expired t e"
  shows "kept q R (purge_expired_reliable t s)"
  using assms by (auto simp: kept_def purge_expired_reliable_def Let_def bt_get_retain split: option.splits)

lemma kept_create_track:
  assumes "kept q R s" "q < next_sequence s"
    and "create_packet_with_fragments t ch pl rel ord sq fid fi fc s = (Inr p, s1)"
  shows "kept q R (track_reliable opts p s1)" "kept q R (track_if_reliable opts p s1)"
    "q < next_sequence (track_reliable opts p s1)" "q < next_sequence (track_if_reliable opts p s1)"
proof -
  note c = create_packet_with_fragments_Inr [OF assms(3)]
  have "p_sequence p \<noteq> q" using c(4) assms(2) by auto
  moreover have "kept q R s1" using assms(1) kept_create(1) [OF assms(3)] by blast
  ultimately show "kept q R (track_reliable opts p s1)" "kept q R (track_if_reliable opts p s1)"
    by (simp_all add: kept_track)
  have "q < next_sequence s1" using assms(2) c(1,3) by simp
  then show "q < next_sequence (track_reliable opts p s1)" "q < next_sequence (track_if_reliable opts p s1)"
    by (simp_all add: track_if_reliable_def track_reliable_def Let_def)
qed

lemma kept_send_fragments:
  "kept q R s \<Longrightarrow> q < next_sequence s \<Longrightarrow>
   kept q R (snd (send_fragments ch pl opts maxb fid cnt idxs s))"
proof (induction idxs arbitrary: s)
  case (Cons i idxs)
  obtain r s1 where c: "create_packet_with_fragments Data ch (chunk maxb pl i) (o_reliable opts)
      (o_ordered opts) (o_sequenced opts) fid (of_nat i) (of_nat cnt) s = (r, s1)"
    by fastforce
  show ?case
  proof (cases r)
    case (Inl x)
    with c Cons.prems(1) kept_create(1) [OF c] show ?thesis
      by (simp add: Let_def chunk_def)
  next
    case (Inr p)
    note t = kept_create_track [OF Cons.prems c [unfolded Inr], of opts]
    from Cons.IH [OF t(2,4)] c Inr show ?thesis
      by (auto simp: Let_def chunk_def split: prod.splits sum.splits)
  qed
qed simp

lemma kept_wf: "session_inv s \<Longrightarrow> kept q R s \<Longrightarrow> bt_wf (pending_reliable s)"
  using session_invD(2) [of s] by (simp add: pending_inv_def)

lemma kept_below: "session_inv s \<Longrightarrow> kept q R s \<Longrightarrow> q < next_sequence s"
  using session_invD(2) [of s] by (auto simp: kept_def pending_inv_def list_all_iff pending_entry_ok_def dest!: map_of_SomeD)

lemma kept_send_many:
  assumes inv: "session_inv s" and s0: "kept q R s" and expiry: "\<And>e. R e \<Longrightarrow> not_expired (o_now_ms opts) e"
  shows "kept q R (snd (send_many ch pl opts maxb s))"
proof -
  let ?s1 = "purge_expired_reliable (o_now_ms opts) s"
  note wf = kept_wf [OF inv s0] and lt = kept_below [OF inv s0]
  have s1: "kept q R ?s1" by (rule kept_purge [OF wf s0 expiry])
  have lt1: "q < next_sequence ?s1" using lt by (simp add: purge_expired_reliable_def Let_def)
  have single: "kept q R (snd (send_single ch pl opts ?s1))"
  proof (cases "create_packet Data ch pl (o_reliable opts) (o_ordered opts) (o_sequenced opts) ?s1")
    case (Pair r s2)
    with kept_create(2) [OF Pair] s1
      kept_create_track(2) [OF s1 lt1, of Data ch pl "o_reliable opts" "o_ordered opts" "o_sequenced opts" 0 0 0]
    show ?thesis by (auto simp: send_single_def create_packet_def split: sum.splits)
  qed
  have "kept q R (snd (send_fragmented ch pl opts m ?s1))" for m
    using s1 lt1 by (auto simp: send_fragmented_def allocate_fragment_id_frame Let_def
        intro!: kept_send_fragments split: sum.splits)
  with single s0 s1 show ?thesis
    by (auto simp: send_many_def Let_def split: option.splits)
qed

lemma pending_drain: "pending_reliable (snd (drain_ordered ch s)) = pending_reliable s"
proof (induction s rule: drain_induct [where ch = ch])
  case (step s)
  have "pending_reliable s1 = pending_reliable s" if "drain_step ch s = Some (f, s1)" for f s1
    by (rule drain_step_SomeD [OF that]) simp
  with step show ?case
    by (subst drain_ordered_step) (fastforce split: option.splits prod.splits)
qed

lemma pending_receive_data: "pending_reliable (snd (receive_data oc p expected s)) = pending_reliable s"
proof -
  have deliver: "pending_reliable (snd (deliver_frame p expected c s)) = pending_reliable s" for c s
    by (auto simp: deliver_frame_def deliver_ordered_def Let_def split_beta pending_drain split: option.splits)
  have remember: "pending_reliable (remember_received r s) = pending_reliable s" for r
    by (subst remember_received_frame) simp
  obtain r s2 where r: "reassemble oc p (remember_received (p_sequence p) s) = (r, s2)" by fastforce
  have "pending_reliable s2 = pending_reliable s"
    using arg_cong [OF reassemble_frame [of oc p "remember_received (p_sequence p) s"], of pending_reliable] r remember
    by simp
  with r show ?thesis
    by (auto simp: receive_data_def Let_def split_beta deliver remember split: sum.splits option.splits)
qed

lemma kept_receive:
  assumes e: "kept q R s" and p: "p_connection_id p \<noteq> connection_id s \<or> \<not> acked p q"
  shows "kept q R (snd (receive oc p t s))"
proof (cases "p_connection_id p = connection_id s")
  case False
  with e show ?thesis by (simp add: receive_def require_connection_def)
next
  case True
  let ?s1 = "(apply_acknowledgements p s)\<lparr>last_received_at_ms := Some t\<rparr>"
  have "map_of (filter (\<lambda>e. \<not> acked p (fst e)) m) q = map_of m q" for m :: "(u32, pending_reliable_packet) btree"
    using p True by (induction m) auto
  then have s1: "kept q R ?s1"
    using e by (simp add: kept_def apply_acknowledgements_pending)
  have data: "kept q R (snd (receive_data oc p expected ?s1))" for expected
    using s1 by (simp add: kept_def pending_receive_data)
  show ?thesis
    using s1 data True
    by (auto simp: receive_def Let_def require_connection_def dest: kept_create(2)
        split: option.splits packet_type.splits prod.splits sum.splits)
qed

text \<open>The time at which a call purges expired packets, if it does.\<close>

fun purge_time :: "session_call \<Rightarrow> u64 option" where
  "purge_time (CallSend ch pl opts) = Some (o_now_ms opts)"
| "purge_time (CallSendMany ch pl opts maxb) = Some (o_now_ms opts)"
| "purge_time (CallDueResends t) = Some t"
| "purge_time _ = None"

lemma kept_update:
  assumes "kept q R s" "\<And>e. R e \<Longrightarrow> R (f e)"
  shows "kept q R (s\<lparr>pending_reliable := bt_update_values f (pending_reliable s)\<rparr>)"
  using assms by (auto simp: kept_def)

lemma kept_due_resends:
  assumes "bt_wf (pending_reliable s)" "kept q R s" "\<And>e. R e \<Longrightarrow> not_expired t e"
    and "\<And>e. R e \<Longrightarrow> R (e\<lparr>pr_last_sent_at_ms := t\<rparr>)"
  shows "kept q R (snd (due_resends t s))"
  by (simp add: due_resends_def Let_def kept_update kept_purge [OF assms(1-3)] assms(4))

lemma kept_control:
  assumes "kept q R s" "q < next_sequence s"
  shows "kept q R (snd (create_connect t pl s))" "kept q R (snd (accept_connect p t pl s))"
proof -
  have track: "kept q R (track_reliable opts x s2)"
    if "create_packet ty ''control'' pl True True False s1 = (Inr x, s2)" "kept q R s1" "q < next_sequence s1"
    for ty s1 s2 x opts
    using kept_create_track(1) [OF that(2,3), of ty "''control''" pl True True False 0 0 0 x s2] that(1)
    by (simp add: create_packet_def)
  show "kept q R (snd (create_connect t pl s))"
    using assms track kept_create(2)
    by (auto simp: create_connect_def split: sum.splits prod.splits)
  let ?s1 = "(remember_received (p_sequence p) s)\<lparr>last_received_at_ms := Some t, connected := True\<rparr>"
  have s1: "kept q R ?s1" "q < next_sequence ?s1"
    using assms by (simp, subst remember_received_frame, simp)
  obtain r s2 where r: "create_packet Accept ''control'' pl True True False ?s1 = (r, s2)" by fastforce
  from s1(1) kept_create(2) [OF r] have "kept q R s2" by blast
  moreover have "kept q R (track_reliable opts x s2)" if "r = Inr x" for x opts
    using track [OF r [unfolded that] s1] .
  ultimately show "kept q R (snd (accept_connect p t pl s))"
    using assms(1) r by (auto simp: accept_connect_def Let_def split: sum.splits prod.splits)
qed

lemma kept_step:
  assumes inv: "session_inv s" and s: "kept q R s" and c: "c \<noteq> CallReset"
    and ack: "\<And>p t. c = CallReceive p t \<Longrightarrow> p_connection_id p \<noteq> connection_id s \<or> \<not> acked p q"
    and expiry: "\<And>t e. purge_time c = Some t \<Longrightarrow> R e \<Longrightarrow> not_expired t e"
    and restart: "\<And>t e. c = CallDueResends t \<Longrightarrow> R e \<Longrightarrow> R (e\<lparr>pr_last_sent_at_ms := t\<rparr>)"
  shows "kept q R (snd (session_step oc c s))"
proof -
  note wf = kept_wf [OF inv s] and lt = kept_below [OF inv s]
  have create: "kept q R (snd (create_packet t ch pl rel ord sq s'))" if "kept q R s'"
    for t ch pl rel ord sq s'
    using that kept_create(2) by (metis prod.collapse)
  show ?thesis
  proof (cases c)
    case CallReset
    with c show ?thesis by simp
  next
    case (CallAssumeConnected t)
    with s show ?thesis by (simp add: assume_connected_def)
  next
    case (CallReceive p t)
    with ack kept_receive [OF s] show ?thesis by (simp add: split_beta)
  next
    case (CallSend ch pl opts)
    with expiry have "kept q R (snd (send_many ch pl opts None s))"
      by (intro kept_send_many [OF inv s]) simp
    with CallSend show ?thesis by (auto simp: send_def split: prod.splits sum.splits list.splits)
  next
    case (CallSendMany ch pl opts maxb)
    with expiry kept_send_many [OF inv s, of opts] show ?thesis by (simp add: split_beta)
  next
    case (CallDueResends t)
    with expiry restart kept_due_resends [OF wf s, of t] show ?thesis by (simp add: split_beta)
  next
    case (CallCheckTimeout t d)
    with s show ?thesis by (simp add: check_timeout_def split_beta split: option.splits)
  qed (use s create kept_control [OF s lt] in
      \<open>simp_all add: create_ack_def create_ping_def create_disconnect_def\<close>)
qed

section \<open>Resends\<close>

lemma sort_key_sorted: "sorted (map f xs) \<Longrightarrow> sort_key f xs = xs"
  by (rule sort_key_id_if_sorted)

definition due_entry :: "u64 \<Rightarrow> u64 \<Rightarrow> pending_reliable_packet \<Rightarrow> bool" where
  "due_entry now delay e \<longleftrightarrow> not_expired now e \<and> unat delay \<le> unat now - unat (pr_last_sent_at_ms e)"

lemma resend_is_due_iff: "resend_is_due now delay e \<longleftrightarrow> unat delay \<le> unat now - unat (pr_last_sent_at_ms e)"
  by (simp add: resend_is_due_def word_le_nat_alt unat_saturating_sub)

lemma due_resends_fields:
  assumes inv: "session_inv s"
  shows "fst (due_resends now s)
      = map (pr_packet \<circ> snd) (filter (\<lambda>(q, e). due_entry now (resend_delay_ms s) e) (pending_reliable s))"
    and "pending_reliable (snd (due_resends now s))
      = map (\<lambda>(q, e). (q, if due_entry now (resend_delay_ms s) e then e\<lparr>pr_last_sent_at_ms := now\<rparr> else e))
          (filter (\<lambda>(q, e). not_expired now e) (pending_reliable s))"
proof -
  let ?alive = "filter (\<lambda>p. not_expired now (snd p)) (pending_reliable s)"
  let ?due = "\<lambda>e. resend_is_due now (resend_delay_ms s) e"
  have eq: "purge_expired_reliable now s = s\<lparr>pending_reliable := ?alive,
      reliable_packets_expired := reliable_packets_expired (purge_expired_reliable now s)\<rparr>"
    by (simp add: purge_expired_reliable_def Let_def bt_retain_def)
  have keys: "map p_sequence (map (pr_packet \<circ> snd) m) = bt_keys m"
    if "\<And>x. x \<in> set m \<Longrightarrow> p_sequence (pr_packet (snd x)) = fst x"
    for m :: "(u32, pending_reliable_packet) btree"
    using that by simp
  have "sorted (bt_keys (filter P (pending_reliable s)))" for P
    using session_invD(2) [OF inv] bt_wf_filter [of "pending_reliable s" P]
    by (simp add: pending_inv_def bt_wf_def strict_sorted_iff)
  moreover have "p_sequence (pr_packet (snd x)) = fst x" if "x \<in> set (filter P (pending_reliable s))" for x P
    using session_invD(2) [OF inv] that by (auto simp: pending_inv_def list_all_iff pending_entry_ok_def)
  ultimately have sorted: "sorted (map p_sequence (map (pr_packet \<circ> snd) (filter P (pending_reliable s))))" for P
    using keys by metis
  have delay: "resend_delay_ms (purge_expired_reliable now s) = resend_delay_ms s"
      "pending_reliable (purge_expired_reliable now s) = ?alive"
    by (simp_all add: purge_expired_reliable_def Let_def bt_retain_def)
  have vals: "map pr_packet (filter ?due (bt_values ?alive))
      = map (pr_packet \<circ> snd) (filter (\<lambda>(q, e). due_entry now (resend_delay_ms s) e) (pending_reliable s))"
    by (simp add: filter_map comp_def due_entry_def resend_is_due_iff case_prod_unfold conj_commute)
  show "fst (due_resends now s)
      = map (pr_packet \<circ> snd) (filter (\<lambda>(q, e). due_entry now (resend_delay_ms s) e) (pending_reliable s))"
    using sort_key_sorted [OF sorted] by (simp add: due_resends_def Let_def delay vals)
  show "pending_reliable (snd (due_resends now s))
      = map (\<lambda>(q, e). (q, if due_entry now (resend_delay_ms s) e then e\<lparr>pr_last_sent_at_ms := now\<rparr> else e))
          (filter (\<lambda>(q, e). not_expired now e) (pending_reliable s))"
    by (auto simp: due_resends_def Let_def delay bt_update_values_def due_entry_def resend_is_due_iff
        case_prod_unfold)
qed

section \<open>Creating a packet succeeds\<close>

lemma create_packet_ok:
  assumes "unat (next_sequence s) + 1 < 2 ^ 32"
  obtains p where "create_packet t ch pl rel ord sq s = (Inr p, s\<lparr>next_sequence := next_sequence s + 1\<rparr>)"
    "p_sequence p = next_sequence s" "p_type p = t" "p_connection_id p = connection_id s"
    "p_ack p = highest_or_zero s" "p_reliable p = rel"
proof -
  obtain r s' where c: "create_packet t ch pl rel ord sq s = (r, s')" by fastforce
  have "\<exists>p. r = Inr p"
    using c assms by (auto simp: create_packet_def create_packet_with_fragments_def checked_add_def
        Let_def split: prod.splits)
  then obtain p where p: "r = Inr p" by blast
  note f = create_packet_Inr [OF c [unfolded p]]
  have "p_ack p = highest_or_zero s"
    using f(15) ack_state_fst [of s] by (metis ack_state_next_sequence fst_conv)
  with f c p show thesis by (intro that) simp_all
qed

lemma ack_removes_only_entry: "p_ack p = q \<Longrightarrow> pending_reliable s = [(q, e)] \<Longrightarrow>
    pending_reliable (apply_acknowledgements p s) = []"
  by (simp add: apply_acknowledgements_pending acked_def)

lemma fragment_id_create:
  "create_packet_with_fragments t ch pl rel ord sq fid fi fc s = (r, s') \<Longrightarrow> next_fragment_id s' = next_fragment_id s"
  by (auto simp: create_packet_with_fragments_def Let_def split: option.splits prod.splits)

lemma fragment_id_send_fragments:
  "next_fragment_id (snd (send_fragments ch pl opts maxb fid cnt idxs s)) = next_fragment_id s"
proof (induction idxs arbitrary: s)
  case (Cons i idxs)
  have track: "next_fragment_id (track_if_reliable opts p s) = next_fragment_id s" for p s
    by (simp add: track_if_reliable_def track_reliable_def Let_def)
  show ?case
    by (auto simp: Let_def split: prod.splits sum.splits)
       (metis Cons.IH fragment_id_create snd_conv track)+
qed simp

section \<open>Claims\<close>

definition survives :: "u32 \<Rightarrow> pending_reliable_packet \<Rightarrow> session \<Rightarrow> bool" where
  "survives q e s \<longleftrightarrow> (\<exists>e'. map_of (pending_reliable s) q = Some e'
     \<and> pr_packet e' = pr_packet e \<and> pr_expires_at_ms e' = pr_expires_at_ms e)"

text \<open>
  Reliable packets are not lost from the queue: whatever call is made next, a packet that
  waits for its acknowledgement still waits with the same content and expiry afterwards,
  unless the session was reset, the call received a packet of this connection that
  acknowledges it, or the call purged it because its time had expired.\<close>

theorem reliable_packet_kept:
  assumes "session_inv s" and "map_of (pending_reliable s) q = Some e"
  shows "survives q e (snd (session_step oc c s)) \<or> c = CallReset
    \<or> (\<exists>p t. c = CallReceive p t \<and> p_connection_id p = connection_id s \<and> acked p q)
    \<or> (\<exists>t. purge_time c = Some t \<and> \<not> not_expired t e)"
proof -
  have "kept q (\<lambda>e'. pr_packet e' = pr_packet e \<and> pr_expires_at_ms e' = pr_expires_at_ms e) s"
    using assms(2) by (simp add: kept_def)
  from kept_step [OF assms(1) this, of c oc] show ?thesis
    by (fastforce simp: survives_def kept_def not_expired_def)
qed

theorem reliable_packet_kept_witness:
  "\<exists>e. map_of (pending_reliable ack_sender_two) 11 = Some e
   \<and> survives 11 e (snd (session_step True (CallCheckTimeout 9000 10) ack_sender_two))"
proof -
  have calls: "ack_sender_two = snd (run_ops (session_step True)
      [CallSend ''schema'' [0] ack_options, CallSend ''schema'' [1] ack_options, CallSend ''schema'' [2] ack_options]
      ack_sender)"
    by (simp add: ack_sender_two_def Let_def split_beta)
  have "session_inv ack_sender" by (simp add: ack_sender_def session_inv_new)
  then have inv: "session_inv ack_sender_two"
    unfolding calls by (rule session_machine.run_inv_total) simp
  have "map_of (pending_reliable ack_sender_two) 11 \<noteq> None" by code_simp
  then obtain e where e: "map_of (pending_reliable ack_sender_two) 11 = Some e" by blast
  from reliable_packet_kept [OF inv e, of True "CallCheckTimeout 9000 10"] e show ?thesis by auto
qed

text \<open>
  Resends are exact: on a session that satisfies the invariant, \<open>due_resends\<close> returns, in order
  of their sequences, exactly the waiting packets that have not expired and whose last
  transmission is at least the resend delay ago; it removes the expired entries from the
  queue, restarts the clock of the returned ones, and leaves all other entries alone.\<close>

theorem due_resends_exact:
  assumes "session_inv s"
  shows "fst (due_resends now s)
      = map (pr_packet \<circ> snd) (filter (\<lambda>(q, e). due_entry now (resend_delay_ms s) e) (pending_reliable s))
    \<and> pending_reliable (snd (due_resends now s))
      = map (\<lambda>(q, e). (q, if due_entry now (resend_delay_ms s) e then e\<lparr>pr_last_sent_at_ms := now\<rparr> else e))
          (filter (\<lambda>(q, e). not_expired now e) (pending_reliable s))"
  using due_resends_fields [OF assms] by blast

theorem due_resends_exact_witness:
  "fst (due_resends 300 (snd (create_connect 0 [] (session_new default_session_options)))) \<noteq> []
   \<and> fst (due_resends 300 (snd (create_connect 0 [] (session_new default_session_options))))
     = map (pr_packet \<circ> snd) (filter (\<lambda>(q, e). due_entry 300 250 e)
         (pending_reliable (snd (create_connect 0 [] (session_new default_session_options)))))"
proof -
  let ?s = "snd (create_connect 0 [] (session_new default_session_options))"
  have "resend_delay_ms ?s = 250" "fst (due_resends 300 ?s) \<noteq> []" by code_simp+
  with due_resends_exact [OF session_inv_create_connect [OF session_inv_new], of 300 0 "[]" default_session_options]
  show ?thesis by simp
qed

definition handshake_ready :: "session_options \<Rightarrow> bool" where
  "handshake_ready opts \<longleftrightarrow> unat (so_initial_sequence opts) < 2 ^ 32 - 3
     \<and> (case so_max_pending_reliable_packets opts of None \<Rightarrow> True | Some l \<Rightarrow> 0 < l)"

definition handshake :: "bool \<Rightarrow> session_options \<Rightarrow> session_options \<Rightarrow> u64 \<Rightarrow> bytes \<Rightarrow> bytes
    \<Rightarrow> (session \<times> session) option" where
  "handshake oc client server now hello greeting =
     (case create_connect now hello (session_new client) of
        (Inr connect, c1) \<Rightarrow>
          (case accept_connect connect now greeting (session_new server) of
             (Inr accept, s1) \<Rightarrow>
               (case receive oc accept now c1 of
                  (Inr _, c2) \<Rightarrow>
                    (case create_ack c2 of
                       (Inr ack, c3) \<Rightarrow>
                         (case receive oc ack now s1 of (Inr _, s2) \<Rightarrow> Some (c3, s2) | _ \<Rightarrow> None)
                     | _ \<Rightarrow> None)
                | _ \<Rightarrow> None)
           | _ \<Rightarrow> None)
      | _ \<Rightarrow> None)"

text \<open>C32.
  The handshake completes: two fresh sessions of one connection, each with room for a
  reliable packet and sequences left. The client's Connect accepted by the server, the
  server's Accept received by the client and the client's Ack received by the server leave
  both sides connected with nothing waiting in either resend queue.\<close>

theorem handshake_completes:
  assumes "handshake_ready client" and "handshake_ready server"
    and "so_connection_id client = so_connection_id server"
  shows "case handshake oc client server now hello greeting of None \<Rightarrow> False
    | Some (c, s) \<Rightarrow> connected c \<and> connected s \<and> pending_reliable c = [] \<and> pending_reliable s = []"
proof -
  let ?c0 = "session_new client" and ?s0 = "session_new server"
  let ?a = "so_initial_sequence client" and ?b = "so_initial_sequence server"
  have room: "ensure_reliable_capacity 1 ?c0 = Inr ()" "ensure_reliable_capacity 1 ?s0 = Inr ()"
    and a: "unat ?a < 2 ^ 32 - 3" and b: "unat ?b < 2 ^ 32 - 3"
    using assms(1,2)
    by (auto simp: handshake_ready_def ensure_reliable_capacity_def session_new_def split: option.splits)
  have ua: "unat (?a + 1) = unat ?a + 1"
    using a by (subst unat_add_no_overflow) simp_all
  obtain connect where connect: "create_packet Connect ''control'' hello True True False ?c0
        = (Inr connect, ?c0\<lparr>next_sequence := next_sequence ?c0 + 1\<rparr>)"
      "p_sequence connect = ?a" "p_type connect = Connect" "p_connection_id connect = so_connection_id client"
    using create_packet_ok [of ?c0 Connect "''control''" hello True True False] a
    by (auto simp: session_new_def)
  define c1 where "c1 = track_reliable (control_send_options now) connect (?c0\<lparr>next_sequence := next_sequence ?c0 + 1\<rparr>)"
  have c1: "create_connect now hello ?c0 = (Inr connect, c1)"
    using room connect(1) by (simp add: create_connect_def c1_def)
  let ?s0' = "(remember_received ?a ?s0)\<lparr>last_received_at_ms := Some now, connected := True\<rparr>"
  have s0': "next_sequence ?s0' = ?b" "connection_id ?s0' = so_connection_id server"
      "highest_or_zero ?s0' = ?a" "highest_received_sequence ?s0' = Some ?a" "pending_reliable ?s0' = []"
    by (simp_all add: remember_received_def session_new_def highest_or_zero_def)
  obtain accept where accept: "create_packet Accept ''control'' greeting True True False ?s0'
        = (Inr accept, ?s0'\<lparr>next_sequence := next_sequence ?s0' + 1\<rparr>)"
      "p_sequence accept = ?b" "p_type accept = Accept" "p_connection_id accept = so_connection_id server"
      "p_ack accept = ?a"
    using create_packet_ok [of "?s0'" Accept "''control''" greeting True True False] b s0' by auto
  define s1 where "s1 = track_reliable (control_send_options now) accept (?s0'\<lparr>next_sequence := next_sequence ?s0' + 1\<rparr>)"
  have "\<not> connected ?s0" "connection_id ?s0 = so_connection_id server" by (simp_all add: session_new_def)
  then have s1: "accept_connect connect now greeting ?s0 = (Inr accept, s1)"
    using room connect accept(1) assms(3)
    by (simp add: accept_connect_def require_connection_def s1_def)
  have c1f: "connection_id c1 = so_connection_id client" "highest_received_sequence c1 = None"
      "next_sequence c1 = ?a + 1" "\<exists>e. pending_reliable c1 = [(?a, e)]"
    by (simp_all add: c1_def track_reliable_def Let_def session_new_def connect(2))
  then obtain e where e: "pending_reliable c1 = [(?a, e)]" by blast
  define c2 where "c2 = (remember_received ?b ((apply_acknowledgements accept c1)\<lparr>last_received_at_ms := Some now\<rparr>))
    \<lparr>connected := True\<rparr>"
  have ack_high: "highest_received_sequence (apply_acknowledgements p s) = highest_received_sequence s" for p s
    by (simp add: apply_acknowledgements_def)
  have c2: "receive oc accept now c1 = (Inr empty_result, c2)"
    using accept assms(3) c1f(1,2) by (simp add: receive_def require_connection_def ack_high c2_def)
  have c2f: "next_sequence c2 = ?a + 1" "connection_id c2 = so_connection_id client" "highest_or_zero c2 = ?b"
      "pending_reliable c2 = []" "connected c2"
    using c1f ack_removes_only_entry [OF accept(5) e]
    by (simp_all add: c2_def remember_received_def highest_or_zero_def ack_high)
       (simp_all add: apply_acknowledgements_def)
  obtain ack where ack: "create_ack c2 = (Inr ack, c2\<lparr>next_sequence := next_sequence c2 + 1\<rparr>)"
      "p_type ack = Ack" "p_connection_id ack = so_connection_id client" "p_ack ack = ?b"
    using create_packet_ok [of c2 Ack "''control''" "[]" False False False] ua a c2f
    by (auto simp: create_ack_def)
  have s1f: "connection_id s1 = so_connection_id server" "highest_received_sequence s1 = Some ?a"
      "\<exists>e. pending_reliable s1 = [(?b, e)]" "connected s1"
    using s0' by (simp_all add: s1_def track_reliable_def Let_def accept(2))
  then obtain e' where e': "pending_reliable s1 = [(?b, e')]" by blast
  define s2 where "s2 = remember_received (p_sequence ack) ((apply_acknowledgements ack s1)\<lparr>last_received_at_ms := Some now\<rparr>)"
  have s2: "receive oc ack now s1 = (Inr empty_result, s2)"
    using ack assms(3) s1f(1,2) a
    by (simp add: receive_def require_connection_def ack_high s2_def rust_add_def)
  have "pending_reliable s2 = []" "connected s2"
    using ack_removes_only_entry [OF ack(4) e'] s1f(4)
    by (simp_all add: s2_def remember_received_def Let_def) (simp add: apply_acknowledgements_def)
  with c2f show ?thesis by (simp add: handshake_def c1 s1 c2 ack(1) s2)
qed

theorem handshake_completes_witness:
  "case handshake True default_session_options (default_session_options\<lparr>so_initial_sequence := 500\<rparr>) 7 [1] [2] of
     None \<Rightarrow> False
   | Some (c, s) \<Rightarrow> connected c \<and> connected s \<and> pending_reliable c = [] \<and> pending_reliable s = []"
  by (rule handshake_completes) (simp_all add: handshake_ready_def default_session_options_def)

text \<open>
  One packet with the highest sequence number disables a session built with overflow checks:
  after an Ack or Pong of the connection carrying sequence 4294967295 was received, every
  later packet of the connection, whatever its type and content, panics in \<open>receive\<close>, where the
  expected sequence is computed as the highest received one plus one.\<close>

theorem highest_sequence_disables_receive:
  assumes "p_connection_id p = connection_id s" and "p_sequence p = - 1"
    and "p_type p \<in> {Ack, Pong}" and "highest_received_sequence s \<noteq> Some (- 1)"
    and "p_connection_id later = connection_id s"
  shows "fst (receive True later t' (snd (receive True p t s))) = Inl PanicArithmeticOverflow"
proof -
  let ?s1 = "(apply_acknowledgements p s)\<lparr>last_received_at_ms := Some t\<rparr>"
  let ?s2 = "remember_received (- 1) ?s1"
  have high1: "highest_received_sequence ?s1 = highest_received_sequence s"
    by (simp add: apply_acknowledgements_def)
  have "rust_add True h 1 \<noteq> None" if "highest_received_sequence s = Some h" for h
  proof -
    have "h \<noteq> - 1" using that assms(4) by auto
    then have "unat h \<noteq> unat (- 1 :: u32)" by (metis unsigned_word_eqI)
    then have "unat h \<noteq> 2 ^ 32 - 1" by (simp only: unat_max_word) simp
    then show ?thesis using unat_less_exp [of h] by (simp add: rust_add_def)
  qed
  then have "\<exists>e. (case highest_received_sequence ?s1 of None \<Rightarrow> Some (p_sequence p) | Some h \<Rightarrow> rust_add True h 1) = Some e"
    unfolding high1 by (auto split: option.splits)
  then have r: "snd (receive True p t s) = ?s2"
    using assms(1-3) by (auto simp: receive_def require_connection_def)
  have high2: "highest_received_sequence (apply_acknowledgements q ?s2) = Some (- 1)" for q
    by (auto simp: apply_acknowledgements_def highest_remember max_def word_order.extremum_unique
        split: option.splits)
  have "connection_id ?s2 = connection_id s"
    by (subst remember_received_frame) (simp add: apply_acknowledgements_def)
  then show ?thesis
    unfolding r using assms(5) high2 [of later]
    by (simp add: receive_def require_connection_def rust_add_def unat_max_word Let_def)
qed

definition last_pong :: packet where
  "last_pong = (plain_data ''control'' (- 1) False False [])\<lparr>p_type := Pong\<rparr>"

theorem highest_sequence_disables_receive_witness:
  "fst (receive True last_pong 3 (open_session 1)) = Inr (empty_result\<lparr>rr_pong := True\<rparr>)
   \<and> fst (receive True (plain_data ''doc'' 5 True False [1]) 4 (snd (receive True last_pong 3 (open_session 1))))
     = Inl PanicArithmeticOverflow"
proof
  show "fst (receive True last_pong 3 (open_session 1)) = Inr (empty_result\<lparr>rr_pong := True\<rparr>)" by code_simp
  show "fst (receive True (plain_data ''doc'' 5 True False [1]) 4 (snd (receive True last_pong 3 (open_session 1))))
     = Inl PanicArithmeticOverflow"
    by (rule highest_sequence_disables_receive)
       (simp_all add: last_pong_def plain_data_def open_session_def assume_connected_def session_new_def
         default_session_options_def)
qed

text \<open>
  A peer that has received nothing acknowledges sequence 0: the ack field of its packets is 0
  and not marked as empty, so the sender drops a reliable packet with sequence 0 (which an
  initial sequence of 0 allows) from its resend queue although the peer never got it.\<close>

theorem nothing_received_acks_zero:
  assumes "highest_received_sequence r = None" and "create_ack r = (Inr a, r')"
    and "connection_id r = connection_id s"
    and "receive oc a t s = (Inr res, s')"
  shows "map_of (pending_reliable s') 0 = None"
proof -
  note c = create_packet_Inr [OF assms(2) [unfolded create_ack_def]]
  have "p_ack a = 0"
    using c(15) ack_state_fst [of r] assms(1) by (metis ack_state_next_sequence fst_conv highest_or_zero_def option.simps(4))
  then have acked: "acked a 0" by (simp add: acked_def)
  have "pending_reliable s' = pending_reliable (apply_acknowledgements a s)"
    using assms(4) c(5)
    by (auto simp: receive_def Let_def remember_received_def split: sum.splits option.splits if_splits)
  then show ?thesis
    using acked by (auto simp: apply_acknowledgements_pending map_of_eq_None_iff)
qed

theorem nothing_received_acks_zero_witness:
  "let s = snd (send ''doc'' [9] note_options (open_session 0)) in
     pending_reliable_sequences s = [0]
     \<and> map_of (pending_reliable (snd (receive True (projr (fst (create_ack (open_session 1)))) 2 s))) 0 = None"
proof -
  let ?s = "snd (send ''doc'' [9] note_options (open_session 0))"
  let ?a = "create_ack (open_session 1)"
  have facts: "pending_reliable_sequences ?s = [0]" "highest_received_sequence (open_session 1) = None"
      "connection_id (open_session 1) = connection_id ?s"
      "is_ok (fst ?a)" "is_ok (fst (receive True (projr (fst ?a)) 2 ?s))"
    by code_simp+
  obtain a r' where a: "?a = (Inr a, r')" using facts(4) by (cases ?a) (auto simp: is_ok_iff)
  obtain res s' where r: "receive True a 2 ?s = (Inr res, s')"
    using facts(5) a by (cases "receive True a 2 ?s") (auto simp: is_ok_iff)
  from nothing_received_acks_zero [OF facts(2) a facts(3) r] facts(1) show ?thesis
    by (simp add: a r Let_def)
qed

text \<open>
  Fragment ids do not wrap around: \<open>allocate_fragment_id\<close> saturates at 65535, and the branch that
  restarts at 1 is never taken. From then on every fragmented payload of the session is sent
  under id 65535, and the counter stays there.\<close>

theorem fragment_ids_saturate:
  assumes "next_fragment_id s = 65535" and "maxb < length payload"
    and "send_many ch payload opts (Some maxb) s = (Inr ps, s')"
  shows "next_fragment_id s' = 65535 \<and> list_all (\<lambda>p. p_fragment_id p = 65535) ps"
proof -
  let ?s1 = "purge_expired_reliable (o_now_ms opts) s" and ?n = "div_ceil (length payload) maxb"
  have fid1: "next_fragment_id ?s1 = 65535"
    using assms(1) by (simp add: purge_expired_reliable_def Let_def)
  have "send_fragments ch payload opts maxb (next_fragment_id ?s1) ?n [0..<?n]
      (?s1\<lparr>next_fragment_id := saturating_add (next_fragment_id ?s1) 1\<rparr>) = (Inr ps, s')"
    using assms(2,3) by (auto simp: send_many_def send_fragmented_def Let_def allocate_fragment_id_frame
        split: if_splits sum.splits)
  then have "next_fragment_id s' = saturating_add 65535 1"
    using fragment_id_send_fragments [of ch payload opts maxb "next_fragment_id ?s1" ?n "[0..<?n]"
      "?s1\<lparr>next_fragment_id := saturating_add (next_fragment_id ?s1) 1\<rparr>"] fid1 by simp
  moreover have "saturating_add 65535 1 = (65535 :: u16)" by code_simp
  moreover have "list_all (\<lambda>p. p_fragment_id p = 65535) ps"
    using send_fragmented_nth(1,6) [OF assms(3,2)] assms(1) by (simp add: list_all_length fragment_packet_def)
  ultimately show ?thesis by simp
qed

text \<open>
  With the same id, fragments of two payloads of a channel end up in one set: here the first
  fragment of one and the second of the other arrive, and a mixture of both is delivered.
\<close>

definition old_session :: session where
  "old_session = (open_session 40)\<lparr>next_fragment_id := 65535\<rparr>"

definition mixed_first :: "(rudp_error + packet list) \<times> session" where
  "mixed_first = send_many ''note'' [1, 2] note_options (Some 1) old_session"

definition mixed_second :: "(rudp_error + packet list) \<times> session" where
  "mixed_second = send_many ''note'' [3, 4] note_options (Some 1) (snd mixed_first)"

theorem fragment_ids_saturate_witness:
  "next_fragment_id (snd mixed_first) = 65535
   \<and> list_all (\<lambda>p. p_fragment_id p = 65535) (projr (fst mixed_first))
   \<and> map df_payload (deliveries True (\<lambda>_. True)
        [CallReceive (projr (fst mixed_first) ! 0) 1, CallReceive (projr (fst mixed_second) ! 1) 2] (open_session 1))
     = [[1, 4]]"
proof -
  have "next_fragment_id old_session = 65535" by (simp add: old_session_def)
  moreover have "is_ok (fst mixed_first)" by code_simp
  then obtain ps s' where r: "mixed_first = (Inr ps, s')"
    by (metis is_ok_iff prod.collapse)
  ultimately have "next_fragment_id s' = 65535 \<and> list_all (\<lambda>p. p_fragment_id p = 65535) ps"
    by (intro fragment_ids_saturate [OF _ _ r [unfolded mixed_first_def]]) simp_all
  then have "next_fragment_id (snd mixed_first) = 65535 \<and> list_all (\<lambda>p. p_fragment_id p = 65535) (projr (fst mixed_first))"
    by (simp add: r)
  moreover have "map df_payload (deliveries True (\<lambda>_. True)
        [CallReceive (projr (fst mixed_first) ! 0) 1, CallReceive (projr (fst mixed_second) ! 1) 2] (open_session 1))
     = [[1, 4]]"
    by code_simp
  ultimately show ?thesis by blast
qed

end
