(* ===== verification/RudpTransport.thy ===== *)
theory RudpTransport
  imports RudpSocket RudpTimers "HOL-Library.Sublist"
begin

text \<open>
  Properties of the socket transport of theory \<open>RudpSocket\<close>. Every call on the socket is a list
  of calls on its session, so the invariant and the delivery guarantees of the session hold of
  whatever the socket does; the frames handed to the application are the session's deliveries.
  The later sections are about who may speak to a socket, the advertised channels and the
  acknowledgements the socket sends or fails to send.
\<close>

section \<open>Calls on a socket\<close>

datatype 'a socket_call =
    SockAssumeConnected u64
  | SockConnect u64 bytes
  | SockSend u64 string bytes
  | SockDisconnect bytes
  | SockPing bytes
  | SockCheckTimeout u64 u64
  | SockReceive u64 "'a incoming"
  | SockPollResends u64
  | SockPopPong

datatype socket_answer =
    SockUnit
  | SockDone "rudp_error + unit"
  | SockTimedOut bool
  | SockReceived "rudp_error + transport_frame option"
  | SockPong "bytes option"

fun socket_step :: "bool \<Rightarrow> 'a net \<Rightarrow> 'a socket_call \<Rightarrow> 'a socket \<Rightarrow> socket_answer \<times> 'a socket" where
  "socket_step oc net (SockAssumeConnected t) c = (SockUnit, socket_assume_connected t c)"
| "socket_step oc net (SockConnect t payload) c = map_prod SockDone id (socket_connect net t payload c)"
| "socket_step oc net (SockSend t ch payload) c = map_prod SockDone id (socket_send net t ch payload c)"
| "socket_step oc net (SockDisconnect reason) c = map_prod SockDone id (socket_disconnect net reason c)"
| "socket_step oc net (SockPing payload) c = map_prod SockDone id (socket_ping net payload c)"
| "socket_step oc net (SockCheckTimeout t d) c = map_prod SockTimedOut id (socket_check_timeout t d c)"
| "socket_step oc net (SockReceive t incoming) c = map_prod SockReceived id (receive_once oc net t incoming c)"
| "socket_step oc net (SockPollResends t) c = map_prod SockDone id (poll_resends net t c)"
| "socket_step oc net SockPopPong c = map_prod SockPong id (pop_pong_payload c)"

text \<open>The frames the application got, and whether a receive failed.\<close>

fun frames_in :: "socket_answer \<Rightarrow> transport_frame list" where
  "frames_in (SockReceived (Inr (Some f))) = [f]"
| "frames_in _ = []"

fun receive_failed :: "socket_answer \<Rightarrow> bool" where
  "receive_failed (SockReceived (Inl e)) = True"
| "receive_failed _ = False"

definition handed_out :: "socket_answer list \<Rightarrow> transport_frame list" where
  "handed_out answers = concat (map frames_in answers)"

section \<open>The session behind the socket\<close>

definition drives :: "bool \<Rightarrow> session_call list \<Rightarrow> 'a socket \<Rightarrow> transport_frame list \<Rightarrow> 'a socket \<Rightarrow> bool" where
  "drives oc calls c frames c' \<longleftrightarrow>
     sk_session c' = snd (run_ops (session_step oc) calls (sk_session c))
     \<and> frames = map transport_frame_of (deliveries oc (\<lambda>_. True) calls (sk_session c))"

lemma deliveries_append:
  "deliveries oc P (xs @ ys) s = deliveries oc P xs s @ deliveries oc P ys (snd (run_ops (session_step oc) xs s))"
  by (induction xs arbitrary: s) (simp_all add: Let_def split_beta)

lemma drives_append:
  "drives oc xs c f c1 \<Longrightarrow> drives oc ys c1 g c2 \<Longrightarrow> drives oc (xs @ ys) c (f @ g) c2"
  by (simp add: drives_def run_ops_append deliveries_append Let_def split_beta)

lemma drives_none: "sk_session c' = sk_session c \<Longrightarrow> drives oc [] c [] c'"
  by (simp add: drives_def)

lemma drives_one:
  "sk_session c' = snd (session_step oc call (sk_session c)) \<Longrightarrow>
   drives oc [call] c (map transport_frame_of (step_frames oc (\<lambda>_. True) call (sk_session c))) c'"
  by (simp add: drives_def Let_def split_beta)

lemma drives_quiet:
  "sk_session c' = snd (session_step oc call (sk_session c)) \<Longrightarrow>
   step_frames oc (\<lambda>_. True) call (sk_session c) = [] \<Longrightarrow> drives oc [call] c [] c'"
  using drives_one [of c' oc call c] by simp

named_theorems socket_frame

lemma send_packet_frame [socket_frame]:
  "sk_session (snd (send_packet net p c)) = sk_session c"
  "sk_delivered_frames (snd (send_packet net p c)) = sk_delivered_frames c"
  "sk_mode (snd (send_packet net p c)) = sk_mode c"
  "sk_remote_addr (snd (send_packet net p c)) = sk_remote_addr c"
  by (simp_all add: send_packet_def Let_def split: option.splits sum.splits)

lemma send_packets_frame [socket_frame]:
  "sk_session (snd (send_packets net ps c)) = sk_session c"
  "sk_delivered_frames (snd (send_packets net ps c)) = sk_delivered_frames c"
proof -
  have "sk_session (snd (send_packets net ps c)) = sk_session c
      \<and> sk_delivered_frames (snd (send_packets net ps c)) = sk_delivered_frames c"
  proof (induction ps arbitrary: c)
    case (Cons p ps)
    then show ?case
      using send_packet_frame(1,2) [of net p c] by (auto split: prod.splits sum.splits)
  qed simp
  then show "sk_session (snd (send_packets net ps c)) = sk_session c"
    "sk_delivered_frames (snd (send_packets net ps c)) = sk_delivered_frames c" by auto
qed

lemma send_created_frame [socket_frame]:
  "sk_session (snd (send_created net create c)) = snd (create (sk_session c))"
  "sk_delivered_frames (snd (send_created net create c)) = sk_delivered_frames c"
  by (auto simp: send_created_def socket_frame split: prod.splits sum.splits)

lemma socket_send_frame [socket_frame]:
  "sk_session (snd (socket_send net t ch payload c))
     = snd (send_many ch payload (channel_send_options c ch t) (sk_max_fragment_bytes c) (sk_session c))"
  "sk_delivered_frames (snd (socket_send net t ch payload c)) = sk_delivered_frames c"
  using send_packets_frame [of net _ "c\<lparr>sk_session := _\<rparr>"]
  by (auto simp: socket_send_def split: prod.splits sum.splits) (metis snd_conv socket.select_convs socket.simps)+

section \<open>One call\<close>

text \<open>
  What the answer and the next state of a call owe to the session: the frames delivered go to the
  end of the queue and the answer takes its front; a receive that fails has dropped that front.
\<close>

definition accounted :: "bool \<Rightarrow> 'a socket \<Rightarrow> socket_answer \<times> 'a socket \<Rightarrow> bool" where
  "accounted oc c result \<longleftrightarrow> (\<exists>calls frames. drives oc calls c frames (snd result)
     \<and> (if receive_failed (fst result)
        then sk_delivered_frames (snd result) = tl (sk_delivered_frames c @ frames)
        else frames_in (fst result) @ sk_delivered_frames (snd result) = sk_delivered_frames c @ frames))"

lemma accounted_quiet:
  assumes "sk_session c' = snd (session_step oc call (sk_session c))"
    "step_frames oc (\<lambda>_. True) call (sk_session c) = []"
    "sk_delivered_frames c' = sk_delivered_frames c" "frames_in out = []"
    "receive_failed out \<Longrightarrow> sk_delivered_frames c = []"
  shows "accounted oc c (out, c')"
  unfolding accounted_def
  by (rule exI [of _ "[call]"], rule exI [of _ "[]"]) (use assms in \<open>simp add: drives_quiet\<close>)

lemma accounted_unchanged:
  assumes "sk_session c' = sk_session c" "sk_delivered_frames c' = sk_delivered_frames c" "frames_in out = []"
    "receive_failed out \<Longrightarrow> sk_delivered_frames c = []"
  shows "accounted oc c (out, c')"
  unfolding accounted_def
  by (rule exI [of _ "[]"], rule exI [of _ "[]"]) (use assms in \<open>simp add: drives_none\<close>)

text \<open>A packet that is answered or that ends the connection delivers nothing.\<close>

lemma receive_quiet:
  assumes "receive oc p t s = (Inr r, s')" "rr_reply r \<noteq> None \<or> rr_disconnected r"
  shows "rr_delivered r = []"
proof -
  have "rr_reply r' = None \<and> \<not> rr_disconnected r'" if "receive_data oc p expected s1 = (Inr r', s2)" for expected s1 s2 r'
    using that by (auto simp: receive_data_def deliver_frame_def Let_def split_beta empty_result_def
        split: sum.splits option.splits prod.splits if_splits)
  with assms show ?thesis
    by (auto simp: receive_def Let_def empty_result_def split: sum.splits option.splits packet_type.splits prod.splits)
qed

lemma hand_out_accounted:
  assumes d: "drives oc calls c (map transport_frame_of (rr_delivered r)) c1"
    and q: "sk_delivered_frames c1 = []" "sk_delivered_frames c = []"
    and quiet: "rr_disconnected r \<Longrightarrow> rr_delivered r = []"
  shows "accounted oc c (map_prod SockReceived id (hand_out net p r c1))"
proof (cases "rr_disconnected r")
  case True
  with assms show ?thesis
    unfolding accounted_def
    by (intro exI [of _ calls] exI [of _ "[]"]) (auto simp: hand_out_def Let_def note_pong_def drives_def)
next
  case False
  let ?fs = "map transport_frame_of (rr_delivered r)"
  define c2 where "c2 = snd (pop_frame (queue_frames (rr_delivered r) (note_pong r c1)))"
  have pop: "pop_frame (queue_frames (rr_delivered r) (note_pong r c1))
      = ((case ?fs of [] \<Rightarrow> None | f # fs \<Rightarrow> Some f), c2)" "sk_delivered_frames c2 = tl ?fs"
    "sk_session c2 = sk_session c1"
    using q by (auto simp: c2_def pop_frame_def queue_frames_def note_pong_def split: list.splits)
  have d2: "drives oc calls c ?fs c2" using d pop(3) by (simp add: drives_def)
  have d3: "drives oc (calls @ [CallCreateAck]) c ?fs (snd (send_created net create_ack c2))"
    using drives_append [OF d2 drives_quiet [of "snd (send_created net create_ack c2)" oc CallCreateAck]]
    by (simp add: socket_frame step_frames_def)
  have q3: "sk_delivered_frames (snd (send_created net create_ack c2)) = tl ?fs"
    by (simp add: socket_frame pop(2))
  show ?thesis
  proof (cases "p_type p = Accept \<or> ?fs \<noteq> []")
    case True
    then have acks: "p_type p = Accept \<or> (case ?fs of [] \<Rightarrow> None | f # fs \<Rightarrow> Some f) \<noteq> None"
      by (auto split: list.splits)
    obtain a c3 where ack: "send_created net create_ack c2 = (a, c3)" by fastforce
    with acks False have "hand_out net p r c1
        = (case a of Inl e \<Rightarrow> (Inl e, c3) | Inr _ \<Rightarrow> (Inr (case ?fs of [] \<Rightarrow> None | f # fs \<Rightarrow> Some f), c3))"
      by (simp add: hand_out_def pop)
    with d3 q3 ack q(2) show ?thesis
      unfolding accounted_def
      by (intro exI [of _ "calls @ [CallCreateAck]"] exI [of _ ?fs]) (auto split: sum.splits list.splits)
  next
    case notack: False
    then have "pop_frame (queue_frames (rr_delivered r) (note_pong r c1)) = (None, c2)"
      using pop(1) by simp
    with False notack have "hand_out net p r c1 = (Inr None, c2)" by (simp add: hand_out_def)
    with d2 pop(2) q(2) notack show ?thesis
      unfolding accounted_def by (intro exI [of _ calls] exI [of _ ?fs]) auto
  qed
qed

lemma process_packet_accounted:
  assumes "sk_delivered_frames c = []"
  shows "accounted oc c (map_prod SockReceived id (process_packet oc net t p c))"
proof (cases "receive oc p t (sk_session c)")
  case (Pair r s)
  let ?c1 = "c\<lparr>sk_session := s\<rparr>"
  have d: "drives oc [CallReceive p t] c (map transport_frame_of (frames_of r)) c1" if "sk_session c1 = s" for c1
    using that drives_one [of c1 oc "CallReceive p t" c] Pair by (simp add: step_frames_def)
  show ?thesis
  proof (cases r)
    case (Inl e)
    with Pair assms show ?thesis
      by (auto simp: process_packet_def step_frames_def intro!: accounted_quiet [of _ _ "CallReceive p t"])
  next
    case (Inr rr)
    with Pair have rec: "receive oc p t (sk_session c) = (Inr rr, s)" by simp
    note quiet = receive_quiet [OF rec]
    show ?thesis
    proof (cases "rr_reply rr")
      case None
      with rec have "process_packet oc net t p c = hand_out net p rr ?c1" by (simp add: process_packet_def)
      with hand_out_accounted [OF d [of ?c1, unfolded Inr frames_of_simps]] assms quiet show ?thesis by simp
    next
      case (Some reply)
      obtain a c1 where send: "send_packet net reply ?c1 = (a, c1)" by fastforce
      with send_packet_frame [of net reply ?c1] assms have c1: "sk_session c1 = s" "sk_delivered_frames c1 = []"
        by simp_all
      show ?thesis
      proof (cases a)
        case (Inl e)
        then have "process_packet oc net t p c = (Inl e, c1)"
          using rec Some send by (simp add: process_packet_def)
        then show ?thesis using rec c1 assms quiet Some
          by (auto simp: step_frames_def intro!: accounted_quiet [of _ _ "CallReceive p t"])
      next
        case sent: (Inr u)
        then have "process_packet oc net t p c = hand_out net p rr c1"
          using rec Some send by (simp add: process_packet_def)
        then show ?thesis
          using hand_out_accounted [OF d [OF c1(1), unfolded Inr frames_of_simps] c1(2) assms] quiet Some by simp
      qed
    qed
  qed
qed

lemma accounted_received:
  assumes "accounted oc c1 result" "sk_session c1 = sk_session c" "sk_delivered_frames c1 = sk_delivered_frames c"
  shows "accounted oc c result"
proof -
  have "drives oc calls c1 frames c' = drives oc calls c frames c'" for calls frames c'
    by (simp add: drives_def assms(2))
  with assms(1,3) show ?thesis by (simp only: accounted_def)
qed

lemma accept_client_accounted:
  assumes "sk_delivered_frames c = []"
  shows "accounted oc c (map_prod SockReceived id (accept_client net t p c))"
proof -
  let ?c1 = "c\<lparr>sk_session := reset_peer_state (sk_session c)\<rparr>"
  obtain a c2 where send: "send_created net (accept_connect p t []) ?c1 = (a, c2)" by fastforce
  then have c2: "sk_session c2 = snd (accept_connect p t [] (reset_peer_state (sk_session c)))"
      "sk_delivered_frames c2 = []"
    using send_created_frame [of net "accept_connect p t []" ?c1] assms by simp_all
  have d: "drives oc [CallReset, CallAcceptConnect p t []] c [] c2"
    using c2(1) by (simp add: drives_def step_frames_def Let_def split_beta)
  have "accept_client net t p c = (case a of Inl e \<Rightarrow> (Inl e, c2) | Inr _ \<Rightarrow> (Inr None, c2))"
    by (simp add: accept_client_def send)
  with d c2(2) assms show ?thesis
    unfolding accounted_def
    by (intro exI [of _ "[CallReset, CallAcceptConnect p t []]"] exI [of _ "[]"]) (auto split: sum.splits)
qed

lemma receive_once_accounted: "accounted oc c (map_prod SockReceived id (receive_once oc net t incoming c))"
proof (cases "sk_delivered_frames c")
  case (Cons f fs)
  let ?c1 = "c\<lparr>sk_delivered_frames := fs, sk_session := assume_connected t (sk_session c)\<rparr>"
  have "drives oc [CallAssumeConnected t] c [] ?c1"
    by (rule drives_quiet) (simp_all add: step_frames_def)
  with Cons show ?thesis
    unfolding accounted_def receive_once_def
    by (intro exI [of _ "[CallAssumeConnected t]"] exI [of _ "[]"]) simp
next
  case Nil
  show ?thesis
  proof (cases incoming)
    case (Datagram wire from_addr)
    let ?c1 = "c\<lparr>sk_stats := (sk_stats c)
      \<lparr>bytes_received := bytes_received (sk_stats c) + of_nat (length (take 65535 wire))\<rparr>\<rparr>"
    show ?thesis
    proof (cases "decode_rudp_packet (take 65535 wire)")
      case (Inl e)
      with Nil Datagram show ?thesis by (simp add: receive_once_def) (rule accounted_unchanged; simp)
    next
      case (Inr p)
      then have once: "receive_once oc net t incoming c = handle_packet oc net t p from_addr ?c1"
        using Nil Datagram by (simp add: receive_once_def)
      show ?thesis
      proof (cases "admit_sender (sk_mode c) (sk_remote_addr c) (p_type p) from_addr")
        case None
        with once show ?thesis by (simp add: handle_packet_def) (rule accounted_unchanged; simp)
      next
        case (Some remote)
        define c2 where "c2 = ?c1\<lparr>sk_remote_addr := Some remote\<rparr>"
        have c2: "sk_session c2 = sk_session c" "sk_delivered_frames c2 = sk_delivered_frames c" by (simp_all add: c2_def)
        have "receive_once oc net t incoming c
          = (if sk_mode c = Server \<and> p_type p = Connect then accept_client net t p c2 else process_packet oc net t p c2)"
          unfolding once using Some by (simp add: handle_packet_def c2_def Let_def)
        moreover have "accounted oc c (map_prod SockReceived id (accept_client net t p c2))"
          "accounted oc c (map_prod SockReceived id (process_packet oc net t p c2))"
          using c2 Nil by (simp_all add: accounted_received [OF accept_client_accounted]
              accounted_received [OF process_packet_accounted])
        ultimately show ?thesis by simp
      qed
    qed
  qed (use Nil in \<open>auto simp: receive_once_def intro!: accounted_unchanged\<close>)
qed

lemma socket_step_accounted: "accounted oc c (socket_step oc net call c)"
proof (cases call)
  case (SockReceive t incoming)
  then show ?thesis using receive_once_accounted by simp
next
  case (SockConnect t payload)
  have "accounted oc c (SockDone (fst (socket_connect net t payload c)), snd (socket_connect net t payload c))"
  proof (cases "sk_mode c = Client")
    case True
    then show ?thesis
      by (intro accounted_quiet [of _ _ "CallCreateConnect t payload"])
         (simp_all add: socket_connect_def socket_frame step_frames_def)
  next
    case False
    then show ?thesis by (intro accounted_unchanged) (simp_all add: socket_connect_def)
  qed
  with SockConnect show ?thesis by (simp add: map_prod_def split_beta)
next
  case (SockSend t ch payload)
  have "accounted oc c (SockDone (fst (socket_send net t ch payload c)), snd (socket_send net t ch payload c))"
    by (rule accounted_quiet [of _ _ "CallSendMany ch payload (channel_send_options c ch t) (sk_max_fragment_bytes c)"])
       (simp_all add: socket_frame step_frames_def split_beta)
  with SockSend show ?thesis by (simp add: map_prod_def split_beta)
next
  case (SockDisconnect reason)
  have "accounted oc c (SockDone (fst (socket_disconnect net reason c)), snd (socket_disconnect net reason c))"
    by (rule accounted_quiet [of _ _ "CallCreateDisconnect reason"])
       (simp_all add: socket_disconnect_def socket_frame step_frames_def)
  with SockDisconnect show ?thesis by (simp add: map_prod_def split_beta)
next
  case (SockPing payload)
  have "accounted oc c (SockDone (fst (socket_ping net payload c)), snd (socket_ping net payload c))"
    by (rule accounted_quiet [of _ _ "CallCreatePing payload"])
       (simp_all add: socket_ping_def socket_frame step_frames_def)
  with SockPing show ?thesis by (simp add: map_prod_def split_beta)
next
  case (SockPollResends t)
  have "accounted oc c (SockDone (fst (poll_resends net t c)), snd (poll_resends net t c))"
    by (rule accounted_quiet [of _ _ "CallDueResends t"])
       (simp_all add: poll_resends_def socket_frame step_frames_def split_beta)
  with SockPollResends show ?thesis by (simp add: map_prod_def split_beta)
next
  case (SockCheckTimeout t d)
  have "accounted oc c (SockTimedOut (fst (socket_check_timeout t d c)), snd (socket_check_timeout t d c))"
    by (rule accounted_quiet [of _ _ "CallCheckTimeout t d"])
       (simp_all add: socket_check_timeout_def step_frames_def split_beta)
  with SockCheckTimeout show ?thesis by (simp add: map_prod_def split_beta)
next
  case (SockAssumeConnected t)
  have "accounted oc c (SockUnit, socket_assume_connected t c)"
    by (rule accounted_quiet [of _ _ "CallAssumeConnected t"])
       (simp_all add: socket_assume_connected_def step_frames_def)
  with SockAssumeConnected show ?thesis by simp
next
  case SockPopPong
  have "accounted oc c (SockPong (fst (pop_pong_payload c)), snd (pop_pong_payload c))"
    by (rule accounted_unchanged) (simp_all add: pop_pong_payload_def split: list.splits)
  with SockPopPong show ?thesis by (simp add: map_prod_def split_beta)
qed

section \<open>Runs\<close>

lemma tl_subseq: "subseq (tl xs) xs"
  by (cases xs) auto

lemma accounted_run:
  "\<exists>calls frames. drives oc calls c frames (snd (run_ops (socket_step oc net) cs c))
     \<and> subseq (handed_out (fst (run_ops (socket_step oc net) cs c)) @ sk_delivered_frames (snd (run_ops (socket_step oc net) cs c)))
              (sk_delivered_frames c @ frames)
     \<and> (list_all (\<lambda>a. \<not> receive_failed a) (fst (run_ops (socket_step oc net) cs c)) \<longrightarrow>
          handed_out (fst (run_ops (socket_step oc net) cs c)) @ sk_delivered_frames (snd (run_ops (socket_step oc net) cs c))
            = sk_delivered_frames c @ frames)"
proof (induction cs arbitrary: c)
  case Nil
  show ?case
    by (rule exI [of _ "[]"], rule exI [of _ "[]"]) (simp add: drives_none handed_out_def)
next
  case (Cons call cs)
  obtain a c1 where step: "socket_step oc net call c = (a, c1)" by fastforce
  obtain outs c2 where run: "run_ops (socket_step oc net) cs c1 = (outs, c2)" by fastforce
  obtain xs f where x: "drives oc xs c f c1" "if receive_failed a then sk_delivered_frames c1 = tl (sk_delivered_frames c @ f)
      else frames_in a @ sk_delivered_frames c1 = sk_delivered_frames c @ f"
    using socket_step_accounted [of oc c net call] unfolding accounted_def step fst_conv snd_conv by blast
  obtain ys g where y: "drives oc ys c1 g c2" "subseq (handed_out outs @ sk_delivered_frames c2) (sk_delivered_frames c1 @ g)"
      "list_all (\<lambda>a. \<not> receive_failed a) outs \<longrightarrow> handed_out outs @ sk_delivered_frames c2 = sk_delivered_frames c1 @ g"
    using Cons.IH [of c1] unfolding run fst_conv snd_conv by blast
  have none: "frames_in a = []" if "receive_failed a" using that by (cases a rule: receive_failed.cases) auto
  have part: "subseq (frames_in a @ sk_delivered_frames c1) (sk_delivered_frames c @ f)"
    using x(2) none tl_subseq by (auto split: if_splits)
  have "subseq (frames_in a @ handed_out outs @ sk_delivered_frames c2) (sk_delivered_frames c @ f @ g)"
    using list_emb_append_mono [OF subseq_order.refl [of "frames_in a"] y(2)]
      list_emb_append_mono [OF part subseq_order.refl [of g]]
    by (metis append.assoc subseq_order.trans)
  moreover have "frames_in a @ handed_out outs @ sk_delivered_frames c2 = sk_delivered_frames c @ f @ g"
    if "\<not> receive_failed a" "list_all (\<lambda>a. \<not> receive_failed a) outs"
    using that x(2) y(3) by (metis append.assoc)
  moreover have "run_ops (socket_step oc net) (call # cs) c = (a # outs, c2)" by (simp add: step run)
  ultimately show ?case
    using drives_append [OF x(1) y(1)] by (auto simp: handed_out_def intro!: exI [of _ "xs @ ys"])
qed

text \<open>The session invariant holds behind every socket.\<close>

abbreviation socket_inv :: "'a socket \<Rightarrow> bool" where
  "socket_inv c \<equiv> session_inv (sk_session c)"

lemma socket_step_inv: "socket_inv c \<Longrightarrow> socket_inv (snd (socket_step oc net call c))"
  using socket_step_accounted [of oc c net call] session_machine.run_inv_total [of "sk_session c" oc]
  by (auto simp: accounted_def drives_def)

interpretation socket_machine: step_machine "socket_step oc net" socket_inv "\<lambda>call c. True"
  by unfold_locales (rule socket_step_inv)

section \<open>Properties\<close>

definition session_options_of :: "'a socket_options \<Rightarrow> session_options" where
  "session_options_of opts = \<lparr> so_connection_id = opt_connection_id opts,
     so_initial_sequence = opt_initial_sequence opts, so_resend_delay_ms = opt_resend_delay_ms opts,
     so_max_pending_reliable_packets = map_option unat (opt_max_pending_reliable_packets opts) \<rparr>"

lemma socket_new_fields:
  assumes "socket_new opts addr = Inr c"
  shows "sk_session c = session_new (session_options_of opts)" "sk_delivered_frames c = []"
    "sk_mode c = opt_mode opts" "sk_remote_addr c = opt_remote_addr opts"
  using assms by (auto simp: socket_new_def session_options_of_def split: option.splits)


text \<open>C34.
  A socket with a peer ignores everybody else: a datagram from another address (malformed, or any
  packet unless this is a server and the packet a connect) changes nothing but the count of
  received bytes, sends nothing and delivers nothing.\<close>

theorem strangers_ignored:
  assumes "sk_remote_addr c = Some peer" "from_addr \<noteq> peer" "sk_delivered_frames c = []"
    and "case decode_rudp_packet (take 65535 wire) of
           Inl e \<Rightarrow> True | Inr p \<Rightarrow> sk_mode c = Client \<or> p_type p \<noteq> Connect"
  shows "receive_once oc net t (Datagram wire from_addr) c
    = (Ok None, c\<lparr>sk_stats := (sk_stats c)
        \<lparr>bytes_received := bytes_received (sk_stats c) + of_nat (min (length wire) 65535)\<rparr>\<rparr>)"
  using assms by (cases "decode_rudp_packet (take 65535 wire)")
    (auto simp: receive_once_def handle_packet_def admit_sender_def Let_def)

text \<open>C35.
  A connect packet is trusted before it is checked: whoever sends a server one datagram of type
  connect with a wrong connection id gets an error back for it, but by then the server has
  made that address its peer and thrown away the conversation (connected flag, resend queue,
  receive window and buffers).\<close>

theorem wrong_connect_takes_over:
  assumes "sk_mode c = Server" "sk_delivered_frames c = []"
    and "decode_rudp_packet (take 65535 wire) = Ok p" "p_type p = Connect"
    and "p_connection_id p \<noteq> connection_id (sk_session c)"
  shows "fst (receive_once oc net t (Datagram wire attacker) c)
      = Err (ConnectionIdMismatch (p_connection_id p) (connection_id (sk_session c)))
    \<and> sk_remote_addr (snd (receive_once oc net t (Datagram wire attacker) c)) = Some attacker
    \<and> sk_session (snd (receive_once oc net t (Datagram wire attacker) c)) = reset_peer_state (sk_session c)"
proof -
  have "admit_sender Server (sk_remote_addr c) Connect attacker = Some attacker"
    by (auto simp: admit_sender_def split: option.splits)
  moreover have "connection_id (reset_peer_state s) = connection_id s" for s
    by (simp add: reset_peer_state_def)
  ultimately show ?thesis
    using assms by (simp add: receive_once_def handle_packet_def accept_client_def send_created_def
        accept_connect_def require_connection_def Let_def)
qed

text \<open>
  Every channel a new socket advertises is sent the way the profile says: reliable exactly when
  its delivery is reliable, ordered or sequenced exactly as its ordering says, with the
  advertised expiry; and the session's limit on unacknowledged packets is the advertised one.\<close>

theorem channels_as_advertised:
  "case socket_new opts local_addr of
     Inl e \<Rightarrow> local_addr = None
   | Inr c \<Rightarrow> list_all (\<lambda>ch.
        channel_send_options c (tc_channel_id ch) now
          = \<lparr> o_reliable = (tc_delivery ch = Reliable), o_ordered = (tc_ordering ch = Ordered),
              o_sequenced = (tc_ordering ch = Sequenced), o_now_ms = now,
              o_reliable_expire_after_ms = tc_reliable_expire_after_ms ch \<rparr>
        \<and> max_pending_reliable_packets (sk_session c) = map_option unat (tc_max_pending_reliable_packets ch)
        \<and> sk_max_fragment_bytes c = map_option unat (tc_max_fragment_bytes ch))
      (concat (map td_channels (tp_transports (sk_profile c))))"
  by (cases local_addr) (auto simp: socket_new_def create_rudp_transport_profile_def rudp_channel_def
      channel_send_options_def session_new_def)

text \<open>
  A retransmission is never acknowledged by the receive path: when the peer repeats a data packet
  that was already received, because its acknowledgement was lost, nothing is sent back and
  nothing is delivered, so the peer goes on resending until some other packet happens to carry
  the acknowledgement.\<close>

theorem retransmission_unanswered:
  assumes "sk_delivered_frames c = []" "sk_remote_addr c = Some peer"
    and "decode_rudp_packet (take 65535 wire) = Ok p" "p_type p = Data"
    and "p_connection_id p = connection_id (sk_session c)"
    and "bs_member (p_sequence p) (received_sequences (sk_session c))"
    and "highest_received_sequence (sk_session c) = Some h" "h < - 1"
  shows "fst (receive_once oc net t (Datagram wire peer) c) = Ok None
    \<and> sk_sent (snd (receive_once oc net t (Datagram wire peer) c)) = sk_sent c
    \<and> sk_send_calls (snd (receive_once oc net t (Datagram wire peer) c)) = sk_send_calls c"
proof -
  have "unat h < 2 ^ 32 - 1"
    using assms(8) by (simp add: word_less_nat_alt unat_max_word)
  then have "rust_add oc h 1 = Some (h + 1)" by (simp add: rust_add_def)
  then have "fst (receive oc p t (sk_session c)) = Inr empty_result"
    using assms by (simp add: receive_def require_connection_def apply_acknowledgements_def receive_data_def Let_def)
  then obtain s where "receive oc p t (sk_session c) = (Inr empty_result, s)"
    by (cases "receive oc p t (sk_session c)") simp
  with assms show ?thesis
    by (simp add: receive_once_def handle_packet_def admit_sender_def process_packet_def hand_out_def
        empty_result_def note_pong_def queue_frames_def pop_frame_def Let_def)
qed

end
