(* ===== verification/RudpExchange.thy ===== *)
theory RudpExchange
  imports RudpTransport
begin

text \<open>
  A client and a server socket talking to each other over a network that loses nothing: the
  concrete runs behind the witnesses of theory \<open>RudpTransport\<close>, and what becomes of the second
  request of a request-response conversation.
\<close>

lemma fold_be_word:
  "(of_nat (foldl (\<lambda>a b. a * 256 + unat b) n bs) :: 'a::len word) = foldl (\<lambda>a b. a * 256 + ucast (b :: u8)) (of_nat n) bs"
  by (induction bs arbitrary: n) (simp_all add: of_nat_unat)

lemma from_be_code [code]:
  "u32_from_be bs = foldl (\<lambda>a b. a * 256 + ucast b) 0 bs"
  "u16_from_be bs = foldl (\<lambda>a b. a * 256 + ucast b) 0 bs"
  using fold_be_word [of 0 bs, where 'a = 32] fold_be_word [of 0 bs, where 'a = 16]
  by (simp_all add: u32_from_be_def u16_from_be_def be_value_def)

lemma apply_acknowledgements_code [code]:
  "apply_acknowledgements p s = s\<lparr>pending_reliable := filter (\<lambda>e. \<not> acked p (fst e)) (pending_reliable s)\<rparr>"
  using apply_acknowledgements_frame [of p s] by (simp only: apply_acknowledgements_pending)

lemma acked_code [code]:
  "acked p q \<longleftrightarrow> q = p_ack p \<or> (q < p_ack p \<and> p_ack p - q \<le> 32 \<and> bit (p_ack_mask p) (unat (p_ack p - q - 1)))"
proof (cases "q < p_ack p")
  case True
  then have d: "unat (p_ack p - q) = unat (p_ack p) - unat q" and pos: "unat q < unat (p_ack p)"
    by (simp_all add: unat_sub word_less_nat_alt less_imp_le)
  then have "p_ack p - q \<noteq> 0" by (metis diff_is_0_eq not_le unat_0)
  then have d1: "unat (p_ack p - q - 1) = unat (p_ack p) - unat q - 1"
    by (simp add: d unat_minus_one)
  have le: "p_ack p - q \<le> 32 \<longleftrightarrow> unat (p_ack p) - unat q \<le> 32"
    by (simp add: word_le_nat_alt d)
  have "(\<exists>b<32. unat (p_ack p) = unat q + b + 1 \<and> bit (p_ack_mask p) b)
      \<longleftrightarrow> unat (p_ack p) - unat q \<le> 32 \<and> bit (p_ack_mask p) (unat (p_ack p) - unat q - 1)"
  proof
    assume "unat (p_ack p) - unat q \<le> 32 \<and> bit (p_ack_mask p) (unat (p_ack p) - unat q - 1)"
    with pos show "\<exists>b<32. unat (p_ack p) = unat q + b + 1 \<and> bit (p_ack_mask p) b"
      by (intro exI [of _ "unat (p_ack p) - unat q - 1"]) auto
  qed auto
  then show ?thesis unfolding acked_def le d1 using True by simp
next
  case False
  then show ?thesis by (auto simp: acked_def word_less_nat_alt)
qed

lemma fold_inert: "(\<And>x m. x \<in> set xs \<Longrightarrow> f x m = m) \<Longrightarrow> fold f xs m = m"
  by (induction xs arbitrary: m) simp_all

lemma ack_state_code [code]:
  "ack_state s = (let ack = (case highest_received_sequence s of None \<Rightarrow> 0 | Some h \<Rightarrow> h) in
     (ack, fold (\<lambda>bit mask. if bs_member (ack - of_nat bit - 1) (received_sequences s)
       then mask OR push_bit bit 1 else mask) [0..<min 32 (unat ack)] 0))"
proof -
  define ack where "ack = (case highest_received_sequence s of None \<Rightarrow> 0 | Some h \<Rightarrow> h)"
  let ?n = "min 32 (unat ack)"
  let ?f = "\<lambda>bit mask. if of_nat bit < ack \<and> bs_member (ack - of_nat bit - 1) (received_sequences s)
    then mask OR push_bit bit 1 else mask"
  let ?g = "\<lambda>bit mask. if bs_member (ack - of_nat bit - 1) (received_sequences s)
    then mask OR push_bit bit 1 else mask"
  have less: "of_nat b < ack \<longleftrightarrow> b < unat ack" if "b < 32" for b
    using that by (simp add: word_less_nat_alt unat_of_nat_u32)
  have "?n + (32 - ?n) = 32" by simp
  then have "[0..<32] = [0..<?n] @ [?n..<32]"
    using upt_add_eq_append [of 0 ?n "32 - ?n"] by (simp only: le0 simp_thms)
  then have "fold ?f [0..<32] m = fold ?f [?n..<32] (fold ?f [0..<?n] m)" for m :: u32
    by (simp only: fold_append o_apply)
  moreover have "fold ?f [?n..<32] m = m" for m :: u32 by (rule fold_inert) (auto simp: less)
  moreover have "fold ?f [0..<?n] m = fold ?g [0..<?n] m" for m :: u32 by (rule fold_cong) (auto simp: less)
  ultimately show ?thesis by (simp add: ack_state_def Let_def flip: ack_def)
qed

section \<open>Two sockets\<close>

definition perfect_net :: "nat net" where
  "perfect_net n wire addr = Some (length wire)"

definition fresh :: "nat socket_options \<Rightarrow> nat socket" where
  "fresh opts = (case socket_new opts (Some (''127.0.0.1'', 9000)) of Inr c \<Rightarrow> c)"

text \<open>The client lives at address 1, the server at address 2; the connection id is 7.\<close>

definition client0 :: "nat socket" where
  "client0 = fresh (client_options ''client'' 2 7)"

definition server0 :: "nat socket" where
  "server0 = fresh (server_options ''server'' 7)"

datatype side = AtClient | AtServer

text \<open>A step of the conversation: a call by one side, or it receives the other's \<open>i\<close>-th datagram.\<close>

datatype move = Call side "nat socket_call" | Arrive side nat

fun play_move :: "move \<Rightarrow> nat socket \<times> nat socket \<Rightarrow> socket_answer \<times> nat socket \<times> nat socket" where
  "play_move (Call AtClient call) (c, s) = (let (a, c') = socket_step True perfect_net call c in (a, c', s))"
| "play_move (Call AtServer call) (c, s) = (let (a, s') = socket_step True perfect_net call s in (a, c, s'))"
| "play_move (Arrive AtClient i) (c, s) =
     (let (a, c') = socket_step True perfect_net (SockReceive 0 (Datagram (fst (sk_sent s ! i)) 2)) c in (a, c', s))"
| "play_move (Arrive AtServer i) (c, s) =
     (let (a, s') = socket_step True perfect_net (SockReceive 0 (Datagram (fst (sk_sent c ! i)) 1)) s in (a, c, s'))"

definition conversation :: "move list" where
  "conversation =
    [Call AtClient (SockConnect 0 []), Arrive AtServer 0, Arrive AtClient 0, Arrive AtServer 1,
     Call AtClient (SockSend 0 ''schema'' [1]), Arrive AtServer 2, Arrive AtClient 1,
     Call AtServer (SockSend 0 ''schema'' [101]), Arrive AtClient 2, Arrive AtServer 3,
     Call AtClient (SockSend 0 ''schema'' [2]), Arrive AtServer 4]"

definition talk :: "nat \<Rightarrow> socket_answer list \<times> nat socket \<times> nat socket" where
  "talk n = run_ops play_move (take n conversation) (client0, server0)"

definition schema_frame :: "bytes \<Rightarrow> transport_frame" where
  "schema_frame payload = \<lparr> tf_channel_id = ''schema'', tf_payload = payload \<rparr>"

section \<open>Request and response\<close>

text \<open>A conversation is a step machine of its own: the invariant holds at both ends.\<close>

abbreviation both_inv :: "nat socket \<times> nat socket \<Rightarrow> bool" where
  "both_inv ends \<equiv> socket_inv (fst ends) \<and> socket_inv (snd ends)"

lemma play_move_inv: "both_inv ends \<Longrightarrow> both_inv (snd (play_move move ends))"
  by (cases "(move, ends)" rule: play_move.cases)
     (simp_all add: Let_def split_beta socket_step_inv del: socket_step.simps)

interpretation conversation_machine: step_machine play_move both_inv "\<lambda>move ends. True"
  by unfold_locales (rule play_move_inv)

lemma fresh_inv: "socket_inv (fresh opts)"
  by (simp add: fresh_def socket_new_def session_inv_new)

lemma talk_inv: "socket_inv (snd (snd (talk n)))"
  using conversation_machine.run_inv_total [of "(client0, server0)" "take n conversation"]
  by (simp add: talk_def client0_def server0_def fresh_inv)

lemma talk_result:
  "(case talk 12 of (answers, client, server) \<Rightarrow>
     answers = [SockDone (Ok ()), SockReceived (Ok None), SockReceived (Ok None), SockReceived (Ok None),
       SockDone (Ok ()), SockReceived (Ok (Some (schema_frame [1]))), SockReceived (Ok None),
       SockDone (Ok ()), SockReceived (Ok (Some (schema_frame [101]))), SockReceived (Ok None),
       SockDone (Ok ()), SockReceived (Ok None)]
     \<and> channel_stuck ''schema'' 4 (sk_session server))"
  by code_simp



section \<open>Witnesses\<close>

definition wire_of :: "packet \<Rightarrow> bytes" where
  "wire_of p = (case encode_rudp_packet p of Inr w \<Rightarrow> w)"

definition control_packet :: "packet_type \<Rightarrow> u32 \<Rightarrow> u32 \<Rightarrow> packet" where
  "control_packet ptype conn q = (plain_data ''control'' q False False [])
     \<lparr>p_type := ptype, p_connection_id := conn, p_reliable := False\<rparr>"

definition media_packet :: "u32 \<Rightarrow> packet" where
  "media_packet q = (plain_data ''media'' q False False [42])\<lparr>p_connection_id := 7\<rparr>"

definition busy_server :: "nat socket" where
  "busy_server = server0\<lparr>sk_remote_addr := Some 1,
     sk_session := remember_received 5 (assume_connected 0 (sk_session server0))\<rparr>"


lemma strangers_ignored_witness:
  "receive_once True perfect_net 9 (Datagram (wire_of (control_packet Disconnect 7 2)) 3) busy_server
    = (Ok None, busy_server\<lparr>sk_stats := (sk_stats busy_server)
        \<lparr>bytes_received := bytes_received (sk_stats busy_server)
           + of_nat (min (length (wire_of (control_packet Disconnect 7 2))) 65535)\<rparr>\<rparr>)"
proof (rule strangers_ignored [of _ 1])
  show "case decode_rudp_packet (take 65535 (wire_of (control_packet Disconnect 7 2))) of
      Inl e \<Rightarrow> True | Inr p \<Rightarrow> sk_mode busy_server = Client \<or> p_type p \<noteq> Connect"
    by code_simp
qed (code_simp, simp, code_simp)

lemma wrong_connect_takes_over_witness:
  "fst (receive_once True perfect_net 9 (Datagram (wire_of (control_packet Connect 8 1)) 3) busy_server) = Err (ConnectionIdMismatch 8 7)
    \<and> sk_remote_addr (snd (receive_once True perfect_net 9 (Datagram (wire_of (control_packet Connect 8 1)) 3) busy_server)) = Some 3
    \<and> \<not> socket_connected (snd (receive_once True perfect_net 9 (Datagram (wire_of (control_packet Connect 8 1)) 3) busy_server))"
proof -
  have dec: "decode_rudp_packet (take 65535 (wire_of (control_packet Connect 8 1))) = Ok (control_packet Connect 8 1)"
    by code_simp
  have "sk_mode busy_server = Server" "sk_delivered_frames busy_server = []" "connection_id (sk_session busy_server) = 7"
    "p_type (control_packet Connect 8 1) = Connect" "p_connection_id (control_packet Connect 8 1) = 8"
    by code_simp+
  with wrong_connect_takes_over [OF _ _ dec, of busy_server True perfect_net 9 3] show ?thesis
    by (simp add: socket_connected_def reset_peer_state_def)
qed

lemma retransmission_unanswered_witness:
  "fst (receive_once True perfect_net 9 (Datagram (wire_of (media_packet 5)) 1) busy_server) = Ok None
    \<and> sk_sent (snd (receive_once True perfect_net 9 (Datagram (wire_of (media_packet 5)) 1) busy_server)) = []"
proof -
  have dec: "decode_rudp_packet (take 65535 (wire_of (media_packet 5))) = Ok (media_packet 5)" by code_simp
  have "sk_delivered_frames busy_server = [] \<and> sk_remote_addr busy_server = Some 1 \<and> p_type (media_packet 5) = Data
    \<and> p_connection_id (media_packet 5) = connection_id (sk_session busy_server)
    \<and> bs_member (p_sequence (media_packet 5)) (received_sequences (sk_session busy_server))
    \<and> highest_received_sequence (sk_session busy_server) = Some 5 \<and> sk_sent busy_server = []"
    by code_simp
  moreover have "(5 :: u32) < - 1" by simp
  ultimately show ?thesis
    using retransmission_unanswered [OF _ _ dec, of busy_server 1 5 True perfect_net 9] by simp
qed

end
