(* ===== verification/RudpRecovery.thy ===== *)
theory RudpRecovery
  imports RudpTimers
begin

text \<open>
  Reliability of \<open>src/rudp.rs\<close> over a network that loses packets: a packet sent reliably goes on being
  sent until it is acknowledged or expires, and the first copy that arrives is handed out.
\<close>

section \<open>A packet on its way\<close>

definition expiry_of :: "send_options \<Rightarrow> u64 option" where
  "expiry_of opts = map_option (saturating_add (o_now_ms opts)) (o_reliable_expire_after_ms opts)"

definition before_expiry :: "send_options \<Rightarrow> u64 \<Rightarrow> bool" where
  "before_expiry opts t \<longleftrightarrow> (case expiry_of opts of None \<Rightarrow> True | Some e \<Rightarrow> t \<le> e)"

text \<open>
  The calls of a sender whose packet \<open>q\<close> has not got through yet: it is not reset, nothing it receives
  acknowledges \<open>q\<close>, the packet does not expire, and it was resent for the last time at \<open>until\<close> or earlier.
\<close>

fun undisturbed :: "send_options \<Rightarrow> u32 \<Rightarrow> u64 \<Rightarrow> session_call \<Rightarrow> bool" where
  "undisturbed opts q until CallReset = False"
| "undisturbed opts q until (CallReceive p t) = (\<not> acked p q)"
| "undisturbed opts q until (CallSend ch pl o2) = before_expiry opts (o_now_ms o2)"
| "undisturbed opts q until (CallSendMany ch pl o2 maxb) = before_expiry opts (o_now_ms o2)"
| "undisturbed opts q until (CallDueResends t) = (before_expiry opts t \<and> t \<le> until)"
| "undisturbed opts q until _ = True"

definition waiting :: "send_options \<Rightarrow> packet \<Rightarrow> u64 \<Rightarrow> pending_reliable_packet \<Rightarrow> bool" where
  "waiting opts p until e \<longleftrightarrow> pr_packet e = p \<and> pr_expires_at_ms e = expiry_of opts \<and> pr_last_sent_at_ms e \<le> until"

lemma waiting_alive: "waiting opts p until e \<Longrightarrow> before_expiry opts t \<Longrightarrow> not_expired t e"
  by (simp add: waiting_def before_expiry_def not_expired_def)

lemma undisturbed_step:
  assumes "session_inv s" "kept q (waiting opts p until) s" "undisturbed opts q until c"
  shows "kept q (waiting opts p until) (snd (session_step oc c s))"
proof (rule kept_step [OF assms(1,2)])
  show "c \<noteq> CallReset" using assms(3) by auto
  show "p_connection_id x \<noteq> connection_id s \<or> \<not> acked x q" if "c = CallReceive x t" for x t
    using assms(3) that by simp
  show "not_expired t e" if "purge_time c = Some t" "waiting opts p until e" for t e
    using assms(3) that waiting_alive by (cases c) auto
  show "waiting opts p until (e\<lparr>pr_last_sent_at_ms := t\<rparr>)" if "c = CallDueResends t" "waiting opts p until e" for t e
    using assms(3) that by (simp add: waiting_def)
qed

lemma undisturbed_run:
  "session_inv s \<Longrightarrow> kept q (waiting opts p until) s \<Longrightarrow> list_all (undisturbed opts q until) calls \<Longrightarrow>
     kept q (waiting opts p until) (snd (run_ops (session_step oc) calls s))"
  by (induction calls arbitrary: s) (auto simp: Let_def split_beta undisturbed_step session_step_inv)

lemma run_config: "config (snd (run_ops (session_step oc) calls s)) = config s"
  by (induction calls arbitrary: s) (simp_all add: Let_def split_beta config_step)

lemma sent_packet:
  assumes "send ch payload opts s = (Inr p, s1)"
  shows "p_type p = Data" "p_channel_id p = ch" "p_payload p = payload" "p_fragment_count p = 0"
    "p_ordered p = o_ordered opts" "p_sequenced p = o_sequenced opts" "p_connection_id p = connection_id s"
    and "o_reliable opts \<Longrightarrow> kept (p_sequence p) (waiting opts p (o_now_ms opts)) s1"
proof -
  obtain s0 s2 where c: "create_packet Data ch payload (o_reliable opts) (o_ordered opts) (o_sequenced opts) s0 = (Inr p, s2)"
    and s0: "s0 = purge_expired_reliable (o_now_ms opts) s" and s1: "s1 = track_if_reliable opts p s2"
    using assms by (auto simp: send_def send_many_def send_single_def Let_def split: if_splits sum.splits prod.splits list.splits)
  note f = create_packet_Inr [OF c]
  show "p_type p = Data" "p_channel_id p = ch" "p_payload p = payload" "p_fragment_count p = 0"
    "p_ordered p = o_ordered opts" "p_sequenced p = o_sequenced opts"
    by (simp_all add: f)
  show "p_connection_id p = connection_id s" by (simp add: f(14) s0 purge_expired_reliable_def Let_def)
  show "kept (p_sequence p) (waiting opts p (o_now_ms opts)) s1" if "o_reliable opts"
    using that f(8) by (simp add: s1 kept_def waiting_def track_if_reliable_def track_reliable_def expiry_of_def)
qed

lemma waiting_resent:
  assumes "session_inv s" "kept q (waiting opts p until) s" "before_expiry opts now"
    and "unat until + unat (resend_delay_ms s) \<le> unat now"
  shows "p \<in> set (fst (due_resends now s))"
proof -
  obtain e where e: "map_of (pending_reliable s) q = Some e" "waiting opts p until e"
    using assms(2) by (auto simp: kept_def)
  have "unat (pr_last_sent_at_ms e) \<le> unat until" using e(2) by (simp add: waiting_def word_le_nat_alt)
  with assms(4) have "due_entry now (resend_delay_ms s) e"
    using waiting_alive [OF e(2) assms(3)] by (simp add: due_entry_def)
  moreover have "(q, e) \<in> set (pending_reliable s)" "pr_packet e = p"
    using map_of_SomeD [OF e(1)] e(2) by (simp_all add: waiting_def)
  ultimately show ?thesis
    unfolding due_resends_fields(1) [OF assms(1)] by force
qed

section \<open>The first copy that arrives\<close>

definition headroom :: "session \<Rightarrow> bool" where
  "headroom r \<longleftrightarrow> (case highest_received_sequence r of None \<Rightarrow> True | Some h \<Rightarrow> unat h < 2 ^ 32 - 1)"

lemma plain_received:
  assumes "p_type p = Data" "p_fragment_count p = 0" "\<not> p_ordered p" "\<not> p_sequenced p"
    and "p_connection_id p = connection_id r" "\<not> bs_member (p_sequence p) (received_sequences r)"
    and "unat (p_sequence p) < 2 ^ 32 - 1" "headroom r"
  shows "fst (receive oc p t r) = Ok (empty_result\<lparr>rr_delivered :=
    [\<lparr> df_channel_id = p_channel_id p, df_payload = p_payload p, df_sequence = p_sequence p \<rparr>]\<rparr>)"
proof -
  let ?s1 = "(apply_acknowledgements p r)\<lparr>last_received_at_ms := Some t\<rparr>"
  have frame: "received_sequences ?s1 = received_sequences r" "highest_received_sequence ?s1 = highest_received_sequence r"
    by (simp_all add: apply_acknowledgements_def)
  have add: "\<exists>v. rust_add oc h 1 = Some v" if "unat h < 2 ^ 32 - 1" for h :: u32
    using that by (simp add: rust_add_def)
  obtain expected where expected: "(case highest_received_sequence ?s1 of None \<Rightarrow> Some (p_sequence p) | Some h \<Rightarrow> rust_add oc h 1) = Some expected"
    using assms(8) add by (auto simp: frame headroom_def split: option.splits)
  obtain nxt where "rust_add oc (p_sequence p) 1 = Some nxt" using add [OF assms(7)] by blast
  then show ?thesis
    using assms(1-6) frame(1) expected
    by (simp add: receive_def require_connection_def Let_def receive_data_def reassemble_def deliver_frame_def)
qed

text \<open>C2.
  Losses are recovered. A payload is sent reliably on an unordered channel, and then the sender goes
  on with any calls, sends, resends and receives, as long as nothing acknowledges the packet and it
  has not expired. However many copies were lost, once the resend delay has passed since the last
  one, the packet is among those to be sent again, and a receiver of the connection that has not got
  it yet hands out exactly the payload when this copy arrives, in either build profile.\<close>

theorem losses_recovered:
  assumes "session_inv s" "send ch payload opts s = (Ok p, s1)"
    and "o_reliable opts" "\<not> o_ordered opts" "\<not> o_sequenced opts"
    and "list_all (undisturbed opts (p_sequence p) until) calls" "o_now_ms opts \<le> until"
    and "before_expiry opts now" "unat until + unat (resend_delay_ms s) \<le> unat now"
    and "connection_id r = connection_id s" "\<not> bs_member (p_sequence p) (received_sequences r)"
    and "unat (p_sequence p) < 2 ^ 32 - 1" "headroom r"
  shows "p \<in> set (fst (due_resends now (snd (run_ops (session_step oc) calls s1))))
    \<and> fst (receive oc p t r) = Ok (empty_result\<lparr>rr_delivered :=
        [\<lparr> df_channel_id = ch, df_payload = payload, df_sequence = p_sequence p \<rparr>]\<rparr>)"
proof
  note p = sent_packet [OF assms(2)]
  let ?s2 = "snd (run_ops (session_step oc) calls s1)"
  have sent: "s1 = snd (session_step oc (CallSend ch payload opts) s)" by (simp add: assms(2))
  have inv: "session_inv s1" unfolding sent by (rule session_step_inv [OF assms(1)])
  have "kept (p_sequence p) (waiting opts p until) s1"
    using p(8) [OF assms(3)] assms(7) by (auto simp: kept_def waiting_def)
  then have kept: "kept (p_sequence p) (waiting opts p until) ?s2"
    by (rule undisturbed_run [OF inv _ assms(6)])
  have inv2: "session_inv ?s2" by (rule session_machine.run_inv_total [OF inv]) simp
  have "config ?s2 = config s" using run_config [of oc calls s1] config_step [of oc "CallSend ch payload opts" s] by (simp add: sent)
  then have "resend_delay_ms ?s2 = resend_delay_ms s" by (simp add: config_def)
  with waiting_resent [OF inv2 kept assms(8)] assms(9) show "p \<in> set (fst (due_resends now ?s2))" by simp
  show "fst (receive oc p t r) = Ok (empty_result\<lparr>rr_delivered :=
      [\<lparr> df_channel_id = ch, df_payload = payload, df_sequence = p_sequence p \<rparr>]\<rparr>)"
    using plain_received [of p r oc t] p assms(4,5,10-13) by simp
qed

text \<open>A payload sent at 0, resent in vain at 300, with other traffic between, and resent again at 600.\<close>

definition recovery_options :: send_options where
  "recovery_options = \<lparr> o_reliable = True, o_ordered = False, o_sequenced = False, o_now_ms = 0,
     o_reliable_expire_after_ms = Some 5000 \<rparr>"

definition recovery_receiver :: session where
  "recovery_receiver = session_new (default_session_options\<lparr>so_connection_id := 7\<rparr>)"

lemma losses_recovered_witness:
  "\<exists>p s1. send ''state'' [1, 2] recovery_options ack_sender = (Ok p, s1)
     \<and> p \<in> set (fst (due_resends 600 (snd (run_ops (session_step True) [CallDueResends 300, CallSend ''state'' [3] recovery_options] s1))))
     \<and> fst (receive True p 601 recovery_receiver) = Ok (empty_result\<lparr>rr_delivered :=
         [\<lparr> df_channel_id = ''state'', df_payload = [1, 2], df_sequence = 10 \<rparr>]\<rparr>)"
proof -
  have inv: "session_inv ack_sender" by (simp add: ack_sender_def session_inv_new)
  have "is_ok (fst (send ''state'' [1, 2] recovery_options ack_sender))"
    "map_sum id p_sequence (fst (send ''state'' [1, 2] recovery_options ack_sender)) = Inr 10"
    by code_simp+
  then obtain p s1 where sent: "send ''state'' [1, 2] recovery_options ack_sender = (Ok p, s1)" "p_sequence p = 10"
    by (cases "send ''state'' [1, 2] recovery_options ack_sender") (auto simp: is_ok_iff)
  have "resend_delay_ms ack_sender = 250" "connection_id recovery_receiver = connection_id ack_sender"
    "\<not> bs_member 10 (received_sequences recovery_receiver)" "headroom recovery_receiver"
    "before_expiry recovery_options 600"
    "list_all (undisturbed recovery_options 10 300) [CallDueResends 300, CallSend ''state'' [3] recovery_options]"
    "o_reliable recovery_options" "\<not> o_ordered recovery_options" "\<not> o_sequenced recovery_options" "o_now_ms recovery_options \<le> 300"
    by code_simp+
  with losses_recovered [OF inv sent(1), where until = 300 and now = 600 and r = recovery_receiver and oc = True and t = 601
      and calls = "[CallDueResends 300, CallSend ''state'' [3] recovery_options]"] sent
  show ?thesis by auto
qed

end
