(* ===== verification/WireCodec.thy ===== *)
theory WireCodec
  imports Contracts
begin

text \<open>
  The wire codecs of \<open>src/contracts.rs\<close>: raw \<open>cultnet.schema.v0\<close> messages and the legacy
  union arrays of \<open>gamecult.networking.v0\<close>, over the value type of the \<open>rmpv\<close> crate. That type,
  its constructors and accessors are parameters (\<open>wire_ops\<close>), as are the base64 engine and
  the serde path for the other schema messages; \<open>rmpv_laws\<close> and \<open>base64_laws\<close> state the
  documented behaviour the round trips rest on.
\<close>

section \<open>Parameters\<close>

record 'v wire_ops =
  v_nil :: 'v
  v_bool :: "bool \<Rightarrow> 'v"
  v_int :: "int \<Rightarrow> 'v"
  v_str :: "string \<Rightarrow> 'v"
  v_bin :: "bytes \<Rightarrow> 'v"
  v_array :: "'v list \<Rightarrow> 'v"
  v_map :: "('v \<times> 'v) list \<Rightarrow> 'v"
  is_nil :: "'v \<Rightarrow> bool"
  as_bool :: "'v \<Rightarrow> bool option"
  as_i64 :: "'v \<Rightarrow> int option"
  as_str :: "'v \<Rightarrow> string option"
  as_slice :: "'v \<Rightarrow> bytes option"
  as_array :: "'v \<Rightarrow> 'v list option"
  as_map :: "'v \<Rightarrow> ('v \<times> 'v) list option"
  b64_encode :: "bytes \<Rightarrow> string"
  b64_decode :: "string \<Rightarrow> string + bytes"

record ('v, 'j) serde_ops =
  message_of_wire :: "'v \<Rightarrow> string + 'j cultnet_message"
  wire_of_message :: "'j cultnet_message \<Rightarrow> string + 'v"
  pack_value :: "'v \<Rightarrow> string + bytes"
  unpack_value :: "bytes \<Rightarrow> string + 'v"

definition rmpv_laws :: "'v wire_ops \<Rightarrow> bool" where
  "rmpv_laws w \<longleftrightarrow>
     (\<forall>s. as_str w (v_str w s) = Some s) \<and> (\<forall>b. as_slice w (v_bin w b) = Some b)
     \<and> (\<forall>b. as_bool w (v_bool w b) = Some b) \<and> (\<forall>xs. as_array w (v_array w xs) = Some xs)
     \<and> (\<forall>kvs. as_map w (v_map w kvs) = Some kvs)
     \<and> (\<forall>i. - (2 ^ 63) \<le> i \<and> i < 2 ^ 63 \<longrightarrow> as_i64 w (v_int w i) = Some i)
     \<and> is_nil w (v_nil w) \<and> (\<forall>s. \<not> is_nil w (v_str w s)) \<and> (\<forall>xs. \<not> is_nil w (v_array w xs))"

definition base64_laws :: "'v wire_ops \<Rightarrow> bool" where
  "base64_laws w \<longleftrightarrow> (\<forall>b. b64_decode w (b64_encode w b) = Inr b)
     \<and> (\<forall>s b. b64_decode w s = Inr b \<longrightarrow> b64_encode w b = s)"

section \<open>Reading fields\<close>

definition find_field :: "'v wire_ops \<Rightarrow> ('v \<times> 'v) list \<Rightarrow> string \<Rightarrow> 'v option" where
  "find_field w object name = map_option snd (List.find (\<lambda>(k, v). as_str w k = Some name) object)"

fun find_schema_version :: "'v wire_ops \<Rightarrow> ('v \<times> 'v) list \<Rightarrow> string option" where
  "find_schema_version w [] = None"
| "find_schema_version w ((k, v) # rest) =
     (case (if as_str w k = Some ''schemaVersion'' then as_str w v else None) of
        Some version \<Rightarrow> Some version | None \<Rightarrow> find_schema_version w rest)"

definition schema_version_from_wire_value :: "'v wire_ops \<Rightarrow> 'v \<Rightarrow> string option" where
  "schema_version_from_wire_value w input =
     (case as_map w input of None \<Rightarrow> None | Some object \<Rightarrow> find_schema_version w object)"

definition require_some :: "'a option \<Rightarrow> contract_error \<Rightarrow> 'a contract_result" where
  "require_some v e = (case v of None \<Rightarrow> Err e | Some x \<Rightarrow> Ok x)"

definition require_legacy_bytes :: "'v wire_ops \<Rightarrow> 'v option \<Rightarrow> string \<Rightarrow> string contract_result" where
  "require_legacy_bytes w value field_name =
     bind_result (require_some (Option.bind value (as_slice w)) (WrongType field_name))
       (\<lambda>bytes. Ok (b64_encode w bytes))"

definition require_legacy_string :: "'v wire_ops \<Rightarrow> 'v option \<Rightarrow> string \<Rightarrow> string contract_result" where
  "require_legacy_string w value field_name =
     require_some (Option.bind value (as_str w)) (WrongType field_name)"

definition require_legacy_bool :: "'v wire_ops \<Rightarrow> 'v option \<Rightarrow> string \<Rightarrow> bool contract_result" where
  "require_legacy_bool w value field_name =
     require_some (Option.bind value (as_bool w)) (WrongType field_name)"

definition require_legacy_optional_string_array ::
  "'v wire_ops \<Rightarrow> 'v option \<Rightarrow> string \<Rightarrow> string list option contract_result" where
  "require_legacy_optional_string_array w value field_name =
     (case value of
        None \<Rightarrow> Ok None
      | Some v \<Rightarrow>
          if is_nil w v then Ok None
          else bind_result (require_some (as_array w v) (WrongType field_name)) (\<lambda>items.
            bind_result (map_result (\<lambda>item. require_some (as_str w item) (WrongType field_name)) items)
              (\<lambda>values. Ok (Some values))))"

definition require_legacy_optional_string ::
  "'v wire_ops \<Rightarrow> 'v option \<Rightarrow> string \<Rightarrow> string option contract_result" where
  "require_legacy_optional_string w value field_name =
     (case value of
        None \<Rightarrow> Ok None
      | Some v \<Rightarrow> if is_nil w v then Ok None
          else bind_result (require_legacy_string w (Some v) field_name) (\<lambda>s. Ok (Some s)))"

definition schema_kind_of_name :: "string \<Rightarrow> schema_kind option" where
  "schema_kind_of_name s =
     (if s = ''wire_message'' then Some WireMessage
      else if s = ''document_payload'' then Some DocumentPayload
      else if s = ''shared_contract'' then Some SharedContract else None)"

fun schema_kind_name :: "schema_kind \<Rightarrow> string" where
  "schema_kind_name WireMessage = ''wire_message''"
| "schema_kind_name DocumentPayload = ''document_payload''"
| "schema_kind_name SharedContract = ''shared_contract''"

definition wire_contract_of_name :: "string \<Rightarrow> wire_contract option" where
  "wire_contract_of_name s =
     (if s = ''cultnet.schema.v0'' then Some CultNetSchemaV0
      else if s = ''gamecult.networking.v0'' then Some GameCultNetworkingV0 else None)"

fun wire_contract_name :: "wire_contract \<Rightarrow> string" where
  "wire_contract_name CultNetSchemaV0 = ''cultnet.schema.v0''"
| "wire_contract_name GameCultNetworkingV0 = ''gamecult.networking.v0''"

definition require_legacy_optional_schema_kind_array ::
  "'v wire_ops \<Rightarrow> 'v option \<Rightarrow> string \<Rightarrow> schema_kind list option contract_result" where
  "require_legacy_optional_schema_kind_array w value field_name =
     bind_result (require_legacy_optional_string_array w value field_name) (\<lambda>values.
       case values of
         None \<Rightarrow> Ok None
       | Some names \<Rightarrow>
           bind_result (map_result (\<lambda>name. require_some (schema_kind_of_name name) (Unsupported field_name)) names)
             (\<lambda>kinds. Ok (Some kinds)))"

definition require_legacy_optional_wire_contracts ::
  "'v wire_ops \<Rightarrow> 'v option \<Rightarrow> string \<Rightarrow> wire_contract list contract_result" where
  "require_legacy_optional_wire_contracts w value field_name =
     bind_result (require_legacy_optional_string_array w value field_name) (\<lambda>values.
       case values of
         None \<Rightarrow> Ok []
       | Some names \<Rightarrow>
           map_result (\<lambda>name. require_some (wire_contract_of_name name) (Unsupported field_name)) names)"

section \<open>Raw schema messages\<close>

definition opt_value :: "'v wire_ops \<Rightarrow> string option \<Rightarrow> 'v" where
  "opt_value w s = (case s of None \<Rightarrow> v_nil w | Some x \<Rightarrow> v_str w x)"

definition legacy_optional_string_array :: "'v wire_ops \<Rightarrow> string list option \<Rightarrow> 'v" where
  "legacy_optional_string_array w input =
     (case input of Some values \<Rightarrow> v_array w (map (v_str w) values) | None \<Rightarrow> v_nil w)"

fun raw_payload_encoding_name :: "raw_payload_encoding \<Rightarrow> string" where
  "raw_payload_encoding_name Messagepack = ''messagepack''"

definition encode_raw_document_record :: "'v wire_ops \<Rightarrow> raw_document_record \<Rightarrow> 'v" where
  "encode_raw_document_record w d = v_map w
     [(v_str w ''schemaId'', v_str w (rd_schema_id d)),
      (v_str w ''recordKey'', v_str w (rd_record_key d)),
      (v_str w ''storedAt'', v_str w (rd_stored_at d)),
      (v_str w ''payloadEncoding'', v_str w (raw_payload_encoding_name (rd_payload_encoding d))),
      (v_str w ''payload'', v_bin w (rd_payload d)),
      (v_str w ''sourceRuntimeId'', opt_value w (rd_source_runtime_id d)),
      (v_str w ''sourceAgentId'', opt_value w (rd_source_agent_id d)),
      (v_str w ''sourceRole'', opt_value w (rd_source_role d)),
      (v_str w ''tags'', legacy_optional_string_array w (rd_tags d))]"

definition require_raw_document_record ::
  "'v wire_ops \<Rightarrow> 'v option \<Rightarrow> string \<Rightarrow> raw_document_record contract_result" where
  "require_raw_document_record w value field_name =
     bind_result (require_some (Option.bind value (as_map w)) (WrongType field_name)) (\<lambda>object.
     let field = (\<lambda>name. find_field w object name) in
     bind_result (require_legacy_string w (field ''payloadEncoding'') (field_name @ ''.payloadEncoding'')) (\<lambda>enc.
     bind_result (require_legacy_string w (field ''schemaId'') (field_name @ ''.schemaId'')) (\<lambda>schema_id.
     bind_result (require_legacy_string w (field ''recordKey'') (field_name @ ''.recordKey'')) (\<lambda>record_key.
     bind_result (require_legacy_string w (field ''storedAt'') (field_name @ ''.storedAt'')) (\<lambda>stored_at.
     bind_result (if enc = ''messagepack'' then Ok Messagepack
                  else Err (Unsupported (field_name @ ''.payloadEncoding''))) (\<lambda>payload_encoding.
     bind_result (require_some (Option.bind (field ''payload'') (as_slice w))
                    (WrongType (field_name @ ''.payload''))) (\<lambda>payload.
     bind_result (require_legacy_optional_string w (field ''sourceRuntimeId'') (field_name @ ''.sourceRuntimeId'')) (\<lambda>source_runtime_id.
     bind_result (require_legacy_optional_string w (field ''sourceAgentId'') (field_name @ ''.sourceAgentId'')) (\<lambda>source_agent_id.
     bind_result (require_legacy_optional_string w (field ''sourceRole'') (field_name @ ''.sourceRole'')) (\<lambda>source_role.
     bind_result (require_legacy_optional_string_array w (field ''tags'') (field_name @ ''.tags'')) (\<lambda>tags.
       Ok \<lparr> rd_schema_id = schema_id, rd_record_key = record_key, rd_stored_at = stored_at,
            rd_payload_encoding = payload_encoding, rd_payload = payload,
            rd_source_runtime_id = source_runtime_id, rd_source_agent_id = source_agent_id,
            rd_source_role = source_role, rd_tags = tags \<rparr>)))))))))))"

definition parse_raw_cultnet_schema_message ::
  "'v wire_ops \<Rightarrow> 'v \<Rightarrow> 'j cultnet_message contract_result" where
  "parse_raw_cultnet_schema_message w input =
     bind_result (require_some (as_map w input) (WrongType ''message'')) (\<lambda>object.
     let field = (\<lambda>name. find_field w object name) in
     bind_result (require_legacy_string w (field ''schemaVersion'') ''schemaVersion'') (\<lambda>schema_version.
       if schema_version = ''cultnet.document_put_raw.v0'' then
         bind_result (require_legacy_string w (field ''messageId'') ''messageId'') (\<lambda>message_id.
         bind_result (require_raw_document_record w (field ''document'') ''document'') (\<lambda>document.
           Ok (DocumentPutRaw message_id document)))
       else if schema_version = ''cultnet.snapshot_response_raw.v0'' then
         bind_result (require_some (Option.bind (field ''documents'') (as_array w)) (WrongType ''documents'')) (\<lambda>items.
         bind_result (map_result (\<lambda>(index, value). require_raw_document_record w (Some value)
              (''documents['' @ show_nat index @ '']'')) (List.enumerate 0 items)) (\<lambda>documents.
         bind_result (require_legacy_string w (field ''messageId'') ''messageId'') (\<lambda>message_id.
           Ok (SnapshotResponseRaw message_id documents))))
       else Err (Unsupported ''schemaVersion'')))"

fun encode_raw_cultnet_schema_message :: "'v wire_ops \<Rightarrow> 'j cultnet_message \<Rightarrow> 'v contract_result" where
  "encode_raw_cultnet_schema_message w (DocumentPutRaw message_id document) =
     Ok (v_map w [(v_str w ''schemaVersion'', v_str w ''cultnet.document_put_raw.v0''),
       (v_str w ''messageId'', v_str w message_id),
       (v_str w ''document'', encode_raw_document_record w document)])"
| "encode_raw_cultnet_schema_message w (SnapshotResponseRaw message_id documents) =
     Ok (v_map w [(v_str w ''schemaVersion'', v_str w ''cultnet.snapshot_response_raw.v0''),
       (v_str w ''messageId'', v_str w message_id),
       (v_str w ''documents'', v_array w (map (encode_raw_document_record w) documents))])"
| "encode_raw_cultnet_schema_message w _ = Err NotInContract"

end
