(* ===== verification/LegacyCodec.thy ===== *)
theory LegacyCodec
  imports WireCodec
begin

text \<open>
  The legacy \<open>gamecult.networking.v0\<close> contract of \<open>src/contracts.rs\<close> and the dispatch between
  the two contracts: \<open>parse_cultnet_message\<close> and \<open>encode_cultnet_message_for_wire\<close> with their
  byte-level wrappers, and the round trips of both contracts.
\<close>

section \<open>Schema descriptors\<close>

definition legacy_schema_descriptor :: "'v wire_ops \<Rightarrow> schema_descriptor \<Rightarrow> 'v" where
  "legacy_schema_descriptor w d = v_map w
     [(v_str w ''schemaId'', v_str w (sd_schema_id d)),
      (v_str w ''kind'', v_str w (schema_kind_name (sd_kind d))),
      (v_str w ''schemaVersion'', opt_value w (sd_schema_version d)),
      (v_str w ''documentType'', opt_value w (sd_document_type d)),
      (v_str w ''title'', opt_value w (sd_title d)),
      (v_str w ''wireContracts'', v_array w (map (v_str w \<circ> wire_contract_name) (sd_wire_contracts d))),
      (v_str w ''contentHash'', v_str w (sd_content_hash d)),
      (v_str w ''schemaJson'', opt_value w (sd_schema_json d))]"

definition require_legacy_schema_descriptor ::
  "'v wire_ops \<Rightarrow> 'v \<Rightarrow> string \<Rightarrow> schema_descriptor contract_result" where
  "require_legacy_schema_descriptor w value field_name =
     bind_result (require_some (as_map w value) (WrongType field_name)) (\<lambda>object.
     let field = (\<lambda>name. find_field w object name) in
     bind_result (require_legacy_string w (field ''schemaId'') (field_name @ ''.SchemaId'')) (\<lambda>schema_id.
     bind_result (require_legacy_string w (field ''kind'') (field_name @ ''.Kind'')) (\<lambda>kind_name.
     bind_result (require_legacy_optional_string w (field ''schemaVersion'') (field_name @ ''.SchemaVersion'')) (\<lambda>schema_version.
     bind_result (require_legacy_optional_string w (field ''documentType'') (field_name @ ''.DocumentType'')) (\<lambda>document_type.
     bind_result (require_legacy_optional_string w (field ''title'') (field_name @ ''.Title'')) (\<lambda>title.
     bind_result (require_legacy_optional_wire_contracts w (field ''wireContracts'') (field_name @ ''.WireContracts'')) (\<lambda>wire_contracts.
     bind_result (require_legacy_string w (field ''contentHash'') (field_name @ ''.ContentHash'')) (\<lambda>content_hash.
     bind_result (require_legacy_optional_string w (field ''schemaJson'') (field_name @ ''.SchemaJson'')) (\<lambda>schema_json.
     bind_result (require_some (schema_kind_of_name kind_name) (Unsupported (field_name @ ''.Kind''))) (\<lambda>kind.
       Ok \<lparr> sd_schema_id = schema_id, sd_kind = kind, sd_schema_version = schema_version,
            sd_document_type = document_type, sd_title = title, sd_wire_contracts = wire_contracts,
            sd_content_hash = content_hash, sd_schema_json = schema_json \<rparr>))))))))))"

definition require_legacy_schema_descriptor_array ::
  "'v wire_ops \<Rightarrow> 'v option \<Rightarrow> string \<Rightarrow> schema_descriptor list contract_result" where
  "require_legacy_schema_descriptor_array w value field_name =
     bind_result (require_some (Option.bind value (as_array w)) (WrongType field_name)) (\<lambda>items.
       map_result (\<lambda>(index, item). require_legacy_schema_descriptor w item
          (field_name @ ''['' @ show_nat index @ '']'')) (List.enumerate 0 items))"

definition legacy_optional_schema_kind_array :: "'v wire_ops \<Rightarrow> schema_kind list option \<Rightarrow> 'v" where
  "legacy_optional_schema_kind_array w input =
     (case input of
        Some values \<Rightarrow> v_array w (map (v_str w \<circ> schema_kind_name) values)
      | None \<Rightarrow> v_nil w)"

definition legacy_bytes :: "'v wire_ops \<Rightarrow> string \<Rightarrow> string \<Rightarrow> 'v contract_result" where
  "legacy_bytes w input field_name =
     (if trim_is_empty input then Err (FieldEmpty field_name)
      else case b64_decode w input of Inl e \<Rightarrow> Err (Base64Error e) | Inr bytes \<Rightarrow> Ok (v_bin w bytes))"

section \<open>Union messages\<close>

definition parse_gamecult_networking_message ::
  "'v wire_ops \<Rightarrow> 'v \<Rightarrow> 'j cultnet_message contract_result" where
  "parse_gamecult_networking_message w input =
     bind_result (require_some (as_array w input) (WrongType ''message'')) (\<lambda>items.
     if length items \<noteq> 2 then Err (WrongType ''message'')
     else
     bind_result (require_some (as_i64 w (items ! 0)) (WrongType ''tag'')) (\<lambda>tag.
     bind_result (require_some (as_array w (items ! 1)) (WrongType ''payload'')) (\<lambda>payload.
     if tag = 0 then
       bind_result (require_legacy_bytes w (nth_opt payload 0) ''LoginMessage.Nonce'') (\<lambda>nonce.
       bind_result (require_legacy_bytes w (nth_opt payload 1) ''LoginMessage.Auth'') (\<lambda>auth.
       bind_result (require_legacy_bytes w (nth_opt payload 2) ''LoginMessage.Password'') (\<lambda>password.
         Ok (Login nonce auth password))))
     else if tag = 1 then
       bind_result (require_legacy_bytes w (nth_opt payload 0) ''RegisterMessage.Nonce'') (\<lambda>nonce.
       bind_result (require_legacy_bytes w (nth_opt payload 1) ''RegisterMessage.Email'') (\<lambda>email.
       bind_result (require_legacy_bytes w (nth_opt payload 2) ''RegisterMessage.Password'') (\<lambda>password.
       bind_result (require_legacy_bytes w (nth_opt payload 3) ''RegisterMessage.Name'') (\<lambda>name.
         Ok (Register nonce email password name)))))
     else if tag = 2 then
       bind_result (require_legacy_bytes w (nth_opt payload 0) ''VerifyMessage.Nonce'') (\<lambda>nonce.
       bind_result (require_legacy_bytes w (nth_opt payload 1) ''VerifyMessage.Session'') (\<lambda>session.
         Ok (Verify nonce session)))
     else if tag = 3 then
       bind_result (require_legacy_bytes w (nth_opt payload 0) ''LoginSuccessMessage.Nonce'') (\<lambda>nonce.
       bind_result (require_legacy_bytes w (nth_opt payload 1) ''LoginSuccessMessage.Session'') (\<lambda>session.
         Ok (LoginSuccess nonce session)))
     else if tag = 4 then
       bind_result (require_legacy_string w (nth_opt payload 0) ''ErrorMessage.Error'') (\<lambda>error. Ok (Error error))
     else if tag = 5 then
       bind_result (require_legacy_string w (nth_opt payload 0) ''ChangeNameMessage.Name'') (\<lambda>name. Ok (SampleChangeName name))
     else if tag = 6 then
       bind_result (require_legacy_string w (nth_opt payload 0) ''ChatMessage.Text'') (\<lambda>text. Ok (SampleChat text))
     else if tag = 7 then
       bind_result (require_legacy_string w (nth_opt payload 0) ''SchemaCatalogRequestMessage.MessageId'') (\<lambda>message_id.
       bind_result (require_legacy_bool w (nth_opt payload 1) ''SchemaCatalogRequestMessage.IncludeSchemaJson'') (\<lambda>include.
       bind_result (require_legacy_optional_string_array w (nth_opt payload 2) ''SchemaCatalogRequestMessage.SchemaIds'') (\<lambda>schema_ids.
       bind_result (require_legacy_optional_schema_kind_array w (nth_opt payload 3) ''SchemaCatalogRequestMessage.Kinds'') (\<lambda>kinds.
         Ok (SchemaCatalogRequest message_id (Some include) schema_ids kinds)))))
     else if tag = 8 then
       bind_result (require_legacy_string w (nth_opt payload 0) ''SchemaCatalogResponseMessage.MessageId'') (\<lambda>message_id.
       bind_result (require_legacy_schema_descriptor_array w (nth_opt payload 1) ''SchemaCatalogResponseMessage.Schemas'') (\<lambda>schemas.
         Ok (SchemaCatalogResponse message_id schemas)))
     else Err (Unsupported ''tag''))))"

definition union_message :: "'v wire_ops \<Rightarrow> int \<Rightarrow> 'v list contract_result \<Rightarrow> 'v contract_result" where
  "union_message w tag payload = bind_result payload (\<lambda>items. Ok (v_array w [v_int w tag, v_array w items]))"

fun encode_gamecult_networking_message :: "'v wire_ops \<Rightarrow> 'j cultnet_message \<Rightarrow> 'v contract_result" where
  "encode_gamecult_networking_message w (Login nonce auth password) =
     union_message w 0 (map_result (\<lambda>(value, field). legacy_bytes w value field)
       [(nonce, ''LoginMessage.Nonce''), (auth, ''LoginMessage.Auth''), (password, ''LoginMessage.Password'')])"
| "encode_gamecult_networking_message w (Register nonce email password name) =
     union_message w 1 (map_result (\<lambda>(value, field). legacy_bytes w value field)
       [(nonce, ''RegisterMessage.Nonce''), (email, ''RegisterMessage.Email''),
        (password, ''RegisterMessage.Password''), (name, ''RegisterMessage.Name'')])"
| "encode_gamecult_networking_message w (Verify nonce session) =
     union_message w 2 (map_result (\<lambda>(value, field). legacy_bytes w value field)
       [(nonce, ''VerifyMessage.Nonce''), (session, ''VerifyMessage.Session'')])"
| "encode_gamecult_networking_message w (LoginSuccess nonce session) =
     union_message w 3 (map_result (\<lambda>(value, field). legacy_bytes w value field)
       [(nonce, ''LoginSuccessMessage.Nonce''), (session, ''LoginSuccessMessage.Session'')])"
| "encode_gamecult_networking_message w (Error error) = union_message w 4 (Ok [v_str w error])"
| "encode_gamecult_networking_message w (SampleChangeName name) = union_message w 5 (Ok [v_str w name])"
| "encode_gamecult_networking_message w (SampleChat text) = union_message w 6 (Ok [v_str w text])"
| "encode_gamecult_networking_message w (SchemaCatalogRequest message_id include_schema_json schema_ids kinds) =
     union_message w 7 (Ok [v_str w message_id,
       v_bool w (case include_schema_json of None \<Rightarrow> False | Some b \<Rightarrow> b),
       legacy_optional_string_array w schema_ids, legacy_optional_schema_kind_array w kinds])"
| "encode_gamecult_networking_message w (SchemaCatalogResponse message_id schemas) =
     union_message w 8 (Ok [v_str w message_id, v_array w (map (legacy_schema_descriptor w) schemas)])"
| "encode_gamecult_networking_message w _ = Err NotInContract"

section \<open>Both contracts\<close>

definition serde_step :: "string + 'a \<Rightarrow> 'a contract_result" where
  "serde_step r = (case r of Inl e \<Rightarrow> Err (SerdeError e) | Inr x \<Rightarrow> Ok x)"

definition parse_cultnet_message ::
  "'v wire_ops \<Rightarrow> ('v, 'j) serde_ops \<Rightarrow> 'v \<Rightarrow> wire_contract \<Rightarrow> 'j cultnet_message contract_result" where
  "parse_cultnet_message w sd wire_value contract =
     (case contract of
        CultNetSchemaV0 \<Rightarrow>
          bind_result
            (if schema_version_from_wire_value w wire_value
                  \<in> {Some ''cultnet.document_put_raw.v0'', Some ''cultnet.snapshot_response_raw.v0''}
             then parse_raw_cultnet_schema_message w wire_value
             else serde_step (message_of_wire sd wire_value))
            (\<lambda>message. bind_result (validate_message message) (\<lambda>_. Ok message))
      | GameCultNetworkingV0 \<Rightarrow> parse_gamecult_networking_message w wire_value)"

fun is_raw_message :: "'j cultnet_message \<Rightarrow> bool" where
  "is_raw_message (DocumentPutRaw _ _) = True"
| "is_raw_message (SnapshotResponseRaw _ _) = True"
| "is_raw_message _ = False"

definition encode_cultnet_message_for_wire ::
  "'v wire_ops \<Rightarrow> ('v, 'j) serde_ops \<Rightarrow> 'j cultnet_message \<Rightarrow> wire_contract \<Rightarrow> 'v contract_result" where
  "encode_cultnet_message_for_wire w sd message contract =
     bind_result (validate_message message) (\<lambda>_.
       case contract of
         CultNetSchemaV0 \<Rightarrow>
           if is_raw_message message then encode_raw_cultnet_schema_message w message
           else serde_step (wire_of_message sd message)
       | GameCultNetworkingV0 \<Rightarrow> encode_gamecult_networking_message w message)"

definition encode_cultnet_message_to_vec ::
  "'v wire_ops \<Rightarrow> ('v, 'j) serde_ops \<Rightarrow> 'j cultnet_message \<Rightarrow> wire_contract \<Rightarrow> bytes contract_result" where
  "encode_cultnet_message_to_vec w sd message contract =
     bind_result (encode_cultnet_message_for_wire w sd message contract)
       (\<lambda>wire_value. serde_step (pack_value sd wire_value))"

definition decode_cultnet_message_from_slice ::
  "'v wire_ops \<Rightarrow> ('v, 'j) serde_ops \<Rightarrow> bytes \<Rightarrow> wire_contract \<Rightarrow> 'j cultnet_message contract_result" where
  "decode_cultnet_message_from_slice w sd bytes contract =
     bind_result (serde_step (unpack_value sd bytes))
       (\<lambda>wire_value. parse_cultnet_message w sd wire_value contract)"

section \<open>Reading back what was written\<close>

named_theorems wire_simps

lemma rmpv_lawsD:
  assumes "rmpv_laws w"
  shows "as_str w (v_str w s) = Some s" "as_slice w (v_bin w b) = Some b" "as_bool w (v_bool w c) = Some c"
    "as_array w (v_array w xs) = Some xs" "as_map w (v_map w kvs) = Some kvs"
    "- (2 ^ 63) \<le> i \<Longrightarrow> i < 2 ^ 63 \<Longrightarrow> as_i64 w (v_int w i) = Some i"
    "is_nil w (v_nil w)" "\<not> is_nil w (v_str w s)" "\<not> is_nil w (v_array w xs)"
  using assms by (simp_all add: rmpv_laws_def)

lemma require_some_simps [simp, wire_simps]: "require_some (Some x) e = Inr x" "require_some None e = Inl e"
  by (simp_all add: require_some_def)

lemma read_string [wire_simps]:
  "rmpv_laws w \<Longrightarrow> require_legacy_string w (Some (v_str w s)) f = Inr s"
  by (simp add: require_legacy_string_def rmpv_lawsD)

lemma read_bool [wire_simps]:
  "rmpv_laws w \<Longrightarrow> require_legacy_bool w (Some (v_bool w b)) f = Inr b"
  by (simp add: require_legacy_bool_def rmpv_lawsD)

lemma read_bytes [wire_simps]:
  "rmpv_laws w \<Longrightarrow> require_legacy_bytes w (Some (v_bin w b)) f = Inr (b64_encode w b)"
  by (simp add: require_legacy_bytes_def rmpv_lawsD)

lemma read_optional_string [wire_simps]:
  "rmpv_laws w \<Longrightarrow> require_legacy_optional_string w (Some (opt_value w s)) f = Inr s"
  by (cases s) (simp_all add: require_legacy_optional_string_def opt_value_def rmpv_lawsD read_string)

lemma read_strings:
  "rmpv_laws w \<Longrightarrow> map_result (\<lambda>item. require_some (as_str w item) e) (map (v_str w) values) = Inr values"
  by (induction "values") (simp_all add: rmpv_lawsD)

lemma read_optional_strings [wire_simps]:
  "rmpv_laws w \<Longrightarrow>
   require_legacy_optional_string_array w (Some (legacy_optional_string_array w values)) f = Inr values"
  by (cases "values") (simp_all add: require_legacy_optional_string_array_def
      legacy_optional_string_array_def rmpv_lawsD read_strings)

lemma schema_kind_names [simp]: "schema_kind_of_name (schema_kind_name k) = Some k"
  by (cases k) (simp_all add: schema_kind_of_name_def)

lemma wire_contract_names [simp]: "wire_contract_of_name (wire_contract_name c) = Some c"
  by (cases c) (simp_all add: wire_contract_of_name_def)

lemma read_names:
  "(\<And>x. of_name (name x) = Some x) \<Longrightarrow>
   map_result (\<lambda>n. require_some (of_name n) e) (map name values) = Inr values"
  by (induction "values") simp_all

lemma read_optional_kinds [wire_simps]:
  assumes "rmpv_laws w"
  shows "require_legacy_optional_schema_kind_array w (Some (legacy_optional_schema_kind_array w kinds)) f = Inr kinds"
proof -
  have "legacy_optional_schema_kind_array w kinds
      = legacy_optional_string_array w (map_option (map schema_kind_name) kinds)"
    by (cases kinds) (simp_all add: legacy_optional_schema_kind_array_def legacy_optional_string_array_def)
  then show ?thesis
    by (cases kinds) (simp_all add: require_legacy_optional_schema_kind_array_def read_optional_strings [OF assms]
        read_names)
qed

lemma read_wire_contracts [wire_simps]:
  assumes "rmpv_laws w"
  shows "require_legacy_optional_wire_contracts w
    (Some (v_array w (map (v_str w \<circ> wire_contract_name) cs))) f = Inr cs"
proof -
  have "v_array w (map (v_str w \<circ> wire_contract_name) cs)
      = legacy_optional_string_array w (Some (map wire_contract_name cs))"
    by (simp add: legacy_optional_string_array_def)
  then show ?thesis
    by (simp add: require_legacy_optional_wire_contracts_def read_optional_strings [OF assms] read_names)
qed

lemma find_field_Cons [wire_simps]:
  "rmpv_laws w \<Longrightarrow> find_field w ((v_str w k, v) # kvs) name = (if k = name then Some v else find_field w kvs name)"
  "find_field w [] name = None"
  by (simp_all add: find_field_def rmpv_lawsD)

lemma raw_document_roundtrip:
  assumes "rmpv_laws w"
  shows "require_raw_document_record w (Some (encode_raw_document_record w d)) f = Inr d"
proof (cases "rd_payload_encoding d")
  case Messagepack
  with assms show ?thesis
    by (simp add: require_raw_document_record_def encode_raw_document_record_def rmpv_lawsD wire_simps)
qed

lemma descriptor_roundtrip:
  assumes "rmpv_laws w"
  shows "require_legacy_schema_descriptor w (legacy_schema_descriptor w d) f = Inr d"
  using assms
  by (simp add: require_legacy_schema_descriptor_def legacy_schema_descriptor_def rmpv_lawsD wire_simps)

lemma map_result_enumerate:
  "(\<And>i x. f (i, enc x) = Inr x) \<Longrightarrow> map_result f (List.enumerate n (map enc xs)) = Inr xs"
  by (induction xs arbitrary: n) simp_all

lemma parse_raw_encode:
  assumes "rmpv_laws w" "encode_raw_cultnet_schema_message w m = Inr v"
  shows "parse_raw_cultnet_schema_message w v = Inr m"
    "schema_version_from_wire_value w v
       \<in> {Some ''cultnet.document_put_raw.v0'', Some ''cultnet.snapshot_response_raw.v0''}"
proof -
  have docs: "map_result (\<lambda>(i, x). require_raw_document_record w (Some x) (f i))
      (List.enumerate 0 (map (encode_raw_document_record w) ds)) = Inr ds" for f :: "nat \<Rightarrow> string" and ds
    by (rule map_result_enumerate) (simp add: raw_document_roundtrip [OF assms(1)])
  show "parse_raw_cultnet_schema_message w v = Inr m"
    using assms by (cases m) (auto simp: parse_raw_cultnet_schema_message_def rmpv_lawsD wire_simps
        raw_document_roundtrip docs)
  show "schema_version_from_wire_value w v
       \<in> {Some ''cultnet.document_put_raw.v0'', Some ''cultnet.snapshot_response_raw.v0''}"
    using assms by (cases m) (auto simp: schema_version_from_wire_value_def rmpv_lawsD)
qed

section \<open>The legacy contract\<close>

text \<open>
  What the union arrays can say: an absent \<open>includeSchemaJson\<close> comes back as false, every other
  field unchanged.
\<close>

fun legacy_normalised :: "'j cultnet_message \<Rightarrow> 'j cultnet_message" where
  "legacy_normalised (SchemaCatalogRequest mid include sids kinds) =
     SchemaCatalogRequest mid (Some (case include of None \<Rightarrow> False | Some b \<Rightarrow> b)) sids kinds"
| "legacy_normalised m = m"

fun in_legacy_contract :: "'j cultnet_message \<Rightarrow> bool" where
  "in_legacy_contract (Login _ _ _) = True"
| "in_legacy_contract (Register _ _ _ _) = True"
| "in_legacy_contract (Verify _ _) = True"
| "in_legacy_contract (LoginSuccess _ _) = True"
| "in_legacy_contract (Error _) = True"
| "in_legacy_contract (SampleChangeName _) = True"
| "in_legacy_contract (SampleChat _) = True"
| "in_legacy_contract (SchemaCatalogRequest _ _ _ _) = True"
| "in_legacy_contract (SchemaCatalogResponse _ _) = True"
| "in_legacy_contract _ = False"

lemma legacy_bytes_Inr:
  assumes "rmpv_laws w" "base64_laws w" "legacy_bytes w s f = Inr v"
  shows "require_legacy_bytes w (Some v) f' = Inr s"
  using assms
  by (auto simp: legacy_bytes_def base64_laws_def read_bytes split: if_splits sum.splits)

lemma union_message_Inr: "union_message w t p = Inr v \<longleftrightarrow> (\<exists>items. p = Inr items \<and> v = v_array w [v_int w t, v_array w items])"
  by (auto simp: union_message_def bind_result_Inr_iff)

lemma map_result_Cons_Inr:
  "map_result f (x # xs) = Inr ys \<longleftrightarrow> (\<exists>y zs. f x = Inr y \<and> map_result f xs = Inr zs \<and> ys = y # zs)"
  "map_result f [] = Inr ys \<longleftrightarrow> ys = []"
  by (auto split: sum.splits)

lemma parse_legacy_union:
  assumes "rmpv_laws w" "- (2 ^ 63) \<le> t" "t < 2 ^ 63"
  shows "as_array w (v_array w [v_int w t, v_array w items]) = Some [v_int w t, v_array w items]"
    "as_i64 w (v_int w t) = Some t"
  using assms by (simp_all add: rmpv_lawsD)

lemma legacy_parse_encode:
  assumes w: "rmpv_laws w" "base64_laws w" and enc: "encode_gamecult_networking_message w m = Inr v"
  shows "parse_gamecult_networking_message w v = Inr (legacy_normalised m)" "in_legacy_contract m"
proof -
  have descriptors: "map_result (\<lambda>(i, x). require_legacy_schema_descriptor w x (f i))
      (List.enumerate 0 (map (legacy_schema_descriptor w) ds)) = Inr ds" for f :: "nat \<Rightarrow> string" and ds
    by (rule map_result_enumerate) (simp add: descriptor_roundtrip [OF w(1)])
  have schemas: "require_legacy_schema_descriptor_array w (Some (v_array w (map (legacy_schema_descriptor w) ds))) f = Inr ds"
    for f ds
    by (simp add: require_legacy_schema_descriptor_array_def rmpv_lawsD(4) [OF w(1)] descriptors)
  show "in_legacy_contract m" using enc by (cases m) simp_all
  show "parse_gamecult_networking_message w v = Inr (legacy_normalised m)"
    using enc w(1)
    by (cases m) (auto simp: parse_gamecult_networking_message_def union_message_Inr map_result_Cons_Inr
        rmpv_lawsD wire_simps schemas legacy_bytes_Inr [OF w] simp del: map_result.simps)
qed

text \<open>The fields the union arrays carry as bytes: they must be base64 text.\<close>

fun base64_fields :: "'j cultnet_message \<Rightarrow> string list" where
  "base64_fields (Login nonce auth password) = [nonce, auth, password]"
| "base64_fields (Register nonce email password name) = [nonce, email, password, name]"
| "base64_fields (Verify nonce session) = [nonce, session]"
| "base64_fields (LoginSuccess nonce session) = [nonce, session]"
| "base64_fields _ = []"

definition is_base64 :: "'v wire_ops \<Rightarrow> string \<Rightarrow> bool" where
  "is_base64 w s = is_ok (b64_decode w s)"

lemma legacy_bytes_ok_iff: "(\<exists>v. legacy_bytes w s f = Inr v) \<longleftrightarrow> named s \<and> is_base64 w s"
  by (auto simp: legacy_bytes_def named_def is_base64_def is_ok_iff split: sum.splits)

lemma map_result_ex: "(\<exists>ys. map_result f xs = Inr ys) \<longleftrightarrow> list_all (\<lambda>x. \<exists>y. f x = Inr y) xs"
  by (induction xs) (auto simp: map_result_Cons_Inr simp del: map_result.simps)

lemma union_message_ok: "(\<exists>v. union_message w t p = Inr v) \<longleftrightarrow> (\<exists>items. p = Inr items)"
  by (auto simp: union_message_Inr)

lemma encode_legacy_ok_iff:
  assumes "validate_message m = Inr ()"
  shows "(\<exists>v. encode_gamecult_networking_message w m = Inr v)
    \<longleftrightarrow> in_legacy_contract m \<and> list_all (is_base64 w) (base64_fields m)"
  using assms
  by (cases m) (simp_all add: union_message_ok map_result_ex legacy_bytes_ok_iff del: map_result.simps)

section \<open>Properties\<close>

text \<open>
  A raw document message that passes validation is encoded under \<open>cultnet.schema.v0\<close>, and the
  parser, dispatching on the schema version it finds in the map, gives back the same message:
  record bytes, provenance fields and tags included, whatever serde does with other kinds.\<close>

theorem raw_schema_roundtrip:
  assumes "rmpv_laws w" "validate_message m = Ok ()" "is_raw_message m"
  shows "\<exists>v. encode_cultnet_message_for_wire w sd m CultNetSchemaV0 = Ok v
    \<and> parse_cultnet_message w sd v CultNetSchemaV0 = Ok m"
proof -
  obtain v where v: "encode_raw_cultnet_schema_message w m = Inr v"
    using assms(3) by (cases m) auto
  then have "encode_cultnet_message_for_wire w sd m CultNetSchemaV0 = Ok v"
    using assms by (simp add: encode_cultnet_message_for_wire_def)
  moreover have "parse_cultnet_message w sd v CultNetSchemaV0 = Ok m"
    using parse_raw_encode [OF assms(1) v] assms(2) by (simp add: parse_cultnet_message_def)
  ultimately show ?thesis by blast
qed

text \<open>C21.
  Under \<open>gamecult.networking.v0\<close> a message is encoded exactly when it is valid, its kind belongs
  to that contract and its credential fields are base64 text; and what is encoded parses back to
  the message with an absent \<open>includeSchemaJson\<close> turned into false and nothing else changed.\<close>

theorem legacy_roundtrip:
  assumes "rmpv_laws w" "base64_laws w"
  shows "(\<exists>v. encode_cultnet_message_for_wire w sd m GameCultNetworkingV0 = Ok v
             \<and> parse_cultnet_message w sd v GameCultNetworkingV0 = Ok (legacy_normalised m))
     \<longleftrightarrow> validate_message m = Ok () \<and> in_legacy_contract m \<and> list_all (is_base64 w) (base64_fields m)"
    (is "?encoded \<longleftrightarrow> ?ok")
proof
  assume ?encoded
  then obtain v where "encode_cultnet_message_for_wire w sd m GameCultNetworkingV0 = Ok v" by blast
  then have "validate_message m = Inr ()" "encode_gamecult_networking_message w m = Inr v"
    by (auto simp: encode_cultnet_message_for_wire_def bind_result_Inr_iff)
  then show ?ok using encode_legacy_ok_iff [of m w] by blast
next
  assume ok: ?ok
  then obtain v where v: "encode_gamecult_networking_message w m = Inr v"
    using encode_legacy_ok_iff [of m w] by blast
  with ok have "encode_cultnet_message_for_wire w sd m GameCultNetworkingV0 = Ok v"
    by (simp add: encode_cultnet_message_for_wire_def)
  then show ?encoded
    using legacy_parse_encode(1) [OF assms v] by (auto simp: parse_cultnet_message_def)
qed

text \<open>
  The legacy parser does not validate: an error message with blank text is accepted from the
  wire, although neither contract would ever encode it.\<close>

theorem legacy_parse_not_validated:
  assumes "rmpv_laws w" "trim_is_empty s"
  shows "parse_cultnet_message w sd (v_array w [v_int w 4, v_array w [v_str w s]]) GameCultNetworkingV0 = Ok (Error s)
    \<and> encode_cultnet_message_for_wire w sd (Error s) contract = Err (FieldEmpty ''error'')"
proof -
  have "parse_gamecult_networking_message w (v_array w [v_int w 4, v_array w [v_str w s]]) = Ok (Error s)"
    using assms(1) by (simp add: parse_gamecult_networking_message_def rmpv_lawsD wire_simps)
  moreover have "validate_message (Error s) = Err (FieldEmpty ''error'')"
    using assms(2) by (simp add: require_non_empty_def)
  ultimately show ?thesis
    by (simp add: parse_cultnet_message_def encode_cultnet_message_for_wire_def)
qed

section \<open>Concrete instances\<close>

text \<open>
  A MessagePack value as a datatype, with a base64 engine that writes each byte as one character;
  both satisfy the laws.
\<close>

datatype mvalue = MNil | MBool bool | MInt int | MStr string | MBin bytes
  | MArray "mvalue list" | MMap "(mvalue \<times> mvalue) list"

definition mvalue_ops :: "mvalue wire_ops" where
  "mvalue_ops = \<lparr> v_nil = MNil, v_bool = MBool, v_int = MInt, v_str = MStr, v_bin = MBin,
     v_array = MArray, v_map = MMap, is_nil = (\<lambda>v. case v of MNil \<Rightarrow> True | _ \<Rightarrow> False),
     as_bool = (\<lambda>v. case v of MBool b \<Rightarrow> Some b | _ \<Rightarrow> None),
     as_i64 = (\<lambda>v. case v of MInt i \<Rightarrow> if - (2 ^ 63) \<le> i \<and> i < 2 ^ 63 then Some i else None | _ \<Rightarrow> None),
     as_str = (\<lambda>v. case v of MStr s \<Rightarrow> Some s | _ \<Rightarrow> None),
     as_slice = (\<lambda>v. case v of MBin b \<Rightarrow> Some b | MStr s \<Rightarrow> Some (str_bytes s) | _ \<Rightarrow> None),
     as_array = (\<lambda>v. case v of MArray xs \<Rightarrow> Some xs | _ \<Rightarrow> None),
     as_map = (\<lambda>v. case v of MMap kvs \<Rightarrow> Some kvs | _ \<Rightarrow> None),
     b64_encode = bytes_str, b64_decode = Inr \<circ> str_bytes \<rparr>"

definition no_serde :: "(mvalue, unit) serde_ops" where
  "no_serde = \<lparr> message_of_wire = (\<lambda>_. Inl ''unsupported''), wire_of_message = (\<lambda>_. Inl ''unsupported''),
     pack_value = (\<lambda>_. Inl ''unsupported''), unpack_value = (\<lambda>_. Inl ''unsupported'') \<rparr>"

lemma mvalue_laws: "rmpv_laws mvalue_ops" "base64_laws mvalue_ops"
  by (auto simp: rmpv_laws_def base64_laws_def mvalue_ops_def)

definition sample_raw :: raw_document_record where
  "sample_raw = \<lparr> rd_schema_id = ''game.actor'', rd_record_key = ''a1'', rd_stored_at = ''2024-01-01T00:00:00Z'',
     rd_payload_encoding = Messagepack, rd_payload = [0x93, 1, 2, 3], rd_source_runtime_id = Some ''r1'',
     rd_source_agent_id = None, rd_source_role = None, rd_tags = Some [''npc''] \<rparr>"

lemma raw_schema_roundtrip_witness:
  "\<exists>v. encode_cultnet_message_for_wire mvalue_ops no_serde (SnapshotResponseRaw ''m1'' [sample_raw]) CultNetSchemaV0 = Ok v
     \<and> parse_cultnet_message mvalue_ops no_serde v CultNetSchemaV0 = Ok (SnapshotResponseRaw ''m1'' [sample_raw])"
  by (rule raw_schema_roundtrip [OF mvalue_laws(1)]) (code_simp, simp)

lemma legacy_roundtrip_witness:
  "\<exists>v. encode_cultnet_message_for_wire mvalue_ops no_serde (Login ''n'' ''a'' ''p'') GameCultNetworkingV0 = Ok v
     \<and> parse_cultnet_message mvalue_ops no_serde v GameCultNetworkingV0 = Ok (Login ''n'' ''a'' ''p'')"
proof -
  have "validate_message (Login ''n'' ''a'' ''p'' :: unit cultnet_message) = Ok () \<and> in_legacy_contract (Login ''n'' ''a'' ''p'' :: unit cultnet_message)
      \<and> list_all (is_base64 mvalue_ops) (base64_fields (Login ''n'' ''a'' ''p'' :: unit cultnet_message))"
    by code_simp
  then show ?thesis
    using legacy_roundtrip [OF mvalue_laws, of no_serde "Login ''n'' ''a'' ''p''"] by simp
qed

lemma legacy_parse_not_validated_witness:
  "parse_cultnet_message mvalue_ops no_serde (MArray [MInt 4, MArray [MStr '' '']]) GameCultNetworkingV0 = Ok (Error '' '')
    \<and> encode_cultnet_message_for_wire mvalue_ops no_serde (Error '' '') CultNetSchemaV0 = Err (FieldEmpty ''error'')"
proof -
  have "trim_is_empty '' ''" by code_simp
  from legacy_parse_not_validated [OF mvalue_laws(1) this, of no_serde CultNetSchemaV0] show ?thesis
    by (simp add: mvalue_ops_def)
qed

end
