(* ===== verification/Identity.thy ===== *)
theory Identity
  imports RustStr
begin

text \<open>
  Service identities, \<open>src/service_identity.rs\<close> as built for Linux: the profiles and purposes,
  enrollment of a private identity in a store file, opening it, signing, the public trust anchor
  and the verification of signatures. SHA-256, Ed25519, the MessagePack encoder, the CultCache
  backing store, the RFC 3339 parser and the outcomes of the file operations are parameters
  (\<open>identity_ops\<close>, \<open>io_outcome\<close>); \<open>identity_laws\<close> states what is relied on. A file is its
  contents, None when it does not exist. The DPAPI code of Windows is not modelled.
\<close>

unbundle bit_operations_syntax

section \<open>Profiles and purposes\<close>

record profile =
  PRIVATE_TYPE :: string
  PRIVATE_SCHEMA :: string
  PRIVATE_KEY :: string
  TRUST_ANCHOR_TYPE :: string
  TRUST_ANCHOR_SCHEMA :: string
  TRUST_ANCHOR_KEY :: string
  ID_DOMAIN :: bytes
  SIGNATURE_DOMAIN :: bytes
  PROTECTOR_CONTEXT :: string

definition brake_operator_profile :: profile where
  "brake_operator_profile = \<lparr>
     PRIVATE_TYPE = ''idunn.deployment_brake_operator.private.v1'',
     PRIVATE_SCHEMA = ''idunn.deployment_brake_operator.private.v1'',
     PRIVATE_KEY = ''idunn-deployment-brake-operator'',
     TRUST_ANCHOR_TYPE = ''idunn.deployment_brake_operator.trust_anchor.v1'',
     TRUST_ANCHOR_SCHEMA = ''idunn.deployment_brake_operator.trust_anchor.v1'',
     TRUST_ANCHOR_KEY = ''idunn-deployment-brake-operator-public'',
     ID_DOMAIN = str_bytes ''idunn.deployment-brake-operator.id.v1'' @ [0],
     SIGNATURE_DOMAIN = str_bytes ''idunn.deployment-brake-operator.signature.v1'' @ [0],
     PROTECTOR_CONTEXT = ''idunn-deployment-brake-operator-v1'' \<rparr>"

definition provider_health_profile :: profile where
  "provider_health_profile = \<lparr>
     PRIVATE_TYPE = ''gamecult.provider_health_identity.private.v1'',
     PRIVATE_SCHEMA = ''gamecult.provider_health_identity.private.v1'',
     PRIVATE_KEY = ''gamecult-provider-health-identity'',
     TRUST_ANCHOR_TYPE = ''gamecult.provider_health_identity.trust_anchor.v1'',
     TRUST_ANCHOR_SCHEMA = ''gamecult.provider_health_identity.trust_anchor.v1'',
     TRUST_ANCHOR_KEY = ''gamecult-provider-health-identity-public'',
     ID_DOMAIN = str_bytes ''gamecult.provider-health.identity.v1'' @ [0],
     SIGNATURE_DOMAIN = str_bytes ''gamecult.provider-health.signature.v1'' @ [0],
     PROTECTOR_CONTEXT = ''gamecult-provider-health-identity-v1'' \<rparr>"

definition idunn_service_profile :: profile where
  "idunn_service_profile = \<lparr>
     PRIVATE_TYPE = ''idunn.service_identity.private.v1'',
     PRIVATE_SCHEMA = ''idunn.service_identity.private.v1'',
     PRIVATE_KEY = ''idunn-service-identity'',
     TRUST_ANCHOR_TYPE = ''idunn.service_identity.trust_anchor.v1'',
     TRUST_ANCHOR_SCHEMA = ''idunn.service_identity.trust_anchor.v1'',
     TRUST_ANCHOR_KEY = ''idunn-service-identity-public'',
     ID_DOMAIN = str_bytes ''idunn.service-identity.id.v1'' @ [0],
     SIGNATURE_DOMAIN = str_bytes ''idunn.service-identity.signature.v1'' @ [0],
     PROTECTOR_CONTEXT = ''idunn-service-identity-v1'' \<rparr>"

text \<open>A purpose is the byte string of its type; each is used with one profile.\<close>

definition brake_release_purpose :: bytes where
  "brake_release_purpose = str_bytes ''idunn.deployment-release.v1''"

definition signed_daemon_health_purpose :: bytes where
  "signed_daemon_health_purpose = str_bytes ''idunn.signed_daemon_health.v1''"

definition health_projection_purpose :: bytes where
  "health_projection_purpose = str_bytes ''idunn.authenticated-provider-health-projection.v1''"

definition LINUX_SERVICE_IDENTITY_ASSURANCE :: string where
  "LINUX_SERVICE_IDENTITY_ASSURANCE = ''os_installation_file_bound_cloneable_baseline''"

definition platform_protector_kind :: string where
  "platform_protector_kind = ''linux_file_mode_machine_id_binding''"

section \<open>Records and parameters\<close>

record private_entry =
  pe_schema_version :: string
  pe_identity_id :: string
  pe_public_key :: bytes
  pe_protected_private_seed :: bytes
  pe_protector_kind :: string
  pe_protector_binding :: string
  pe_protector_version :: string
  pe_assurance :: string
  pe_created_at :: string
  pe_enrollment_nonce :: bytes

record trust_anchor =
  ta_schema_version :: string
  ta_identity_id :: string
  ta_public_key :: bytes
  ta_assurance :: string
  ta_identity_created_at :: string
  ta_source_identity_record_sha256 :: string

record identity_signature =
  is_identity_id :: string
  is_signature :: bytes

text \<open>The fields of CultCache's envelope.\<close>

record envelope =
  ev_key :: string
  ev_type :: string
  ev_payload :: bytes
  ev_stored_at :: string
  ev_schema_id :: "string option"

text \<open>The signing key is known by its seed.\<close>

record signer =
  sg_entry :: private_entry
  sg_seed :: bytes

record identity_ops =
  sha256 :: "bytes \<Rightarrow> bytes"
  ed_public :: "bytes \<Rightarrow> bytes"
  ed_sign :: "bytes \<Rightarrow> bytes \<Rightarrow> bytes"
  ed_key_ok :: "bytes \<Rightarrow> bool"
  ed_verify :: "bytes \<Rightarrow> bytes \<Rightarrow> bytes \<Rightarrow> bool"
  pack_entry :: "private_entry \<Rightarrow> string + bytes"
  unpack_entry :: "bytes \<Rightarrow> string + private_entry"
  pack_anchor :: "trust_anchor \<Rightarrow> string + bytes"
  pack_envelopes :: "envelope list \<Rightarrow> string + bytes"
  pull_all :: "bytes option \<Rightarrow> string + envelope list"
  push_envelope :: "envelope \<Rightarrow> bytes option \<Rightarrow> (string + unit) \<times> bytes option"
  rfc3339_ok :: "string \<Rightarrow> bool"

record io_outcome =
  parent_ok :: bool
  write_ok :: bool
  chmod_ok :: bool

datatype identity_error =
    AlreadyEnrolled
  | ParentFailed
  | MachineIdUnavailable
  | MachineIdEmpty
  | EntryViolatesSchema
  | CreatedAtNotRfc3339
  | IdentityIdMismatch
  | EncodingFailed string
  | PersistFailed
  | PermissionsFailed
  | StoreMissing
  | StoreUnreadable string
  | NotOneEnvelope
  | WrongProfile
  | WrongPlatform
  | WrongBinding
  | BadSeedLength
  | SeedKeyMismatch
  | PublicKeyLength
  | AnchorViolatesSchema
  | AnchorOutputDiffers
  | OtherIdentity
  | SignatureLength
  | BadPublicKey
  | SignatureInvalid

type_synonym 'a identity_result = "identity_error + 'a"

section \<open>Helpers\<close>

definition hex_digit :: "u8 \<Rightarrow> char" where
  "hex_digit d = ''0123456789abcdef'' ! unat d"

definition hex :: "bytes \<Rightarrow> string" where
  "hex bs = concat (map (\<lambda>b. [hex_digit (drop_bit 4 b), hex_digit (b AND 15)]) bs)"

text \<open>\<open>str::trim\<close>, on the characters of the UTF-8 text.\<close>

definition is_cont_char :: "char \<Rightarrow> bool" where
  "is_cont_char c = cont_byte (of_char c)"

function char_chunks :: "string \<Rightarrow> string list" where
  "char_chunks [] = []"
| "char_chunks (c # cs) = (c # takeWhile is_cont_char cs) # char_chunks (dropWhile is_cont_char cs)"
  by pat_completeness auto
termination
  by (relation "measure length") (auto simp: le_imp_less_Suc length_dropWhile_le)

definition trim_str :: "string \<Rightarrow> string" where
  "trim_str s = concat (rev (dropWhile trim_is_empty (rev (dropWhile trim_is_empty (char_chunks s)))))"

definition xor_linux :: "identity_ops \<Rightarrow> profile \<Rightarrow> bytes \<Rightarrow> string \<Rightarrow> bytes" where
  "xor_linux ops p seed binding =
     (let mask = sha256 ops (str_bytes ''gamecult-linux-service-seed-v1'' @ [0]
                  @ str_bytes (PROTECTOR_CONTEXT p) @ str_bytes binding)
      in map (\<lambda>(a, b). a XOR b) (zip seed mask))"

definition unprotect_seed :: "identity_ops \<Rightarrow> profile \<Rightarrow> bytes \<Rightarrow> string \<Rightarrow> bytes identity_result" where
  "unprotect_seed ops p seed binding =
     (if length seed \<noteq> 32 then Err BadSeedLength else Ok (xor_linux ops p seed binding))"

text \<open>\<open>machine_id\<close> is what one of the two machine-id files holds.\<close>

definition platform_binding :: "identity_ops \<Rightarrow> profile \<Rightarrow> string option \<Rightarrow> string identity_result" where
  "platform_binding ops p machine_id =
     (case machine_id of
        None \<Rightarrow> Err MachineIdUnavailable
      | Some raw \<Rightarrow>
          let i = trim_str raw in
          if i = [] then Err MachineIdEmpty
          else Ok (PROTECTOR_CONTEXT p @ '':machine-id-sha256:'' @ hex (sha256 ops (str_bytes i))))"

definition derive_service_identity_id :: "identity_ops \<Rightarrow> profile \<Rightarrow> bytes \<Rightarrow> string identity_result" where
  "derive_service_identity_id ops p public_key =
     (if length public_key \<noteq> 32 then Err PublicKeyLength
      else Ok (hex (sha256 ops (ID_DOMAIN p @ public_key))))"

text \<open>The \<open>expect\<close> of the source never fires: callers pass keys of 32 bytes.\<close>

definition identity_id :: "identity_ops \<Rightarrow> profile \<Rightarrow> bytes \<Rightarrow> string" where
  "identity_id ops p key = hex (sha256 ops (ID_DOMAIN p @ key))"

definition signing_message :: "profile \<Rightarrow> bytes \<Rightarrow> bytes \<Rightarrow> bytes" where
  "signing_message p purpose payload =
     SIGNATURE_DOMAIN p @ u64_to_be (of_nat (length purpose)) @ purpose
       @ u64_to_be (of_nat (length payload)) @ payload"

definition validate_private :: "identity_ops \<Rightarrow> profile \<Rightarrow> private_entry \<Rightarrow> unit identity_result" where
  "validate_private ops p entry =
     (if pe_schema_version entry \<noteq> PRIVATE_SCHEMA p \<or> length (pe_public_key entry) \<noteq> 32
         \<or> length (pe_enrollment_nonce entry) \<noteq> 32 \<or> pe_protected_private_seed entry = []
         \<or> pe_protector_version entry \<noteq> ''v1''
      then Err EntryViolatesSchema
      else if \<not> rfc3339_ok ops (pe_created_at entry) then Err CreatedAtNotRfc3339
      else if identity_id ops p (pe_public_key entry) \<noteq> pe_identity_id entry then Err IdentityIdMismatch
      else Ok ())"

definition validate_anchor :: "identity_ops \<Rightarrow> profile \<Rightarrow> trust_anchor \<Rightarrow> unit identity_result" where
  "validate_anchor ops p anchor =
     (if ta_schema_version anchor \<noteq> TRUST_ANCHOR_SCHEMA p \<or> length (ta_public_key anchor) \<noteq> 32
      then Err AnchorViolatesSchema
      else bind_result (derive_service_identity_id ops p (ta_public_key anchor)) (\<lambda>i.
        if i \<noteq> ta_identity_id anchor then Err AnchorViolatesSchema else Ok ()))"

definition encoded :: "string + 'a \<Rightarrow> 'a identity_result" where
  "encoded r = (case r of Inl e \<Rightarrow> Err (EncodingFailed e) | Inr x \<Rightarrow> Ok x)"

definition private_envelope :: "identity_ops \<Rightarrow> profile \<Rightarrow> private_entry \<Rightarrow> envelope identity_result" where
  "private_envelope ops p entry =
     bind_result (encoded (pack_entry ops entry)) (\<lambda>payload.
       Ok \<lparr> ev_key = PRIVATE_KEY p, ev_type = PRIVATE_TYPE p, ev_payload = payload,
            ev_stored_at = pe_created_at entry, ev_schema_id = Some (PRIVATE_SCHEMA p) \<rparr>)"

section \<open>Enrolling and opening\<close>

definition open_service_identity_at ::
  "identity_ops \<Rightarrow> profile \<Rightarrow> string option \<Rightarrow> bytes option \<Rightarrow> signer identity_result" where
  "open_service_identity_at ops p machine_id file =
     (if file = None then Err StoreMissing
      else bind_result (case pull_all ops file of Inl e \<Rightarrow> Err (StoreUnreadable e) | Inr es \<Rightarrow> Ok es) (\<lambda>entries.
      case entries of
        [envelope] \<Rightarrow>
          if ev_type envelope \<noteq> PRIVATE_TYPE p \<or> ev_key envelope \<noteq> PRIVATE_KEY p
             \<or> ev_schema_id envelope \<noteq> Some (PRIVATE_SCHEMA p)
          then Err WrongProfile
          else bind_result (encoded (unpack_entry ops (ev_payload envelope))) (\<lambda>entry.
          bind_result (validate_private ops p entry) (\<lambda>_.
          if pe_protector_kind entry \<noteq> platform_protector_kind
             \<or> pe_assurance entry \<noteq> LINUX_SERVICE_IDENTITY_ASSURANCE
          then Err WrongPlatform
          else bind_result (platform_binding ops p machine_id) (\<lambda>binding.
          if pe_protector_binding entry \<noteq> binding then Err WrongBinding
          else bind_result (unprotect_seed ops p (pe_protected_private_seed entry) binding) (\<lambda>seed.
          if length seed \<noteq> 32 then Err BadSeedLength
          else if ed_public ops seed \<noteq> pe_public_key entry then Err SeedKeyMismatch
          else Ok \<lparr> sg_entry = entry, sg_seed = seed \<rparr>))))
      | _ \<Rightarrow> Err NotOneEnvelope))"

definition atomic_create_private_store ::
  "identity_ops \<Rightarrow> io_outcome \<Rightarrow> envelope \<Rightarrow> bytes option \<Rightarrow> unit identity_result \<times> bytes option" where
  "atomic_create_private_store ops io envelope file =
     (case encoded (pack_envelopes ops [envelope]) of
        Inl e \<Rightarrow> (Err e, file)
      | Inr bytes \<Rightarrow>
          if file \<noteq> None then (Err AlreadyEnrolled, file)
          else if \<not> write_ok io then (Err PersistFailed, None)
          else (Ok (), Some bytes))"

text \<open>The entry a fresh seed and nonce give.\<close>

definition new_entry ::
  "identity_ops \<Rightarrow> profile \<Rightarrow> bytes \<Rightarrow> bytes \<Rightarrow> string \<Rightarrow> string \<Rightarrow> private_entry" where
  "new_entry ops p seed nonce now binding =
     (let public_key = ed_public ops seed in
      \<lparr> pe_schema_version = PRIVATE_SCHEMA p,
        pe_identity_id = identity_id ops p public_key,
        pe_public_key = public_key,
        pe_protected_private_seed = xor_linux ops p seed binding,
        pe_protector_kind = platform_protector_kind,
        pe_protector_binding = binding,
        pe_protector_version = ''v1'',
        pe_assurance = LINUX_SERVICE_IDENTITY_ASSURANCE,
        pe_created_at = now,
        pe_enrollment_nonce = nonce \<rparr>)"

definition enroll_service_identity_at ::
  "identity_ops \<Rightarrow> profile \<Rightarrow> string option \<Rightarrow> io_outcome \<Rightarrow> bytes \<Rightarrow> bytes \<Rightarrow> string
     \<Rightarrow> bytes option \<Rightarrow> signer identity_result \<times> bytes option" where
  "enroll_service_identity_at ops p machine_id io seed nonce now file =
     (if file \<noteq> None then (Err AlreadyEnrolled, file)
      else if \<not> parent_ok io then (Err ParentFailed, file)
      else case bind_result (platform_binding ops p machine_id) (\<lambda>binding.
             let entry = new_entry ops p seed nonce now binding in
             bind_result (validate_private ops p entry) (\<lambda>_. private_envelope ops p entry)) of
        Inl e \<Rightarrow> (Err e, file)
      | Inr envelope \<Rightarrow>
        (case atomic_create_private_store ops io envelope file of
           (Inl e, file1) \<Rightarrow> (Err e, file1)
         | (Inr _, file1) \<Rightarrow>
           if \<not> chmod_ok io then (Err PermissionsFailed, file1)
           else (open_service_identity_at ops p machine_id file1, file1)))"

section \<open>Signing, exporting, verifying\<close>

definition trust_anchor_of :: "identity_ops \<Rightarrow> profile \<Rightarrow> signer \<Rightarrow> trust_anchor identity_result" where
  "trust_anchor_of ops p s =
     bind_result (encoded (pack_entry ops (sg_entry s))) (\<lambda>record_bytes.
       Ok \<lparr> ta_schema_version = TRUST_ANCHOR_SCHEMA p,
            ta_identity_id = pe_identity_id (sg_entry s),
            ta_public_key = pe_public_key (sg_entry s),
            ta_assurance = pe_assurance (sg_entry s),
            ta_identity_created_at = pe_created_at (sg_entry s),
            ta_source_identity_record_sha256 = ''sha256-'' @ hex (sha256 ops record_bytes) \<rparr>)"

definition sign_with :: "identity_ops \<Rightarrow> profile \<Rightarrow> bytes \<Rightarrow> signer \<Rightarrow> bytes \<Rightarrow> identity_signature" where
  "sign_with ops p purpose s payload =
     \<lparr> is_identity_id = pe_identity_id (sg_entry s),
       is_signature = ed_sign ops (sg_seed s) (signing_message p purpose payload) \<rparr>"

definition export_service_identity_trust_anchor ::
  "identity_ops \<Rightarrow> profile \<Rightarrow> signer \<Rightarrow> io_outcome \<Rightarrow> bytes option \<Rightarrow> trust_anchor identity_result \<times> bytes option" where
  "export_service_identity_trust_anchor ops p s io file =
     (case bind_result (trust_anchor_of ops p s) (\<lambda>anchor.
        if \<not> parent_ok io then Err ParentFailed
        else bind_result (encoded (pack_anchor ops anchor)) (\<lambda>payload.
          Ok (anchor, \<lparr> ev_key = TRUST_ANCHOR_KEY p, ev_type = TRUST_ANCHOR_TYPE p, ev_payload = payload,
                ev_stored_at = ta_identity_created_at anchor, ev_schema_id = Some (TRUST_ANCHOR_SCHEMA p) \<rparr>))) of
        Inl e \<Rightarrow> (Err e, file)
      | Inr (anchor, envelope) \<Rightarrow>
        (case pull_all ops file of
           Inl e \<Rightarrow> (Err (StoreUnreadable e), file)
         | Inr [] \<Rightarrow>
           (case push_envelope ops envelope file of
              (Inl e, file1) \<Rightarrow> (Err (StoreUnreadable e), file1)
            | (Inr _, file1) \<Rightarrow> (Ok anchor, file1))
         | Inr [current] \<Rightarrow>
             if current = envelope then (Ok anchor, file) else (Err AnchorOutputDiffers, file)
         | Inr _ \<Rightarrow> (Err AnchorOutputDiffers, file)))"

text \<open>The end of both verification functions, once the identity is settled.\<close>

definition check_signature ::
  "identity_ops \<Rightarrow> profile \<Rightarrow> bytes \<Rightarrow> bytes \<Rightarrow> bytes \<Rightarrow> bytes \<Rightarrow> unit identity_result" where
  "check_signature ops p purpose public_key payload signature =
     (if length public_key \<noteq> 32 then Err PublicKeyLength
      else if length signature \<noteq> 64 then Err SignatureLength
      else if \<not> ed_key_ok ops public_key then Err BadPublicKey
      else if \<not> ed_verify ops public_key (signing_message p purpose payload) signature
           then Err SignatureInvalid
      else Ok ())"

definition verify_service_identity_signature ::
  "identity_ops \<Rightarrow> profile \<Rightarrow> bytes \<Rightarrow> trust_anchor \<Rightarrow> bytes \<Rightarrow> identity_signature \<Rightarrow> unit identity_result" where
  "verify_service_identity_signature ops p purpose anchor payload proof =
     bind_result (validate_anchor ops p anchor) (\<lambda>_.
       if is_identity_id proof \<noteq> ta_identity_id anchor then Err OtherIdentity
       else check_signature ops p purpose (ta_public_key anchor) payload (is_signature proof))"

definition verify_service_identity_signature_with_public_key ::
  "identity_ops \<Rightarrow> profile \<Rightarrow> bytes \<Rightarrow> bytes \<Rightarrow> bytes \<Rightarrow> identity_signature \<Rightarrow> unit identity_result" where
  "verify_service_identity_signature_with_public_key ops p purpose public_key payload proof =
     bind_result (derive_service_identity_id ops p public_key) (\<lambda>i.
       if is_identity_id proof \<noteq> i then Err OtherIdentity
       else check_signature ops p purpose public_key payload (is_signature proof))"

section \<open>Signed messages determine what was signed\<close>

definition service_profiles :: "profile list" where
  "service_profiles = [brake_operator_profile, provider_health_profile, idunn_service_profile]"

lemma domain_starts:
  "map (take 7 \<circ> SIGNATURE_DOMAIN) service_profiles = [str_bytes ''idunn.d'', str_bytes ''gamecul'', str_bytes ''idunn.s'']"
  by (simp add: service_profiles_def brake_operator_profile_def provider_health_profile_def
      idunn_service_profile_def str_bytes_def)

lemma service_profile_cases:
  assumes "p \<in> set service_profiles"
  obtains "p = brake_operator_profile" "take 7 (SIGNATURE_DOMAIN p) = str_bytes ''idunn.d''"
  | "p = provider_health_profile" "take 7 (SIGNATURE_DOMAIN p) = str_bytes ''gamecul''"
  | "p = idunn_service_profile" "take 7 (SIGNATURE_DOMAIN p) = str_bytes ''idunn.s''"
  using assms domain_starts by (auto simp: service_profiles_def)

lemma domains_diverge:
  assumes p: "p \<in> set service_profiles" and q: "q \<in> set service_profiles"
    and eq: "SIGNATURE_DOMAIN p @ xs = SIGNATURE_DOMAIN q @ ys"
  shows "p = q"
proof -
  have start: "take 7 (SIGNATURE_DOMAIN r @ zs) = take 7 (SIGNATURE_DOMAIN r)" if "r \<in> set service_profiles" for r zs
  proof -
    have "length (take 7 (SIGNATURE_DOMAIN r)) = 7" using that by (rule service_profile_cases) simp_all
    then show ?thesis by simp
  qed
  have "take 7 (SIGNATURE_DOMAIN p) = take 7 (SIGNATURE_DOMAIN q)"
    using start [OF p, of xs] start [OF q, of ys] eq by simp
  then show ?thesis
    by - (rule service_profile_cases [OF p]; rule service_profile_cases [OF q]; simp)
qed

lemma unat_of_nat_u64: "n < 2 ^ 64 \<Longrightarrow> unat (of_nat n :: u64) = n"
  by (simp add: unat_of_nat)

lemma length_prefixed_inj:
  assumes "u64_to_be (of_nat (length a)) @ a @ xs = u64_to_be (of_nat (length b)) @ b @ ys"
    "length a < 2 ^ 64" "length b < 2 ^ 64"
  shows "a = b \<and> xs = ys"
proof -
  from assms(1) have "u64_to_be (of_nat (length a)) = u64_to_be (of_nat (length b))" "a @ xs = b @ ys"
    by (simp_all add: append_eq_append_conv)
  moreover from this(1) have "length a = length b"
    using assms(2,3) by (metis u64_to_be_inj unat_of_nat_u64)
  ultimately show ?thesis by simp
qed

lemma signing_message_cases:
  assumes "p \<in> set service_profiles" "q \<in> set service_profiles"
    and "length s < 2 ^ 64" "length t < 2 ^ 64" "length x < 2 ^ 64" "length y < 2 ^ 64"
    and eq: "signing_message p s x = signing_message q t y"
  shows "p = q \<and> s = t \<and> x = y"
proof -
  have p: "p = q" using domains_diverge [OF assms(1,2)] eq unfolding signing_message_def by blast
  with eq have rest: "u64_to_be (of_nat (length s)) @ s @ u64_to_be (of_nat (length x)) @ x
      = u64_to_be (of_nat (length t)) @ t @ u64_to_be (of_nat (length y)) @ y"
    by (simp add: signing_message_def)
  from length_prefixed_inj [OF rest assms(3,4)]
  have "s = t" "u64_to_be (of_nat (length x)) @ x @ [] = u64_to_be (of_nat (length y)) @ y @ []" by simp_all
  with length_prefixed_inj [OF this(2) assms(5,6)] p show ?thesis by simp
qed

text \<open>C17.
  The bytes that are signed determine the profile, the purpose and the payload: no two different
  statements of the three services, however the payloads are chosen, have the same signing
  message, so a signature made for one kind of statement is never one for another.\<close>

theorem signing_messages_separate:
  assumes "p \<in> set service_profiles" "q \<in> set service_profiles"
    and "length s < 2 ^ 64" "length t < 2 ^ 64" "length x < 2 ^ 64" "length y < 2 ^ 64"
  shows "signing_message p s x = signing_message q t y \<longleftrightarrow> p = q \<and> s = t \<and> x = y"
  using signing_message_cases [OF assms] by blast

lemma signing_messages_separate_witness:
  "signing_message brake_operator_profile brake_release_purpose [1, 2]
     \<noteq> signing_message provider_health_profile signed_daemon_health_purpose [1, 2]"
  using signing_messages_separate [of brake_operator_profile provider_health_profile brake_release_purpose
      signed_daemon_health_purpose "[1, 2]" "[1, 2]"]
  by (simp add: service_profiles_def brake_release_purpose_def signed_daemon_health_purpose_def str_bytes_def)

section \<open>The life of an identity\<close>

text \<open>What the code relies on of the parameters.\<close>

definition identity_laws :: "identity_ops \<Rightarrow> bool" where
  "identity_laws ops \<longleftrightarrow>
     (\<forall>x. length (sha256 ops x) = 32)
     \<and> (\<forall>seed. length seed = 32 \<longrightarrow> length (ed_public ops seed) = 32 \<and> ed_key_ok ops (ed_public ops seed))
     \<and> (\<forall>seed m. length (ed_sign ops seed m) = 64)
     \<and> (\<forall>seed m. length seed = 32 \<longrightarrow> ed_verify ops (ed_public ops seed) m (ed_sign ops seed m))
     \<and> (\<forall>entry. \<exists>b. pack_entry ops entry = Inr b \<and> unpack_entry ops b = Inr entry)
     \<and> (\<forall>es. \<exists>b. pack_envelopes ops es = Inr b \<and> pull_all ops (Some b) = Inr es)"

lemma identity_lawsD:
  assumes "identity_laws ops"
  shows "length (sha256 ops x) = 32" "length seed = 32 \<Longrightarrow> length (ed_public ops seed) = 32"
    "length seed = 32 \<Longrightarrow> ed_key_ok ops (ed_public ops seed)" "length (ed_sign ops seed m) = 64"
    "length seed = 32 \<Longrightarrow> ed_verify ops (ed_public ops seed) m (ed_sign ops seed m)"
    "\<exists>b. pack_entry ops entry = Inr b \<and> unpack_entry ops b = Inr entry"
    "\<exists>b. pack_envelopes ops es = Inr b \<and> pull_all ops (Some b) = Inr es"
  using assms by (simp_all add: identity_laws_def)

lemma xor_back:
  fixes seed mask :: bytes
  assumes "length seed = length mask"
  shows "map (\<lambda>(a, b). a XOR b) (zip (map (\<lambda>(a, b). a XOR b) (zip seed mask)) mask) = seed"
  using assms by (induction seed mask rule: list_induct2) (simp_all add: xor.assoc)

lemma xor_linux_inverse:
  assumes "identity_laws ops" "length seed = 32"
  shows "xor_linux ops p (xor_linux ops p seed binding) binding = seed" "length (xor_linux ops p seed binding) = 32"
proof -
  note len = identity_lawsD(1) [OF assms(1)]
  show "xor_linux ops p (xor_linux ops p seed binding) binding = seed"
    unfolding xor_linux_def Let_def by (rule xor_back) (simp add: len assms(2))
  show "length (xor_linux ops p seed binding) = 32" by (simp add: xor_linux_def Let_def len assms(2))
qed

lemma new_entry_valid:
  assumes "identity_laws ops" "length seed = 32" "length nonce = 32" "rfc3339_ok ops now"
  shows "validate_private ops p (new_entry ops p seed nonce now binding) = Inr ()"
  using assms xor_linux_inverse(2) [OF assms(1,2), of p binding]
  by (auto simp: validate_private_def new_entry_def Let_def identity_lawsD)

lemma open_enrolled:
  assumes laws: "identity_laws ops" and sizes: "length seed = 32" "length nonce = 32"
    and now: "rfc3339_ok ops now" and binding: "platform_binding ops p machine_id = Inr binding"
    and env: "private_envelope ops p (new_entry ops p seed nonce now binding) = Inr envelope"
    and stored: "pull_all ops (Some file) = Inr [envelope]"
  shows "open_service_identity_at ops p machine_id (Some file)
    = Inr \<lparr> sg_entry = new_entry ops p seed nonce now binding, sg_seed = seed \<rparr>"
proof -
  let ?entry = "new_entry ops p seed nonce now binding"
  obtain b where b: "pack_entry ops ?entry = Inr b" "unpack_entry ops b = Inr ?entry"
    using identity_lawsD(6) [OF laws] by blast
  with env have "envelope = \<lparr> ev_key = PRIVATE_KEY p, ev_type = PRIVATE_TYPE p, ev_payload = b,
      ev_stored_at = pe_created_at ?entry, ev_schema_id = Some (PRIVATE_SCHEMA p) \<rparr>"
    by (simp add: private_envelope_def encoded_def)
  moreover have "unprotect_seed ops p (pe_protected_private_seed ?entry) binding = Inr seed"
    using xor_linux_inverse [OF laws sizes(1)] by (simp add: unprotect_seed_def new_entry_def Let_def)
  moreover have "pe_protector_kind ?entry = platform_protector_kind" "pe_assurance ?entry = LINUX_SERVICE_IDENTITY_ASSURANCE"
      "pe_protector_binding ?entry = binding" "pe_public_key ?entry = ed_public ops seed"
    by (simp_all add: new_entry_def Let_def)
  ultimately show ?thesis
    using b(2) stored binding sizes(1) new_entry_valid [OF laws sizes now, of p binding]
    by (simp add: open_service_identity_at_def encoded_def)
qed

lemma signature_accepted:
  assumes laws: "identity_laws ops" and seed: "length seed = 32"
    and s: "s = \<lparr> sg_entry = new_entry ops p seed nonce now binding, sg_seed = seed \<rparr>"
    and anchor: "trust_anchor_of ops p s = Inr anchor"
  shows "verify_service_identity_signature ops p purpose anchor payload (sign_with ops p purpose s payload) = Inr ()"
    "verify_service_identity_signature_with_public_key ops p purpose (ta_public_key anchor) payload
       (sign_with ops p purpose s payload) = Inr ()"
proof -
  have a: "ta_schema_version anchor = TRUST_ANCHOR_SCHEMA p" "ta_public_key anchor = ed_public ops seed"
      "ta_identity_id anchor = identity_id ops p (ed_public ops seed)"
    using anchor by (auto simp: trust_anchor_of_def encoded_def s new_entry_def Let_def bind_result_Inr_iff)
  have key: "length (ed_public ops seed) = 32" "ed_key_ok ops (ed_public ops seed)"
      "length (ed_sign ops seed m) = 64" "ed_verify ops (ed_public ops seed) m (ed_sign ops seed m)" for m
    using seed by (simp_all add: identity_lawsD [OF laws])
  have check: "check_signature ops p purpose (ed_public ops seed) payload (ed_sign ops seed (signing_message p purpose payload)) = Inr ()"
    by (simp add: check_signature_def key)
  show "verify_service_identity_signature ops p purpose anchor payload (sign_with ops p purpose s payload) = Inr ()"
    "verify_service_identity_signature_with_public_key ops p purpose (ta_public_key anchor) payload
       (sign_with ops p purpose s payload) = Inr ()"
    using check a key(1)
    by (simp_all add: verify_service_identity_signature_def verify_service_identity_signature_with_public_key_def
        validate_anchor_def derive_service_identity_id_def identity_id_def sign_with_def s new_entry_def Let_def)
qed

text \<open>C16.
  An identity enrolled on a machine lives as it should: enrollment into a path without a file
  succeeds and leaves a file from which the same signer is opened again; no other profile opens
  it; a second enrollment is refused and leaves the file alone; and every signature the signer
  makes is accepted under its trust anchor and under its bare public key.\<close>

theorem enrolled_identity_works:
  assumes laws: "identity_laws ops" and sizes: "length seed = 32" "length nonce = 32"
    and now: "rfc3339_ok ops now" and machine: "platform_binding ops p machine_id = Ok binding"
    and io: "parent_ok io" "write_ok io" "chmod_ok io"
    and other: "PRIVATE_TYPE q \<noteq> PRIVATE_TYPE p"
  shows "\<exists>s file anchor.
     enroll_service_identity_at ops p machine_id io seed nonce now None = (Ok s, Some file)
     \<and> open_service_identity_at ops p machine_id (Some file) = Ok s
     \<and> open_service_identity_at ops q machine_id (Some file) = Err WrongProfile
     \<and> enroll_service_identity_at ops p machine_id io seed' nonce' now' (Some file) = (Err AlreadyEnrolled, Some file)
     \<and> trust_anchor_of ops p s = Ok anchor
     \<and> verify_service_identity_signature ops p purpose anchor payload (sign_with ops p purpose s payload) = Ok ()
     \<and> verify_service_identity_signature_with_public_key ops p purpose (ta_public_key anchor) payload
          (sign_with ops p purpose s payload) = Ok ()"
proof -
  let ?entry = "new_entry ops p seed nonce now binding"
  let ?s = "\<lparr> sg_entry = ?entry, sg_seed = seed \<rparr>"
  obtain b where b: "pack_entry ops ?entry = Inr b"
    using identity_lawsD(6) [OF laws] by blast
  then obtain envelope where env: "private_envelope ops p ?entry = Inr envelope" and type: "ev_type envelope = PRIVATE_TYPE p"
    by (simp add: private_envelope_def encoded_def)
  obtain f where stored: "pack_envelopes ops [envelope] = Inr f" "pull_all ops (Some f) = Inr [envelope]"
    using identity_lawsD(7) [OF laws] by blast
  have opened: "open_service_identity_at ops p machine_id (Some f) = Inr ?s"
    by (rule open_enrolled [OF laws sizes now machine env stored(2)])
  have "enroll_service_identity_at ops p machine_id io seed nonce now None = (Inr ?s, Some f)"
    using io machine env stored(1) opened new_entry_valid [OF laws sizes now, of p binding]
    by (simp add: enroll_service_identity_at_def atomic_create_private_store_def encoded_def Let_def)
  moreover have "open_service_identity_at ops q machine_id (Some f) = Inl WrongProfile"
    using stored(2) type other by (simp add: open_service_identity_at_def)
  moreover obtain anchor where "trust_anchor_of ops p ?s = Inr anchor"
    using b by (simp add: trust_anchor_of_def encoded_def)
  ultimately show ?thesis
    using opened signature_accepted [OF laws sizes(1) refl] by (auto simp: enroll_service_identity_at_def)
qed

section \<open>A concrete instance\<close>

text \<open>
  Toy primitives that satisfy the laws, over a real record encoding: each byte is written after a
  1, each field ends with a 0.
\<close>

definition pack_fields :: "bytes list \<Rightarrow> bytes" where
  "pack_fields fs = concat (map (\<lambda>f. concat (map (\<lambda>b. [1, b]) f) @ [0]) fs)"

fun unpack_fields :: "bytes \<Rightarrow> bytes \<Rightarrow> bytes list" where
  "unpack_fields acc (t # bs) =
     (if t = 0 then rev acc # unpack_fields [] bs
      else case bs of [] \<Rightarrow> [] | b # rest \<Rightarrow> unpack_fields (b # acc) rest)"
| "unpack_fields acc [] = []"

lemma unpack_field: "unpack_fields acc (concat (map (\<lambda>b. [1, b]) f) @ 0 # bs) = (rev acc @ f) # unpack_fields [] bs"
  by (induction f arbitrary: acc) simp_all

lemma unpack_pack_fields [simp]: "unpack_fields [] (pack_fields fs) = fs"
  by (induction fs) (simp_all add: pack_fields_def unpack_field)

definition entry_fields :: "private_entry \<Rightarrow> bytes list" where
  "entry_fields e = [str_bytes (pe_schema_version e), str_bytes (pe_identity_id e), pe_public_key e,
     pe_protected_private_seed e, str_bytes (pe_protector_kind e), str_bytes (pe_protector_binding e),
     str_bytes (pe_protector_version e), str_bytes (pe_assurance e), str_bytes (pe_created_at e), pe_enrollment_nonce e]"

definition entry_of_fields :: "bytes list \<Rightarrow> private_entry" where
  "entry_of_fields fs = \<lparr> pe_schema_version = bytes_str (fs ! 0), pe_identity_id = bytes_str (fs ! 1),
     pe_public_key = fs ! 2, pe_protected_private_seed = fs ! 3, pe_protector_kind = bytes_str (fs ! 4),
     pe_protector_binding = bytes_str (fs ! 5), pe_protector_version = bytes_str (fs ! 6),
     pe_assurance = bytes_str (fs ! 7), pe_created_at = bytes_str (fs ! 8), pe_enrollment_nonce = fs ! 9 \<rparr>"

definition envelope_fields :: "envelope \<Rightarrow> bytes list" where
  "envelope_fields e = [str_bytes (ev_key e), str_bytes (ev_type e), ev_payload e, str_bytes (ev_stored_at e),
     case ev_schema_id e of None \<Rightarrow> [] | Some i \<Rightarrow> 1 # str_bytes i]"

fun envelopes_of_fields :: "bytes list \<Rightarrow> envelope list" where
  "envelopes_of_fields (k # t # p # s # i # rest) =
     \<lparr> ev_key = bytes_str k, ev_type = bytes_str t, ev_payload = p, ev_stored_at = bytes_str s,
       ev_schema_id = (case i of [] \<Rightarrow> None | _ # j \<Rightarrow> Some (bytes_str j)) \<rparr> # envelopes_of_fields rest"
| "envelopes_of_fields _ = []"

definition sized :: "nat \<Rightarrow> bytes \<Rightarrow> bytes" where
  "sized n bs = take n (bs @ replicate n 0)"

definition toy_identity_ops :: identity_ops where
  "toy_identity_ops = \<lparr> sha256 = sized 32, ed_public = id, ed_sign = (\<lambda>seed m. sized 64 (seed @ rev m)),
     ed_key_ok = (\<lambda>k. True), ed_verify = (\<lambda>k m s. s = sized 64 (k @ rev m)),
     pack_entry = Inr \<circ> pack_fields \<circ> entry_fields,
     unpack_entry = Inr \<circ> entry_of_fields \<circ> unpack_fields [],
     pack_anchor = (\<lambda>a. Inr (pack_fields [str_bytes (ta_identity_id a), ta_public_key a])),
     pack_envelopes = Inr \<circ> pack_fields \<circ> concat \<circ> map envelope_fields,
     pull_all = (\<lambda>f. case f of None \<Rightarrow> Inr [] | Some bs \<Rightarrow> Inr (envelopes_of_fields (unpack_fields [] bs))),
     push_envelope = (\<lambda>e f. (Inr (), Some (pack_fields (envelope_fields e)))),
     rfc3339_ok = (\<lambda>s. s \<noteq> []) \<rparr>"

lemma length_sized [simp]: "length (sized n bs) = n"
  by (simp add: sized_def)

lemma entry_roundtrip: "entry_of_fields (entry_fields e) = e"
  by (simp add: entry_of_fields_def entry_fields_def)

lemma envelopes_roundtrip: "envelopes_of_fields (concat (map envelope_fields es)) = es"
proof (induction es)
  case (Cons e es)
  then show ?case by (cases "ev_schema_id e") (simp_all add: envelope_fields_def)
qed simp

lemma toy_identity_laws: "identity_laws toy_identity_ops"
  by (simp add: identity_laws_def toy_identity_ops_def entry_roundtrip envelopes_roundtrip)

lemma enrolled_identity_works_witness:
  "\<exists>s file anchor.
     enroll_service_identity_at toy_identity_ops idunn_service_profile (Some ''m1'') \<lparr> parent_ok = True, write_ok = True, chmod_ok = True \<rparr>
       (replicate 32 7) (replicate 32 9) ''2024-01-01T00:00:00Z'' None = (Ok s, Some file)
     \<and> open_service_identity_at toy_identity_ops provider_health_profile (Some ''m1'') (Some file) = Err WrongProfile
     \<and> trust_anchor_of toy_identity_ops idunn_service_profile s = Ok anchor
     \<and> verify_service_identity_signature toy_identity_ops idunn_service_profile health_projection_purpose anchor [1, 2]
          (sign_with toy_identity_ops idunn_service_profile health_projection_purpose s [1, 2]) = Ok ()"
proof -
  have trim: "trim_str ''m1'' \<noteq> []" by code_simp
  have binding: "\<exists>b. platform_binding toy_identity_ops idunn_service_profile (Some ''m1'') = Inr b"
    using trim by (simp add: platform_binding_def Let_def)
  then obtain b where b: "platform_binding toy_identity_ops idunn_service_profile (Some ''m1'') = Inr b" ..
  have "rfc3339_ok toy_identity_ops ''2024-01-01T00:00:00Z''" by (simp add: toy_identity_ops_def)
  from enrolled_identity_works [OF toy_identity_laws _ _ this b, of "replicate 32 7" "replicate 32 9"
      "\<lparr> parent_ok = True, write_ok = True, chmod_ok = True \<rparr>" provider_health_profile "[]" "[]" "[]"
      health_projection_purpose "[1, 2]"]
  show ?thesis by (simp add: idunn_service_profile_def provider_health_profile_def) blast
qed

end
