(* ===== verification/Brake.thy ===== *)
theory Brake
  imports Identity
begin

text \<open>
  The deployment brake, \<open>src/idunn_deployment_brake.rs\<close>: the record, its validation, the
  classification of what was found in the store for one deployment attempt, and the final
  decision, which also needs the operator's signature (theory \<open>Identity\<close>). The MessagePack
  encoding of the record is the parameter \<open>pack\<close>.
\<close>

section \<open>The record\<close>

definition IDUNN_DEPLOYMENT_BRAKE_SCHEMA :: string where
  "IDUNN_DEPLOYMENT_BRAKE_SCHEMA = ''idunn.deployment_brake.v1''"

definition IDUNN_DEPLOYMENT_BRAKE_ID :: string where
  "IDUNN_DEPLOYMENT_BRAKE_ID = ''idunn/deployment-brake''"

definition IDUNN_DEPLOYMENT_BRAKE_AUTHORITY :: string where
  "IDUNN_DEPLOYMENT_BRAKE_AUTHORITY = ''idunn.deployment-brake''"

definition IDUNN_DEPLOYMENT_BRAKE_SCOPE :: string where
  "IDUNN_DEPLOYMENT_BRAKE_SCOPE = ''deployment''"

definition IDUNN_DEPLOYMENT_RELEASE_PURPOSE :: string where
  "IDUNN_DEPLOYMENT_RELEASE_PURPOSE = ''idunn.deployment-release.v1''"

definition IDUNN_DEPLOYMENT_RELEASE_MAX_LIFETIME_MILLIS :: u64 where
  "IDUNN_DEPLOYMENT_RELEASE_MAX_LIFETIME_MILLIS = 15 * 60 * 1000"

record brake_record =
  br_schema_version :: string
  br_brake_id :: string
  br_authority :: string
  br_runtime_id :: string
  br_status :: string
  br_scope :: string
  br_reason :: string
  br_observed_at_unix_millis :: u64
  br_expires_at_unix_millis :: "u64 option"
  br_authorization_id :: "string option"
  br_authorization_purpose :: "string option"
  br_authorized_release_id :: "string option"
  br_authorized_deployment_id :: "string option"
  br_authorized_by :: "string option"
  br_authorization_issued_at_unix_millis :: "u64 option"
  br_authorization_expires_at_unix_millis :: "u64 option"
  br_signature_algorithm :: "string option"
  br_signature :: "bytes option"
  br_private_state_exposed :: bool
  br_updated_by :: string

datatype brake_error =
    UnsupportedBrakeSchema
  | BadIdentifier string
  | BadShape
  | EngagedWithAuthorization
  | AuthorizationIncomplete
  | AuthorizationInvalid
  | NotReleased
  | BrakeEncoding string
  | BrakeSignature identity_error

definition brake_identifier :: "string \<Rightarrow> string \<Rightarrow> brake_error + unit" where
  "brake_identifier value label =
     (if trim_is_empty value \<or> 256 < length value \<or> any_control value then Err (BadIdentifier label) else Ok ())"

definition identifiers :: "(string \<times> string) list \<Rightarrow> brake_error + unit" where
  "identifiers checks = check_all (map (\<lambda>(value, label). brake_identifier value label) checks)"

definition authorization_fields :: "brake_record \<Rightarrow> string option list" where
  "authorization_fields r = [br_authorization_id r, br_authorization_purpose r, br_authorized_release_id r,
     br_authorized_deployment_id r, br_authorized_by r, br_signature_algorithm r]"

definition has_authorization :: "brake_record \<Rightarrow> bool" where
  "has_authorization r \<longleftrightarrow> list_ex (\<lambda>v. v \<noteq> None) (authorization_fields r)
     \<or> br_authorization_issued_at_unix_millis r \<noteq> None
     \<or> br_authorization_expires_at_unix_millis r \<noteq> None \<or> br_signature r \<noteq> None"

definition is_some_and :: "'a option \<Rightarrow> ('a \<Rightarrow> bool) \<Rightarrow> bool" where
  "is_some_and v P = (case v of None \<Rightarrow> False | Some x \<Rightarrow> P x)"

definition is_none_or :: "'a option \<Rightarrow> ('a \<Rightarrow> bool) \<Rightarrow> bool" where
  "is_none_or v P = (case v of None \<Rightarrow> True | Some x \<Rightarrow> P x)"

text \<open>The checks on a released brake, once all its authorization fields are known to be there.\<close>

definition validate_release :: "brake_record \<Rightarrow> brake_error + unit" where
  "validate_release r = check_all
     [identifiers [(the (br_authorization_id r), ''authorization id''),
        (the (br_authorized_release_id r), ''authorized release id''),
        (the (br_authorized_deployment_id r), ''authorized deployment id''),
        (the (br_authorized_by r), ''authorizer'')],
      let issued = the (br_authorization_issued_at_unix_millis r);
          expires = the (br_authorization_expires_at_unix_millis r) in
      if br_authorization_purpose r \<noteq> Some IDUNN_DEPLOYMENT_RELEASE_PURPOSE
         \<or> br_signature_algorithm r \<noteq> Some ''ed25519''
         \<or> is_none_or (br_signature r) (\<lambda>v. length v \<noteq> 64)
         \<or> issued < br_observed_at_unix_millis r
         \<or> expires \<le> issued
         \<or> IDUNN_DEPLOYMENT_RELEASE_MAX_LIFETIME_MILLIS < expires - issued
         \<or> is_some_and (br_expires_at_unix_millis r) (\<lambda>brake_expiry. brake_expiry < expires)
      then Err AuthorizationInvalid else Ok ()]"

definition validate_brake :: "brake_record \<Rightarrow> brake_error + unit" where
  "validate_brake r = check_all
     [if br_schema_version r \<noteq> IDUNN_DEPLOYMENT_BRAKE_SCHEMA then Err UnsupportedBrakeSchema else Ok (),
      identifiers [(br_brake_id r, ''brake id''), (br_authority r, ''authority''),
        (br_runtime_id r, ''runtime id''), (br_reason r, ''reason''), (br_scope r, ''scope''),
        (br_updated_by r, ''updating operator'')],
      if br_status r \<notin> {''engaged'', ''released''}
         \<or> br_observed_at_unix_millis r = 0
         \<or> is_some_and (br_expires_at_unix_millis r) (\<lambda>v. v \<le> br_observed_at_unix_millis r)
         \<or> br_private_state_exposed r
      then Err BadShape else Ok (),
      if br_status r = ''engaged'' then
        (if has_authorization r then Err EngagedWithAuthorization else Ok ())
      else if list_ex (\<lambda>v. v = None) (authorization_fields r)
         \<or> br_authorization_issued_at_unix_millis r = None
         \<or> br_authorization_expires_at_unix_millis r = None \<or> br_signature r = None
      then Err AuthorizationIncomplete
      else validate_release r]"

section \<open>The decision\<close>

datatype brake_observation = Missing | Corrupt | Present brake_record

datatype brake_denial =
    DeniedMissing | DeniedCorrupt | Foreign | WrongRuntime | WrongScope | Engaged | Expired
  | ReleaseMismatch | DeploymentMismatch | InvalidSignature

definition classify_idunn_deployment_brake ::
  "brake_observation \<Rightarrow> string \<Rightarrow> string \<Rightarrow> string \<Rightarrow> u64 \<Rightarrow> brake_denial + unit" where
  "classify_idunn_deployment_brake observation runtime_id release_id deployment_id now =
     (case observation of
        Missing \<Rightarrow> Err DeniedMissing
      | Corrupt \<Rightarrow> Err DeniedCorrupt
      | Present r \<Rightarrow>
          if \<not> is_ok (validate_brake r) then Err DeniedCorrupt
          else if br_brake_id r \<noteq> IDUNN_DEPLOYMENT_BRAKE_ID \<or> br_authority r \<noteq> IDUNN_DEPLOYMENT_BRAKE_AUTHORITY
          then Err Foreign
          else if br_runtime_id r \<noteq> runtime_id then Err WrongRuntime
          else if br_scope r \<notin> {''all'', IDUNN_DEPLOYMENT_BRAKE_SCOPE} then Err WrongScope
          else if br_status r = ''engaged'' then Err Engaged
          else if is_some_and (br_expires_at_unix_millis r) (\<lambda>v. v \<le> now)
             \<or> is_none_or (br_authorization_expires_at_unix_millis r) (\<lambda>v. v \<le> now)
             \<or> is_none_or (br_authorization_issued_at_unix_millis r) (\<lambda>v. now < v)
          then Err Expired
          else if br_authorized_release_id r \<noteq> Some release_id then Err ReleaseMismatch
          else if br_authorized_deployment_id r \<noteq> Some deployment_id then Err DeploymentMismatch
          else Ok ())"

definition verify_idunn_deployment_brake_authorization ::
  "identity_ops \<Rightarrow> (brake_record \<Rightarrow> string + bytes) \<Rightarrow> brake_record \<Rightarrow> trust_anchor \<Rightarrow> brake_error + unit" where
  "verify_idunn_deployment_brake_authorization ops pack r anchor =
     bind_result (validate_brake r) (\<lambda>_.
     if br_status r \<noteq> ''released'' then Err NotReleased
     else case (br_authorized_by r, br_signature r) of
       (Some identity, Some signature) \<Rightarrow>
         (case pack (r\<lparr>br_signature := None\<rparr>) of
            Inl e \<Rightarrow> Err (BrakeEncoding e)
          | Inr payload \<Rightarrow>
            (case verify_service_identity_signature ops brake_operator_profile brake_release_purpose anchor payload
                    \<lparr> is_identity_id = identity, is_signature = signature \<rparr> of
               Inl e \<Rightarrow> Err (BrakeSignature e) | Inr _ \<Rightarrow> Ok ()))
     | _ \<Rightarrow> Err AuthorizationIncomplete)"

definition evaluate_idunn_deployment_brake ::
  "identity_ops \<Rightarrow> (brake_record \<Rightarrow> string + bytes) \<Rightarrow> brake_observation \<Rightarrow> trust_anchor
     \<Rightarrow> string \<Rightarrow> string \<Rightarrow> string \<Rightarrow> u64 \<Rightarrow> brake_denial + unit" where
  "evaluate_idunn_deployment_brake ops pack observation anchor runtime_id release_id deployment_id now =
     bind_result (classify_idunn_deployment_brake observation runtime_id release_id deployment_id now) (\<lambda>_.
       case observation of
         Present r \<Rightarrow>
           if is_ok (verify_idunn_deployment_brake_authorization ops pack r anchor) then Ok () else Err InvalidSignature
       | _ \<Rightarrow> Err DeniedMissing)"

section \<open>What a permit means\<close>

lemma identifiers_ok: "identifiers xs = Inr u \<longleftrightarrow> list_all (\<lambda>(v, l). brake_identifier v l = Inr ()) xs"
  by (induction xs) (simp_all add: identifiers_def split_beta)

lemma option_tests:
  "is_some_and v P \<longleftrightarrow> (\<exists>x. v = Some x \<and> P x)" "is_none_or v P \<longleftrightarrow> (\<forall>x. v = Some x \<longrightarrow> P x)"
  by (auto simp: is_some_and_def is_none_or_def split: option.splits)

text \<open>Everything that has to hold of a record for one attempt at a time, in one place.\<close>

definition releases :: "brake_record \<Rightarrow> string \<Rightarrow> string \<Rightarrow> string \<Rightarrow> u64 \<Rightarrow> bool" where
  "releases r runtime_id release_id deployment_id now \<longleftrightarrow>
     br_status r = ''released'' \<and> \<not> br_private_state_exposed r
     \<and> br_brake_id r = IDUNN_DEPLOYMENT_BRAKE_ID \<and> br_authority r = IDUNN_DEPLOYMENT_BRAKE_AUTHORITY
     \<and> br_runtime_id r = runtime_id \<and> br_scope r \<in> {''all'', ''deployment''}
     \<and> br_authorized_release_id r = Some release_id \<and> br_authorized_deployment_id r = Some deployment_id
     \<and> br_authorization_purpose r = Some IDUNN_DEPLOYMENT_RELEASE_PURPOSE
     \<and> (\<exists>issued expires. br_authorization_issued_at_unix_millis r = Some issued
          \<and> br_authorization_expires_at_unix_millis r = Some expires
          \<and> unat issued \<le> unat now \<and> unat now < unat expires \<and> unat expires \<le> unat issued + 15 * 60 * 1000)"

lemma lifetime_bound:
  fixes issued expires :: u64
  assumes "issued < expires" "expires - issued \<le> IDUNN_DEPLOYMENT_RELEASE_MAX_LIFETIME_MILLIS"
  shows "unat expires \<le> unat issued + 900000"
proof -
  have "unat (expires - issued) = unat expires - unat issued"
    using assms(1) by (simp add: unat_sub less_imp_le)
  moreover have "unat (expires - issued) \<le> 900000"
    using assms(2) by (simp add: IDUNN_DEPLOYMENT_RELEASE_MAX_LIFETIME_MILLIS_def word_le_nat_alt)
  ultimately show ?thesis by simp
qed

lemma validated_release:
  assumes "validate_brake r = Inr ()" "br_status r \<noteq> ''engaged''"
  obtains issued expires signature identity where
    "br_status r = ''released''" "\<not> br_private_state_exposed r"
    "br_authorization_purpose r = Some IDUNN_DEPLOYMENT_RELEASE_PURPOSE"
    "br_authorization_issued_at_unix_millis r = Some issued" "br_authorization_expires_at_unix_millis r = Some expires"
    "issued < expires" "expires - issued \<le> IDUNN_DEPLOYMENT_RELEASE_MAX_LIFETIME_MILLIS"
    "br_signature r = Some signature" "length signature = 64" "br_authorized_by r = Some identity"
  using assms
  by (auto simp: validate_brake_def validate_release_def authorization_fields_def option_tests Let_def not_le not_less
      split: if_splits)

lemma classify_permits:
  assumes "classify_idunn_deployment_brake obs rt rel dep now = Inr ()"
  obtains r where "obs = Present r" "validate_brake r = Inr ()" "releases r rt rel dep now"
proof -
  from assms obtain r where r: "obs = Present r" "validate_brake r = Inr ()" "br_status r \<noteq> ''engaged''"
    by (auto simp: classify_idunn_deployment_brake_def is_ok_iff split: brake_observation.splits if_splits)
  from validated_release [OF r(2,3)] obtain issued expires where v: "br_status r = ''released''" "\<not> br_private_state_exposed r"
    "br_authorization_purpose r = Some IDUNN_DEPLOYMENT_RELEASE_PURPOSE"
    "br_authorization_issued_at_unix_millis r = Some issued" "br_authorization_expires_at_unix_millis r = Some expires"
    "issued < expires" "expires - issued \<le> IDUNN_DEPLOYMENT_RELEASE_MAX_LIFETIME_MILLIS" by metis
  have "releases r rt rel dep now"
    using assms v lifetime_bound [OF v(6,7)] unfolding r(1)
    by (auto simp: classify_idunn_deployment_brake_def releases_def option_tests IDUNN_DEPLOYMENT_BRAKE_SCOPE_def
        not_le not_less word_le_nat_alt word_less_nat_alt split: if_splits)
  from that [OF r(1,2) this] show ?thesis .
qed

text \<open>C3.
  The brake fails closed. A deployment attempt is permitted only when a record is present and
  readable, belongs to this brake authority and runtime, is released (never engaged, never
  exposing private state) for exactly this release and this deployment, the time is inside an
  authorization interval of at most fifteen minutes, and the record without its signature field
  carries a valid signature of the operator identity of the trust anchor for the release
  purpose, the record naming that identity as its authorizer.\<close>

theorem permit_is_authorized:
  assumes "evaluate_idunn_deployment_brake ops pack obs anchor rt rel dep now = Ok ()"
  shows "\<exists>r payload signature. obs = Present r \<and> releases r rt rel dep now
    \<and> br_signature r = Some signature \<and> br_authorized_by r = Some (ta_identity_id anchor)
    \<and> derive_service_identity_id ops brake_operator_profile (ta_public_key anchor) = Ok (ta_identity_id anchor)
    \<and> pack (r\<lparr>br_signature := None\<rparr>) = Ok payload
    \<and> ed_verify ops (ta_public_key anchor) (signing_message brake_operator_profile brake_release_purpose payload) signature"
proof -
  have "classify_idunn_deployment_brake obs rt rel dep now = Inr ()"
    using assms by (auto simp: evaluate_idunn_deployment_brake_def bind_result_Inr_iff)
  then obtain r where r: "obs = Present r" "validate_brake r = Inr ()" "releases r rt rel dep now"
    by (rule classify_permits)
  have "is_ok (verify_idunn_deployment_brake_authorization ops pack r anchor)"
    using assms by (auto simp: evaluate_idunn_deployment_brake_def r(1) bind_result_Inr_iff split: if_splits)
  then obtain identity signature payload where v: "br_authorized_by r = Some identity" "br_signature r = Some signature"
      "pack (r\<lparr>br_signature := None\<rparr>) = Inr payload"
      "verify_service_identity_signature ops brake_operator_profile brake_release_purpose anchor payload
         \<lparr> is_identity_id = identity, is_signature = signature \<rparr> = Inr ()"
    by (auto simp: verify_idunn_deployment_brake_authorization_def is_ok_iff bind_result_Inr_iff
        split: if_splits option.splits sum.splits)
  from v(4) have "identity = ta_identity_id anchor"
      "derive_service_identity_id ops brake_operator_profile (ta_public_key anchor) = Inr (ta_identity_id anchor)"
      "ed_verify ops (ta_public_key anchor) (signing_message brake_operator_profile brake_release_purpose payload) signature"
    by (auto simp: verify_service_identity_signature_def validate_anchor_def check_signature_def
        bind_result_Inr_iff split: if_splits)
  with r v show ?thesis by auto
qed

lemma classify_complete:
  assumes "validate_brake r = Inr ()" "releases r rt rel dep now"
  shows "classify_idunn_deployment_brake (Present r) rt rel dep now = Inr ()"
proof -
  have "br_status r \<noteq> ''engaged''" using assms(2) by (simp add: releases_def)
  with assms have "is_some_and (br_expires_at_unix_millis r) (\<lambda>v. v < the (br_authorization_expires_at_unix_millis r)) = False"
    by (auto simp: validate_brake_def validate_release_def Let_def split: if_splits)
  then have "\<not> is_some_and (br_expires_at_unix_millis r) (\<lambda>v. v \<le> now)"
    using assms(2) by (auto simp: releases_def option_tests not_less word_le_nat_alt)
  with assms show ?thesis
    by (auto simp: classify_idunn_deployment_brake_def releases_def option_tests IDUNN_DEPLOYMENT_BRAKE_SCOPE_def
        is_ok_iff word_le_nat_alt word_less_nat_alt)
qed

lemma operator_release:
  assumes laws: "identity_laws ops" and seed: "length seed = 32"
    and s: "s = \<lparr> sg_entry = new_entry ops brake_operator_profile seed nonce created binding, sg_seed = seed \<rparr>"
    and anchor: "trust_anchor_of ops brake_operator_profile s = Ok anchor"
    and payload: "br_signature r = None" "pack r = Ok payload"
    and grant: "grant = r\<lparr>br_signature := Some (is_signature (sign_with ops brake_operator_profile brake_release_purpose s payload))\<rparr>"
    and author: "br_authorized_by r = Some (ta_identity_id anchor)"
    and valid: "validate_brake grant = Ok ()" "releases grant rt rel dep now"
  shows "evaluate_idunn_deployment_brake ops pack (Present grant) anchor rt rel dep now = Ok ()"
proof -
  let ?proof = "sign_with ops brake_operator_profile brake_release_purpose s payload"
  have unsigned: "grant\<lparr>br_signature := None\<rparr> = r" using payload(1) by (simp add: grant)
  have "is_identity_id ?proof = ta_identity_id anchor"
    using anchor by (auto simp: sign_with_def trust_anchor_of_def encoded_def bind_result_Inr_iff)
  then have "?proof = \<lparr> is_identity_id = ta_identity_id anchor, is_signature = is_signature ?proof \<rparr>" by simp
  with signature_accepted(1) [OF laws seed s anchor, of brake_release_purpose payload]
  have "verify_service_identity_signature ops brake_operator_profile brake_release_purpose anchor payload
      \<lparr> is_identity_id = ta_identity_id anchor, is_signature = is_signature ?proof \<rparr> = Inr ()" by simp
  then have "verify_idunn_deployment_brake_authorization ops pack grant anchor = Inr ()"
    using valid payload(2) author unsigned
    by (simp add: verify_idunn_deployment_brake_authorization_def releases_def) (simp add: grant)
  then show ?thesis
    using classify_complete [OF valid] by (simp add: evaluate_idunn_deployment_brake_def)
qed

text \<open>
  An operator can release the brake: a well-formed record for an attempt, completed with the
  signature that an enrolled operator identity makes over it, and naming that identity, is
  permitted for exactly that attempt at any time inside its interval.\<close>

theorem operator_release_permitted:
  assumes laws: "identity_laws ops" and seed: "length seed = 32"
    and s: "s = \<lparr> sg_entry = new_entry ops brake_operator_profile seed nonce created binding, sg_seed = seed \<rparr>"
    and anchor: "trust_anchor_of ops brake_operator_profile s = Ok anchor"
    and payload: "br_signature r = None" "pack r = Ok payload"
    and grant: "grant = r\<lparr>br_signature := Some (is_signature (sign_with ops brake_operator_profile brake_release_purpose s payload))\<rparr>"
    and author: "br_authorized_by r = Some (ta_identity_id anchor)"
    and valid: "validate_brake grant = Ok ()" "releases grant rt rel dep now"
  shows "evaluate_idunn_deployment_brake ops pack (Present grant) anchor rt rel dep now = Ok ()"
  using assms by (rule operator_release)

section \<open>A concrete release\<close>

definition toy_pack :: "brake_record \<Rightarrow> string + bytes" where
  "toy_pack r = Inr (pack_fields (map str_bytes [br_brake_id r, br_authority r, br_runtime_id r, br_status r, br_reason r]))"

definition operator :: signer where
  "operator = \<lparr> sg_entry = new_entry toy_identity_ops brake_operator_profile (replicate 32 7) [] ''2024'' ''m1'',
     sg_seed = replicate 32 7 \<rparr>"

definition operator_anchor :: trust_anchor where
  "operator_anchor = (case trust_anchor_of toy_identity_ops brake_operator_profile operator of Inr a \<Rightarrow> a)"

definition sample_release :: brake_record where
  "sample_release = \<lparr> br_schema_version = IDUNN_DEPLOYMENT_BRAKE_SCHEMA, br_brake_id = IDUNN_DEPLOYMENT_BRAKE_ID,
     br_authority = IDUNN_DEPLOYMENT_BRAKE_AUTHORITY, br_runtime_id = ''yggdrasil'', br_status = ''released'',
     br_scope = ''deployment'', br_reason = ''one attempt'', br_observed_at_unix_millis = 100,
     br_expires_at_unix_millis = Some 1000, br_authorization_id = Some ''auth/r4'',
     br_authorization_purpose = Some IDUNN_DEPLOYMENT_RELEASE_PURPOSE, br_authorized_release_id = Some ''release-4'',
     br_authorized_deployment_id = Some ''deployment-4'', br_authorized_by = Some (ta_identity_id operator_anchor),
     br_authorization_issued_at_unix_millis = Some 100, br_authorization_expires_at_unix_millis = Some 900,
     br_signature_algorithm = Some ''ed25519'', br_signature = None, br_private_state_exposed = False,
     br_updated_by = ''operator/metacrat'' \<rparr>"

definition signed_release :: brake_record where
  "signed_release = sample_release\<lparr>br_signature := Some (is_signature (sign_with toy_identity_ops brake_operator_profile
     brake_release_purpose operator (case toy_pack sample_release of Inr b \<Rightarrow> b)))\<rparr>"

lemma operator_anchor: "trust_anchor_of toy_identity_ops brake_operator_profile operator = Inr operator_anchor"
  by (simp add: operator_anchor_def trust_anchor_of_def encoded_def toy_identity_ops_def)

lemma signed_release_valid: "validate_brake signed_release = Inr ()"
  by code_simp

lemma signed_release_releases: "releases signed_release ''yggdrasil'' ''release-4'' ''deployment-4'' 500"
  by (simp add: releases_def signed_release_def sample_release_def)

lemma sample_release_permitted:
  "evaluate_idunn_deployment_brake toy_identity_ops toy_pack (Present signed_release) operator_anchor
     ''yggdrasil'' ''release-4'' ''deployment-4'' 500 = Ok ()"
proof (rule operator_release [OF toy_identity_laws _ _ operator_anchor _ _ _ _ signed_release_valid signed_release_releases])
  show "operator = \<lparr> sg_entry = new_entry toy_identity_ops brake_operator_profile (replicate 32 7) [] ''2024'' ''m1'',
     sg_seed = replicate 32 7 \<rparr>"
    by (rule operator_def)
  show "toy_pack sample_release = Ok (case toy_pack sample_release of Inr b \<Rightarrow> b)"
    by (simp add: toy_pack_def)
qed (simp_all add: sample_release_def signed_release_def)

lemma operator_release_permitted_witness:
  "evaluate_idunn_deployment_brake toy_identity_ops toy_pack (Present signed_release) operator_anchor
     ''yggdrasil'' ''release-4'' ''deployment-4'' 500 = Ok ()"
proof (rule operator_release_permitted [OF toy_identity_laws _ _ operator_anchor _ _ _ _ signed_release_valid signed_release_releases])
  show "operator = \<lparr> sg_entry = new_entry toy_identity_ops brake_operator_profile (replicate 32 7) [] ''2024'' ''m1'',
     sg_seed = replicate 32 7 \<rparr>"
    by (rule operator_def)
  show "toy_pack sample_release = Ok (case toy_pack sample_release of Inr b \<Rightarrow> b)"
    by (simp add: toy_pack_def)
qed (simp_all add: sample_release_def signed_release_def)

lemma permit_is_authorized_witness:
  "\<exists>r payload signature. Present signed_release = Present r \<and> releases r ''yggdrasil'' ''release-4'' ''deployment-4'' 500
    \<and> br_signature r = Some signature \<and> br_authorized_by r = Some (ta_identity_id operator_anchor)
    \<and> derive_service_identity_id toy_identity_ops brake_operator_profile (ta_public_key operator_anchor) = Ok (ta_identity_id operator_anchor)
    \<and> toy_pack (r\<lparr>br_signature := None\<rparr>) = Ok payload
    \<and> ed_verify toy_identity_ops (ta_public_key operator_anchor)
        (signing_message brake_operator_profile brake_release_purpose payload) signature"
  by (rule permit_is_authorized [OF sample_release_permitted])

end
