(* ===== verification/ProviderHealth.thy ===== *)
theory ProviderHealth
  imports Identity
begin

text \<open>
  The provider-health records of \<open>src/provider_health_contracts.rs\<close>: the provider's signed health
  statement, the root-distributed trust anchor of a service and Idunn's public projection, each
  with its validation. The identity of an anchor is derived as in theory \<open>Identity\<close>.
\<close>

section \<open>Shared checks\<close>

definition GAMECULT_SERVICE_TRUST_ANCHOR_SCHEMA :: string where
  "GAMECULT_SERVICE_TRUST_ANCHOR_SCHEMA = ''gamecult.service_trust_anchor.v1''"

definition IDUNN_AUTHENTICATED_PROVIDER_HEALTH_PROJECTION_SCHEMA :: string where
  "IDUNN_AUTHENTICATED_PROVIDER_HEALTH_PROJECTION_SCHEMA = ''idunn.authenticated_provider_health_projection.v1''"

definition IDUNN_SIGNED_DAEMON_HEALTH_SCHEMA :: string where
  "IDUNN_SIGNED_DAEMON_HEALTH_SCHEMA = ''idunn.signed_daemon_health.v1''"

definition IDUNN_AUTHENTICATED_PROVIDER_HEALTH_PROJECTION_SIGNING_PURPOSE :: string where
  "IDUNN_AUTHENTICATED_PROVIDER_HEALTH_PROJECTION_SIGNING_PURPOSE = ''idunn.authenticated-provider-health-projection.v1''"

datatype health_error =
    UnsupportedHealthSchema
  | BadHealthIdentifier string
  | BadHealthShape
  | WitnessAbsent
  | CommitAbsent
  | BadReleaseBinding
  | PrivateStateExposed
  | BadAnchor
  | BadIdunnAnchor
  | BadProjection
  | PartialLineage

definition validate_identifier :: "string \<Rightarrow> string \<Rightarrow> health_error + unit" where
  "validate_identifier value label =
     (if trim_is_empty value \<or> 256 < length value \<or> any_control value
      then Err (BadHealthIdentifier label) else Ok ())"

definition validate_optional_identifier :: "string option \<Rightarrow> string \<Rightarrow> health_error + unit" where
  "validate_optional_identifier value label =
     (case value of Some v \<Rightarrow> validate_identifier v label | None \<Rightarrow> Ok ())"

definition is_lower_hex_char :: "char \<Rightarrow> bool" where
  "is_lower_hex_char c \<longleftrightarrow> c \<in> set ''0123456789abcdef''"

definition is_lower_hex :: "string \<Rightarrow> nat \<Rightarrow> bool" where
  "is_lower_hex value len \<longleftrightarrow> length value = len \<and> list_all is_lower_hex_char value"

definition is_sha256 :: "string \<Rightarrow> bool" where
  "is_sha256 value = (case strip_prefix ''sha256-'' value of None \<Rightarrow> False | Some digest \<Rightarrow> is_lower_hex digest 64)"

definition validate_optional_release_binding ::
  "string option \<Rightarrow> string option \<Rightarrow> string option \<Rightarrow> health_error + unit" where
  "validate_optional_release_binding release_id witness source_commit =
     (if release_id \<noteq> None \<or> witness \<noteq> None \<or> source_commit \<noteq> None then
        bind_result (validate_optional_identifier release_id ''release id'') (\<lambda>_.
        case witness of
          None \<Rightarrow> Err WitnessAbsent
        | Some w \<Rightarrow>
          (case source_commit of
             None \<Rightarrow> Err CommitAbsent
           | Some commit \<Rightarrow>
               if release_id = None \<or> \<not> is_sha256 w \<or> \<not> is_lower_hex commit 40
               then Err BadReleaseBinding else Ok ()))
      else Ok ())"

definition validate_identifiers :: "(string \<times> string) list \<Rightarrow> health_error + unit" where
  "validate_identifiers checks = check_all (map (\<lambda>(value, label). validate_identifier value label) checks)"

section \<open>The signed statement\<close>

record signed_health =
  sh_schema_version :: string
  sh_daemon_id :: string
  sh_health_contract :: string
  sh_source_runtime_id :: string
  sh_state :: string
  sh_detail :: string
  sh_signer_identity_id :: string
  sh_publisher_incarnation_id :: string
  sh_publisher_sequence :: u64
  sh_observed_at_unix_millis :: u64
  sh_release_id :: "string option"
  sh_release_witness_sha256 :: "string option"
  sh_source_commit :: "string option"
  sh_deployment_id :: "string option"
  sh_signature_algorithm :: string
  sh_signature :: bytes
  sh_private_state_exposed :: bool

definition validate_signed_health :: "signed_health \<Rightarrow> health_error + unit" where
  "validate_signed_health r = check_all
     [if sh_schema_version r \<noteq> IDUNN_SIGNED_DAEMON_HEALTH_SCHEMA then Err UnsupportedHealthSchema else Ok (),
      validate_identifiers [(sh_daemon_id r, ''daemon id''), (sh_health_contract r, ''health contract''),
        (sh_source_runtime_id r, ''source runtime id''), (sh_signer_identity_id r, ''signer identity id''),
        (sh_publisher_incarnation_id r, ''publisher incarnation id'')],
      if sh_state r \<notin> {''active'', ''warming'', ''degraded'', ''failed''} \<or> 512 < length (sh_detail r)
         \<or> sh_signature_algorithm r \<noteq> ''ed25519'' \<or> length (sh_signature r) \<noteq> 64
         \<or> sh_publisher_sequence r = 0 \<or> sh_observed_at_unix_millis r = 0
      then Err BadHealthShape else Ok (),
      validate_optional_release_binding (sh_release_id r) (sh_release_witness_sha256 r) (sh_source_commit r),
      validate_optional_identifier (sh_deployment_id r) ''deployment id'',
      if sh_private_state_exposed r then Err PrivateStateExposed else Ok ()]"

section \<open>The trust anchor of a service\<close>

record service_anchor =
  sa_schema_version :: string
  sa_trust_anchor_id :: string
  sa_service_id :: string
  sa_runtime_id :: string
  sa_signer_identity_id :: string
  sa_signer_public_key :: bytes
  sa_signature_algorithm :: string
  sa_signing_purpose :: string
  sa_signed_schema :: string
  sa_binding_authority :: string
  sa_bound_at_unix_millis :: u64
  sa_expires_at_unix_millis :: "u64 option"
  sa_private_state_exposed :: bool

definition validate_service_anchor :: "identity_ops \<Rightarrow> service_anchor \<Rightarrow> health_error + unit" where
  "validate_service_anchor ops r = check_all
     [if sa_schema_version r \<noteq> GAMECULT_SERVICE_TRUST_ANCHOR_SCHEMA then Err UnsupportedHealthSchema else Ok (),
      validate_identifiers [(sa_trust_anchor_id r, ''trust anchor id''), (sa_service_id r, ''service id''),
        (sa_runtime_id r, ''runtime id''), (sa_signer_identity_id r, ''signer identity id''),
        (sa_signing_purpose r, ''signing purpose''), (sa_signed_schema r, ''signed schema'')],
      if length (sa_signer_public_key r) \<noteq> 32 \<or> sa_signature_algorithm r \<noteq> ''ed25519''
         \<or> sa_binding_authority r \<noteq> ''root'' \<or> sa_bound_at_unix_millis r = 0
         \<or> (case sa_expires_at_unix_millis r of None \<Rightarrow> False | Some t \<Rightarrow> t \<le> sa_bound_at_unix_millis r)
         \<or> sa_private_state_exposed r
      then Err BadAnchor else Ok (),
      if sa_signed_schema r = IDUNN_AUTHENTICATED_PROVIDER_HEALTH_PROJECTION_SCHEMA then
        (if sa_service_id r \<noteq> ''idunn''
            \<or> sa_signing_purpose r \<noteq> IDUNN_AUTHENTICATED_PROVIDER_HEALTH_PROJECTION_SIGNING_PURPOSE
         then Err BadIdunnAnchor
         else case derive_service_identity_id ops idunn_service_profile (sa_signer_public_key r) of
           Inl e \<Rightarrow> Err BadIdunnAnchor
         | Inr i \<Rightarrow> if sa_signer_identity_id r \<noteq> i then Err BadIdunnAnchor else Ok ())
      else Ok ()]"

section \<open>The projection\<close>

record health_projection =
  hp_schema_version :: string
  hp_projection_id :: string
  hp_daemon_id :: string
  hp_health_contract :: string
  hp_provider_state :: string
  hp_reason_code :: string
  hp_provider_observed_at_unix_millis :: u64
  hp_admitted_at_unix_millis :: u64
  hp_evaluated_at_unix_millis :: u64
  hp_trust_binding_id :: string
  hp_trust_binding_sha256 :: string
  hp_signed_health_sha256 :: string
  hp_authenticated_admission_sha256 :: string
  hp_provider_signer_identity_id :: string
  hp_provider_incarnation_id :: string
  hp_provider_sequence :: u64
  hp_release_id :: "string option"
  hp_release_witness_sha256 :: "string option"
  hp_source_commit :: "string option"
  hp_deployment_id :: "string option"
  hp_idunn_runtime_id :: string
  hp_idunn_signer_identity_id :: string
  hp_projection_incarnation_id :: string
  hp_projection_sequence :: u64
  hp_signature_algorithm :: string
  hp_signature :: bytes
  hp_private_state_exposed :: bool
  hp_expires_at_unix_millis :: u64

definition authenticated_provider_health_reason_code :: "string \<Rightarrow> string option" where
  "authenticated_provider_health_reason_code state =
     (if state = ''active'' then Some ''authenticated_provider_active''
      else if state = ''warming'' then Some ''authenticated_provider_warming''
      else if state = ''degraded'' then Some ''authenticated_provider_degraded''
      else if state = ''failed'' then Some ''authenticated_provider_failed''
      else None)"

definition validate_projection :: "health_projection \<Rightarrow> health_error + unit" where
  "validate_projection r = check_all
     [if hp_schema_version r \<noteq> IDUNN_AUTHENTICATED_PROVIDER_HEALTH_PROJECTION_SCHEMA
      then Err UnsupportedHealthSchema else Ok (),
      validate_identifiers [(hp_projection_id r, ''projection id''), (hp_daemon_id r, ''daemon id''),
        (hp_health_contract r, ''health contract''), (hp_trust_binding_id r, ''trust binding id''),
        (hp_provider_signer_identity_id r, ''provider signer identity id''),
        (hp_provider_incarnation_id r, ''provider incarnation id''),
        (hp_idunn_runtime_id r, ''Idunn runtime id''),
        (hp_idunn_signer_identity_id r, ''Idunn signer identity id''),
        (hp_projection_incarnation_id r, ''projection incarnation id'')],
      let reason_is_valid = (case authenticated_provider_health_reason_code (hp_provider_state r) of
            None \<Rightarrow> False | Some reason \<Rightarrow> reason = hp_reason_code r) in
      if \<not> reason_is_valid
         \<or> hp_provider_observed_at_unix_millis r = 0
         \<or> hp_admitted_at_unix_millis r < hp_provider_observed_at_unix_millis r
         \<or> hp_evaluated_at_unix_millis r < hp_admitted_at_unix_millis r
         \<or> hp_expires_at_unix_millis r \<le> hp_evaluated_at_unix_millis r
         \<or> hp_provider_sequence r = 0 \<or> hp_projection_sequence r = 0
         \<or> \<not> is_sha256 (hp_trust_binding_sha256 r) \<or> \<not> is_sha256 (hp_signed_health_sha256 r)
         \<or> \<not> is_sha256 (hp_authenticated_admission_sha256 r)
         \<or> hp_signature_algorithm r \<noteq> ''ed25519'' \<or> length (hp_signature r) \<noteq> 64
         \<or> hp_private_state_exposed r
      then Err BadProjection else Ok (),
      validate_optional_release_binding (hp_release_id r) (hp_release_witness_sha256 r) (hp_source_commit r),
      validate_optional_identifier (hp_deployment_id r) ''deployment id'',
      if (hp_deployment_id r \<noteq> None) \<noteq> (hp_release_id r \<noteq> None) then Err PartialLineage else Ok ()]"

section \<open>What a valid record is\<close>

definition proper_identifier :: "string \<Rightarrow> bool" where
  "proper_identifier s \<longleftrightarrow> \<not> trim_is_empty s \<and> length s \<le> 256 \<and> \<not> any_control s"

definition sha256_text :: "string \<Rightarrow> bool" where
  "sha256_text s \<longleftrightarrow> (\<exists>digest. s = ''sha256-'' @ digest \<and> is_lower_hex digest 64)"

text \<open>The release a provider runs is known completely or not at all.\<close>

definition whole_lineage :: "string option \<Rightarrow> string option \<Rightarrow> string option \<Rightarrow> bool" where
  "whole_lineage release witness commit \<longleftrightarrow>
     (release = None \<and> witness = None \<and> commit = None)
     \<or> (\<exists>r w c. release = Some r \<and> witness = Some w \<and> commit = Some c
          \<and> proper_identifier r \<and> sha256_text w \<and> is_lower_hex c 40)"

lemma validate_identifier_ok [simp]: "validate_identifier v l = Inr u \<longleftrightarrow> proper_identifier v"
  by (auto simp: validate_identifier_def proper_identifier_def)

lemma validate_optional_identifier_ok [simp]:
  "validate_optional_identifier v l = Inr u \<longleftrightarrow> (case v of None \<Rightarrow> True | Some s \<Rightarrow> proper_identifier s)"
  by (simp add: validate_optional_identifier_def split: option.splits)

lemma validate_identifiers_ok [simp]:
  "validate_identifiers xs = Inr u \<longleftrightarrow> list_all (\<lambda>(v, l). proper_identifier v) xs"
  by (induction xs) (simp_all add: validate_identifiers_def split_beta)

lemma is_sha256_text: "is_sha256 s \<longleftrightarrow> sha256_text s"
  unfolding is_sha256_def sha256_text_def strip_prefix_Some [symmetric] by (simp split: option.splits)

lemma release_binding_ok:
  "validate_optional_release_binding r w c = Inr u \<longleftrightarrow> whole_lineage r w c"
  by (auto simp: validate_optional_release_binding_def whole_lineage_def is_sha256_text bind_result_Inr_iff
      split: option.splits if_splits)

text \<open>
  A valid projection: whose health, how it came about in time, with a state and the one reason that
  state allows, whole lineage including the deployment, and three digests of what it rests on.
\<close>

definition projection_ok :: "health_projection \<Rightarrow> bool" where
  "projection_ok r \<longleftrightarrow>
     hp_schema_version r = IDUNN_AUTHENTICATED_PROVIDER_HEALTH_PROJECTION_SCHEMA
     \<and> list_all proper_identifier [hp_projection_id r, hp_daemon_id r, hp_health_contract r, hp_trust_binding_id r,
          hp_provider_signer_identity_id r, hp_provider_incarnation_id r, hp_idunn_runtime_id r,
          hp_idunn_signer_identity_id r, hp_projection_incarnation_id r]
     \<and> hp_provider_state r \<in> {''active'', ''warming'', ''degraded'', ''failed''}
     \<and> hp_reason_code r = ''authenticated_provider_'' @ hp_provider_state r
     \<and> 0 < hp_provider_observed_at_unix_millis r
     \<and> sorted [hp_provider_observed_at_unix_millis r, hp_admitted_at_unix_millis r, hp_evaluated_at_unix_millis r]
     \<and> hp_evaluated_at_unix_millis r < hp_expires_at_unix_millis r
     \<and> 0 < hp_provider_sequence r \<and> 0 < hp_projection_sequence r
     \<and> list_all sha256_text [hp_trust_binding_sha256 r, hp_signed_health_sha256 r, hp_authenticated_admission_sha256 r]
     \<and> hp_signature_algorithm r = ''ed25519'' \<and> length (hp_signature r) = 64 \<and> \<not> hp_private_state_exposed r
     \<and> whole_lineage (hp_release_id r) (hp_release_witness_sha256 r) (hp_source_commit r)
     \<and> (case hp_deployment_id r of None \<Rightarrow> hp_release_id r = None
                                 | Some d \<Rightarrow> proper_identifier d \<and> hp_release_id r \<noteq> None)"

lemma reason_code_ok:
  "(case authenticated_provider_health_reason_code s of None \<Rightarrow> False | Some reason \<Rightarrow> reason = c)
     \<longleftrightarrow> s \<in> {''active'', ''warming'', ''degraded'', ''failed''} \<and> c = ''authenticated_provider_'' @ s"
  by (auto simp: authenticated_provider_health_reason_code_def)

text \<open>C26.
  The validation of Idunn's public health projection accepts exactly the well-formed ones: the
  reason is the one its provider state derives, the provider was observed no later than admitted,
  admitted no later than evaluated, evaluated before the projection expires, release, witness,
  commit and deployment are all present or all absent, and nothing private is exposed.\<close>

theorem valid_projection_iff:
  "validate_projection r = Ok () \<longleftrightarrow> projection_ok r"
proof -
  have zero: "0 < n \<longleftrightarrow> n \<noteq> 0" for n :: u64 by (simp add: word_gt_0)
  show ?thesis
    by (auto simp: validate_projection_def projection_ok_def reason_code_ok release_binding_ok is_sha256_text
        Let_def zero not_less not_le split: option.splits)
qed

text \<open>
  The pinned key decides. If a service anchor for Idunn's health projections is valid and a proof
  over a projection is accepted under the anchor's public key for the Idunn profile, then the
  proof names the anchor's signer identity, and the signature verifies under that key over the
  Idunn signing message; a proof naming any other identity is refused.\<close>

theorem pinned_anchor_decides:
  assumes "validate_service_anchor ops anchor = Ok ()"
    and "sa_signed_schema anchor = IDUNN_AUTHENTICATED_PROVIDER_HEALTH_PROJECTION_SCHEMA"
    and "verify_service_identity_signature_with_public_key ops idunn_service_profile health_projection_purpose
           (sa_signer_public_key anchor) payload proof = Ok ()"
  shows "is_identity_id proof = sa_signer_identity_id anchor \<and> sa_service_id anchor = ''idunn''
    \<and> str_bytes (sa_signing_purpose anchor) = health_projection_purpose
    \<and> ed_verify ops (sa_signer_public_key anchor)
        (signing_message idunn_service_profile health_projection_purpose payload) (is_signature proof)"
  using assms
  by (auto simp: validate_service_anchor_def verify_service_identity_signature_with_public_key_def check_signature_def
      health_projection_purpose_def IDUNN_AUTHENTICATED_PROVIDER_HEALTH_PROJECTION_SIGNING_PURPOSE_def
      bind_result_Inr_iff split: if_splits sum.splits)

definition sample_anchor :: service_anchor where
  "sample_anchor = \<lparr> sa_schema_version = GAMECULT_SERVICE_TRUST_ANCHOR_SCHEMA, sa_trust_anchor_id = ''root/idunn'',
     sa_service_id = ''idunn'', sa_runtime_id = ''idunn-yggdrasil'',
     sa_signer_identity_id = identity_id toy_identity_ops idunn_service_profile (replicate 32 7),
     sa_signer_public_key = replicate 32 7, sa_signature_algorithm = ''ed25519'',
     sa_signing_purpose = IDUNN_AUTHENTICATED_PROVIDER_HEALTH_PROJECTION_SIGNING_PURPOSE,
     sa_signed_schema = IDUNN_AUTHENTICATED_PROVIDER_HEALTH_PROJECTION_SCHEMA, sa_binding_authority = ''root'',
     sa_bound_at_unix_millis = 100, sa_expires_at_unix_millis = Some 200, sa_private_state_exposed = False \<rparr>"

definition sample_proof :: identity_signature where
  "sample_proof = \<lparr> is_identity_id = sa_signer_identity_id sample_anchor,
     is_signature = ed_sign toy_identity_ops (replicate 32 7)
       (signing_message idunn_service_profile health_projection_purpose [1, 2]) \<rparr>"

lemma pinned_anchor_decides_witness:
  "is_identity_id sample_proof = sa_signer_identity_id sample_anchor
    \<and> ed_verify toy_identity_ops (sa_signer_public_key sample_anchor)
        (signing_message idunn_service_profile health_projection_purpose [1, 2]) (is_signature sample_proof)"
proof -
  have "validate_service_anchor toy_identity_ops sample_anchor = Ok ()" by code_simp
  moreover have "sa_signed_schema sample_anchor = IDUNN_AUTHENTICATED_PROVIDER_HEALTH_PROJECTION_SCHEMA"
    by (simp add: sample_anchor_def)
  moreover have "verify_service_identity_signature_with_public_key toy_identity_ops idunn_service_profile
      health_projection_purpose (sa_signer_public_key sample_anchor) [1, 2] sample_proof = Ok ()"
    by code_simp
  ultimately show ?thesis using pinned_anchor_decides by blast
qed

end
