(* ===== verification/Replication.thy ===== *)
theory Replication
  imports LegacyCodec Identity
begin

text \<open>
  Document replication, \<open>src/replication.rs\<close>: the registry that binds document types to schema
  ids, the messages built from cached documents and the application of received messages to a
  cache. The CultCache of the program is a parameter (\<open>cache_ops\<close>: its snapshot and its typed
  operations for one document type), as are the serde conversions of that type (\<open>type_ops\<close>);
  the current time is an argument. An \<open>envelope\<close> is as in theory \<open>Identity\<close>.
\<close>

section \<open>Registry\<close>

record put_options =
  po_stored_at :: "string option"
  po_source_runtime_id :: "string option"
  po_source_agent_id :: "string option"
  po_source_role :: "string option"
  po_tags :: "string list option"

record document_binding =
  db_schema_id :: string
  db_document_type :: string
  db_mutation_contract :: "mutation_contract option"
  db_payload_schema_version :: "string option"

definition binding_for_entry :: "string \<Rightarrow> string option \<Rightarrow> document_binding" where
  "binding_for_entry entry_type payload_schema_version = \<lparr> db_schema_id = entry_type,
     db_document_type = entry_type, db_mutation_contract = None,
     db_payload_schema_version = payload_schema_version \<rparr>"

definition binding_for_entry_with_schema_id :: "string \<Rightarrow> string \<Rightarrow> string option \<Rightarrow> document_binding" where
  "binding_for_entry_with_schema_id entry_type schema_id payload_schema_version = \<lparr> db_schema_id = schema_id,
     db_document_type = entry_type, db_mutation_contract = None,
     db_payload_schema_version = payload_schema_version \<rparr>"

definition with_mutation_contract :: "mutation_contract \<Rightarrow> document_binding \<Rightarrow> document_binding" where
  "with_mutation_contract contract b = b\<lparr>db_mutation_contract := Some contract\<rparr>"

record document_registry =
  bindings_by_type :: "(string, document_binding) btree"
  bindings_by_schema_id :: "(string, document_binding) btree"

definition registry_new :: document_registry where
  "registry_new = \<lparr> bindings_by_type = [], bindings_by_schema_id = [] \<rparr>"

definition register_binding :: "document_binding \<Rightarrow> document_registry \<Rightarrow> document_registry" where
  "register_binding b reg = reg\<lparr>
     bindings_by_schema_id := bt_insert (db_schema_id b) b (bindings_by_schema_id reg),
     bindings_by_type := bt_insert (db_document_type b) b (bindings_by_type reg) \<rparr>"

definition binding :: "document_registry \<Rightarrow> string \<Rightarrow> document_binding option" where
  "binding reg document_type = map_of (bindings_by_type reg) document_type"

definition binding_by_schema_id :: "document_registry \<Rightarrow> string \<Rightarrow> document_binding option" where
  "binding_by_schema_id reg schema_id = map_of (bindings_by_schema_id reg) schema_id"

definition mutation_contracts :: "document_registry \<Rightarrow> mutation_contract list" where
  "mutation_contracts reg = List.map_filter db_mutation_contract (bt_values (bindings_by_type reg))"

datatype replication_error =
    NoBinding string
  | UnexpectedMessage
  | SchemaMismatch string string
  | PayloadError string
  | CacheError string

type_synonym 'a replication_result = "replication_error + 'a"

definition require_binding :: "document_registry \<Rightarrow> string \<Rightarrow> document_binding replication_result" where
  "require_binding reg document_type =
     (case binding reg document_type of None \<Rightarrow> Err (NoBinding document_type) | Some b \<Rightarrow> Ok b)"

section \<open>Parameters\<close>

record ('v, 'j) type_ops =
  t_type :: string
  t_to_json :: "'v \<Rightarrow> string + 'j"
  t_from_json :: "'j \<Rightarrow> string + 'v"
  t_pack :: "'v \<Rightarrow> string + bytes"
  t_unpack :: "bytes \<Rightarrow> string + 'v"

record ('c, 'v) cache_ops =
  c_snapshot :: "'c \<Rightarrow> envelope list"
  c_put :: "string \<Rightarrow> 'v \<Rightarrow> 'c \<Rightarrow> (string + 'v) \<times> 'c"
  c_delete :: "string \<Rightarrow> 'c \<Rightarrow> (string + bool) \<times> 'c"
  c_put_envelope :: "envelope \<Rightarrow> 'c \<Rightarrow> (string + 'v) \<times> 'c"

definition payload_step :: "string + 'a \<Rightarrow> 'a replication_result" where
  "payload_step r = (case r of Inl e \<Rightarrow> Err (PayloadError e) | Inr x \<Rightarrow> Ok x)"

definition cache_step :: "(string + 'a) \<times> 'c \<Rightarrow> 'a replication_result \<times> 'c" where
  "cache_step rc = (case rc of (Inl e, c) \<Rightarrow> (Err (CacheError e), c) | (Inr x, c) \<Rightarrow> (Ok x, c))"

section \<open>Building messages\<close>

definition create_document_put_message ::
  "('v, 'j) type_ops \<Rightarrow> string \<Rightarrow> document_registry \<Rightarrow> string \<Rightarrow> string \<Rightarrow> 'v \<Rightarrow> put_options
     \<Rightarrow> 'j cultnet_message replication_result" where
  "create_document_put_message t now reg message_id record_key value opts =
     bind_result (require_binding reg (t_type t)) (\<lambda>b.
     bind_result (payload_step (t_pack t value)) (\<lambda>packed.
     bind_result (payload_step (t_unpack t packed)) (\<lambda>round_tripped.
     bind_result (payload_step (t_to_json t round_tripped)) (\<lambda>payload.
       Ok (DocumentPut message_id \<lparr> dr_schema_id = db_schema_id b, dr_record_key = record_key,
            dr_stored_at = (case po_stored_at opts of None \<Rightarrow> now | Some s \<Rightarrow> s), dr_payload = payload,
            dr_source_runtime_id = po_source_runtime_id opts, dr_source_agent_id = po_source_agent_id opts,
            dr_source_role = po_source_role opts, dr_tags = po_tags opts \<rparr>)))))"

definition create_document_delete_message :: "string \<Rightarrow> string \<Rightarrow> string \<Rightarrow> 'j cultnet_message" where
  "create_document_delete_message message_id schema_id record_key = DocumentDelete message_id schema_id record_key"

definition raw_document_record_from_envelope ::
  "document_registry \<Rightarrow> envelope \<Rightarrow> raw_document_record replication_result" where
  "raw_document_record_from_envelope reg e =
     bind_result (require_binding reg (ev_type e)) (\<lambda>b.
       Ok \<lparr> rd_schema_id = db_schema_id b, rd_record_key = ev_key e, rd_stored_at = ev_stored_at e,
            rd_payload_encoding = Messagepack, rd_payload = ev_payload e, rd_source_runtime_id = None,
            rd_source_agent_id = None, rd_source_role = None, rd_tags = None \<rparr>)"

definition document_record_from_envelope ::
  "(bytes \<Rightarrow> string + 'j) \<Rightarrow> document_registry \<Rightarrow> envelope \<Rightarrow> 'j document_record replication_result" where
  "document_record_from_envelope json_of_bytes reg e =
     bind_result (require_binding reg (ev_type e)) (\<lambda>b.
     bind_result (payload_step (json_of_bytes (ev_payload e))) (\<lambda>payload.
       Ok \<lparr> dr_schema_id = db_schema_id b, dr_record_key = ev_key e, dr_stored_at = ev_stored_at e,
            dr_payload = payload, dr_source_runtime_id = None, dr_source_agent_id = None,
            dr_source_role = None, dr_tags = None \<rparr>))"

definition create_raw_document_put_message_from_envelope ::
  "document_registry \<Rightarrow> string \<Rightarrow> envelope \<Rightarrow> 'j cultnet_message replication_result" where
  "create_raw_document_put_message_from_envelope reg message_id e =
     bind_result (raw_document_record_from_envelope reg e) (\<lambda>d. Ok (DocumentPutRaw message_id d))"

definition create_raw_document_put_message ::
  "('v, 'j) type_ops \<Rightarrow> string \<Rightarrow> document_registry \<Rightarrow> string \<Rightarrow> string \<Rightarrow> 'v \<Rightarrow> put_options
     \<Rightarrow> 'j cultnet_message replication_result" where
  "create_raw_document_put_message t now reg message_id record_key value opts =
     bind_result (require_binding reg (t_type t)) (\<lambda>b.
     bind_result (payload_step (t_pack t value)) (\<lambda>payload.
       Ok (DocumentPutRaw message_id \<lparr> rd_schema_id = db_schema_id b, rd_record_key = record_key,
            rd_stored_at = (case po_stored_at opts of None \<Rightarrow> now | Some s \<Rightarrow> s),
            rd_payload_encoding = Messagepack, rd_payload = payload,
            rd_source_runtime_id = po_source_runtime_id opts, rd_source_agent_id = po_source_agent_id opts,
            rd_source_role = po_source_role opts, rd_tags = po_tags opts \<rparr>)))"

definition requested :: "string list option \<Rightarrow> string \<Rightarrow> bool" where
  "requested wanted s = (case wanted of None \<Rightarrow> True | Some ids \<Rightarrow> bs_member s (bs_of_list ids))"

text \<open>The loop of both snapshot functions, over the envelopes of the cache.\<close>

fun collect_documents ::
  "(envelope \<Rightarrow> 'd replication_result) \<Rightarrow> document_registry \<Rightarrow> string list option \<Rightarrow> string list option
     \<Rightarrow> envelope list \<Rightarrow> 'd list replication_result" where
  "collect_documents project reg schema_ids record_keys [] = Ok []"
| "collect_documents project reg schema_ids record_keys (e # es) =
     bind_result (require_binding reg (ev_type e)) (\<lambda>b.
       if \<not> requested schema_ids (db_schema_id b) \<or> \<not> requested record_keys (ev_key e)
       then collect_documents project reg schema_ids record_keys es
       else bind_result (project e) (\<lambda>d.
            bind_result (collect_documents project reg schema_ids record_keys es) (\<lambda>ds. Ok (d # ds))))"

definition create_snapshot_response ::
  "('c, 'v) cache_ops \<Rightarrow> (bytes \<Rightarrow> string + 'j) \<Rightarrow> document_registry \<Rightarrow> 'c \<Rightarrow> string
     \<Rightarrow> string list option \<Rightarrow> string list option \<Rightarrow> 'j cultnet_message replication_result" where
  "create_snapshot_response ops json_of_bytes reg cache message_id schema_ids record_keys =
     bind_result (collect_documents (document_record_from_envelope json_of_bytes reg) reg schema_ids record_keys
        (c_snapshot ops cache)) (\<lambda>documents. Ok (SnapshotResponse message_id documents))"

definition create_raw_snapshot_response ::
  "('c, 'v) cache_ops \<Rightarrow> document_registry \<Rightarrow> 'c \<Rightarrow> string
     \<Rightarrow> string list option \<Rightarrow> string list option \<Rightarrow> 'j cultnet_message replication_result" where
  "create_raw_snapshot_response ops reg cache message_id schema_ids record_keys =
     bind_result (collect_documents (raw_document_record_from_envelope reg) reg schema_ids record_keys
        (c_snapshot ops cache)) (\<lambda>documents. Ok (SnapshotResponseRaw message_id documents))"

section \<open>Applying messages\<close>

definition apply_document_put_message ::
  "('v, 'j) type_ops \<Rightarrow> ('c, 'v) cache_ops \<Rightarrow> document_registry \<Rightarrow> 'j cultnet_message \<Rightarrow> 'c
     \<Rightarrow> 'v replication_result \<times> 'c" where
  "apply_document_put_message t ops reg message cache =
     (case message of
        DocumentPut message_id document \<Rightarrow>
          (case bind_result (require_binding reg (t_type t)) (\<lambda>b.
                  if dr_schema_id document \<noteq> db_schema_id b
                  then Err (SchemaMismatch (dr_schema_id document) (db_schema_id b))
                  else payload_step (t_from_json t (dr_payload document))) of
             Inl e \<Rightarrow> (Err e, cache)
           | Inr value \<Rightarrow> cache_step (c_put ops (dr_record_key document) value cache))
      | _ \<Rightarrow> (Err UnexpectedMessage, cache))"

definition apply_document_delete_message ::
  "('v, 'j) type_ops \<Rightarrow> ('c, 'v) cache_ops \<Rightarrow> document_registry \<Rightarrow> 'j cultnet_message \<Rightarrow> 'c
     \<Rightarrow> bool replication_result \<times> 'c" where
  "apply_document_delete_message t ops reg message cache =
     (case message of
        DocumentDelete message_id schema_id record_key \<Rightarrow>
          (case bind_result (require_binding reg (t_type t)) (\<lambda>b.
                  if schema_id \<noteq> db_schema_id b then Err (SchemaMismatch schema_id (db_schema_id b)) else Ok ()) of
             Inl e \<Rightarrow> (Err e, cache)
           | Inr _ \<Rightarrow> cache_step (c_delete ops record_key cache))
      | _ \<Rightarrow> (Err UnexpectedMessage, cache))"

definition apply_raw_document_put_message ::
  "('v, 'j) type_ops \<Rightarrow> ('c, 'v) cache_ops \<Rightarrow> document_registry \<Rightarrow> 'j cultnet_message \<Rightarrow> 'c
     \<Rightarrow> 'v replication_result \<times> 'c" where
  "apply_raw_document_put_message t ops reg message cache =
     (case message of
        DocumentPutRaw message_id document \<Rightarrow>
          (case bind_result (require_binding reg (t_type t)) (\<lambda>b.
                  if rd_schema_id document \<noteq> db_schema_id b
                  then Err (SchemaMismatch (rd_schema_id document) (db_schema_id b)) else Ok b) of
             Inl e \<Rightarrow> (Err e, cache)
           | Inr b \<Rightarrow> cache_step (c_put_envelope ops
               \<lparr> ev_key = rd_record_key document, ev_type = db_document_type b, ev_payload = rd_payload document,
                 ev_stored_at = rd_stored_at document, ev_schema_id = Some (db_schema_id b) \<rparr> cache))
      | _ \<Rightarrow> (Err UnexpectedMessage, cache))"

text \<open>The loop of both snapshot applications: the documents of one schema, one put each.\<close>

fun apply_all ::
  "('d \<Rightarrow> 'c \<Rightarrow> 'v replication_result \<times> 'c) \<Rightarrow> ('d \<Rightarrow> string) \<Rightarrow> string \<Rightarrow> 'd list \<Rightarrow> 'c
     \<Rightarrow> 'v list replication_result \<times> 'c" where
  "apply_all put schema_of schema_id [] cache = (Ok [], cache)"
| "apply_all put schema_of schema_id (d # ds) cache =
     (if schema_of d \<noteq> schema_id then apply_all put schema_of schema_id ds cache
      else case put d cache of
        (Inl e, cache1) \<Rightarrow> (Err e, cache1)
      | (Inr v, cache1) \<Rightarrow>
        (case apply_all put schema_of schema_id ds cache1 of
           (Inl e, cache2) \<Rightarrow> (Err e, cache2) | (Inr vs, cache2) \<Rightarrow> (Ok (v # vs), cache2)))"

definition apply_snapshot_response ::
  "('v, 'j) type_ops \<Rightarrow> ('c, 'v) cache_ops \<Rightarrow> document_registry \<Rightarrow> 'j cultnet_message \<Rightarrow> 'c
     \<Rightarrow> 'v list replication_result \<times> 'c" where
  "apply_snapshot_response t ops reg response cache =
     (case response of
        SnapshotResponse message_id documents \<Rightarrow>
          (case require_binding reg (t_type t) of
             Inl e \<Rightarrow> (Err e, cache)
           | Inr b \<Rightarrow> apply_all (\<lambda>d. apply_document_put_message t ops reg (DocumentPut ''snapshot-apply'' d))
                dr_schema_id (db_schema_id b) documents cache)
      | _ \<Rightarrow> (Err UnexpectedMessage, cache))"

definition apply_raw_snapshot_response ::
  "('v, 'j) type_ops \<Rightarrow> ('c, 'v) cache_ops \<Rightarrow> document_registry \<Rightarrow> 'j cultnet_message \<Rightarrow> 'c
     \<Rightarrow> 'v list replication_result \<times> 'c" where
  "apply_raw_snapshot_response t ops reg response cache =
     (case response of
        SnapshotResponseRaw message_id documents \<Rightarrow>
          (case require_binding reg (t_type t) of
             Inl e \<Rightarrow> (Err e, cache)
           | Inr b \<Rightarrow> apply_all (\<lambda>d. apply_raw_document_put_message t ops reg (DocumentPutRaw ''snapshot-apply-raw'' d))
                rd_schema_id (db_schema_id b) documents cache)
      | _ \<Rightarrow> (Err UnexpectedMessage, cache))"

section \<open>The registry is the list of registrations\<close>

definition registry_of :: "document_binding list \<Rightarrow> document_registry" where
  "registry_of bs = fold register_binding bs registry_new"

lemma registry_of_snoc: "registry_of (bs @ [b]) = register_binding b (registry_of bs)"
  by (simp add: registry_of_def)

lemma find_last:
  "List.find P (rev (bs @ [b])) = (if P b then Some b else List.find P (rev bs))"
  by simp

text \<open>
  Looking up in the registry finds the last registration: by type the last binding registered for
  the type, by schema id the last one registered under the schema id, for any registrations in
  any order. In particular a type registered again under another schema id is still found under
  the old one.\<close>

theorem registry_last_registration:
  "binding (registry_of bs) ty = List.find (\<lambda>b. db_document_type b = ty) (rev bs)
   \<and> binding_by_schema_id (registry_of bs) sid = List.find (\<lambda>b. db_schema_id b = sid) (rev bs)"
proof (induction bs rule: rev_induct)
  case Nil
  show ?case by (simp add: registry_of_def registry_new_def binding_def binding_by_schema_id_def)
next
  case (snoc b bs)
  then show ?case
    unfolding registry_of_snoc by (simp add: binding_def binding_by_schema_id_def register_binding_def)
qed

section \<open>Replicating a snapshot\<close>

fun put_envelopes :: "('c, 'v) cache_ops \<Rightarrow> envelope list \<Rightarrow> 'c \<Rightarrow> 'v list replication_result \<times> 'c" where
  "put_envelopes ops [] cache = (Ok [], cache)"
| "put_envelopes ops (e # es) cache =
     (case cache_step (c_put_envelope ops e cache) of
        (Inl err, cache1) \<Rightarrow> (Err err, cache1)
      | (Inr v, cache1) \<Rightarrow>
        (case put_envelopes ops es cache1 of
           (Inl err, cache2) \<Rightarrow> (Err err, cache2) | (Inr vs, cache2) \<Rightarrow> (Ok (v # vs), cache2)))"

definition schema_of_type :: "document_registry \<Rightarrow> string \<Rightarrow> string option" where
  "schema_of_type reg ty = map_option db_schema_id (binding reg ty)"

text \<open>The documents of a raw snapshot, and what a receiver stores for each.\<close>

definition raw_projection :: "string \<Rightarrow> envelope \<Rightarrow> raw_document_record" where
  "raw_projection schema_id e = \<lparr> rd_schema_id = schema_id, rd_record_key = ev_key e, rd_stored_at = ev_stored_at e,
     rd_payload_encoding = Messagepack, rd_payload = ev_payload e, rd_source_runtime_id = None,
     rd_source_agent_id = None, rd_source_role = None, rd_tags = None \<rparr>"

lemma raw_projection_schema [simp]: "rd_schema_id (raw_projection i e) = i"
  by (simp add: raw_projection_def)

definition wanted :: "document_registry \<Rightarrow> string list option \<Rightarrow> string list option \<Rightarrow> envelope \<Rightarrow> bool" where
  "wanted reg schema_ids record_keys e \<longleftrightarrow> requested record_keys (ev_key e)
     \<and> (case schema_of_type reg (ev_type e) of None \<Rightarrow> False | Some s \<Rightarrow> requested schema_ids s)"

lemma collect_raw:
  assumes "collect_documents (raw_document_record_from_envelope reg) reg sids keys es = Inr docs"
  shows "docs = map (\<lambda>e. raw_projection (the (schema_of_type reg (ev_type e))) e) (filter (wanted reg sids keys) es)"
  using assms
  by (induction es arbitrary: docs)
     (auto simp: require_binding_def wanted_def schema_of_type_def raw_document_record_from_envelope_def
        raw_projection_def bind_result_Inr_iff split: option.splits if_splits)

lemma apply_raw_one:
  assumes "binding reg (t_type t) = Some b" "db_document_type b = t_type t"
  shows "apply_raw_document_put_message t ops reg (DocumentPutRaw mid (raw_projection (db_schema_id b) e)) cache
    = cache_step (c_put_envelope ops (e\<lparr>ev_type := t_type t, ev_schema_id := Some (db_schema_id b)\<rparr>) cache)"
  using assms by (cases e) (simp add: apply_raw_document_put_message_def require_binding_def raw_projection_def)

lemma apply_all_put:
  assumes b: "binding reg (t_type t) = Some b" "db_document_type b = t_type t"
    and other: "list_all (\<lambda>e. ev_type e = t_type t \<or> schema_of_type reg (ev_type e) \<noteq> Some (db_schema_id b)) es"
    and known: "list_all (\<lambda>e. schema_of_type reg (ev_type e) \<noteq> None) es"
  shows "apply_all (\<lambda>d. apply_raw_document_put_message t ops reg (DocumentPutRaw mid d)) rd_schema_id (db_schema_id b)
      (map (\<lambda>e. raw_projection (the (schema_of_type reg (ev_type e))) e) es) cache
    = put_envelopes ops (map (\<lambda>e. e\<lparr>ev_schema_id := Some (db_schema_id b)\<rparr>)
        (filter (\<lambda>e. ev_type e = t_type t) es)) cache"
  using other known
proof (induction es arbitrary: cache)
  case (Cons e es)
  from Cons.prems have "list_all (\<lambda>e. ev_type e = t_type t \<or> schema_of_type reg (ev_type e) \<noteq> Some (db_schema_id b)) es"
    "list_all (\<lambda>e. schema_of_type reg (ev_type e) \<noteq> None) es"
    by simp_all
  note IH = Cons.IH [OF this]
  show ?case
  proof (cases "ev_type e = t_type t")
    case True
    then have schema: "schema_of_type reg (ev_type e) = Some (db_schema_id b)" using b by (simp add: schema_of_type_def)
    have same: "e\<lparr>ev_type := t_type t, ev_schema_id := Some (db_schema_id b)\<rparr> = e\<lparr>ev_schema_id := Some (db_schema_id b)\<rparr>"
      using True by (cases e) simp
    show ?thesis
      by (simp add: True schema [unfolded True] IH apply_raw_one [OF b] same split: prod.splits sum.splits)
  next
    case False
    with Cons.prems IH show ?thesis by auto
  qed
qed simp


section \<open>A concrete exchange\<close>

text \<open>A cache that keeps its envelopes in a list, for a type whose values are its bytes.\<close>

definition list_cache :: "(envelope list, bytes) cache_ops" where
  "list_cache = \<lparr> c_snapshot = id, c_put = (\<lambda>k v c. (Inr v, c)), c_delete = (\<lambda>k c. (Inr False, c)),
     c_put_envelope = (\<lambda>e c. (Inr (ev_payload e), c @ [e])) \<rparr>"

definition actor_type :: "(bytes, unit) type_ops" where
  "actor_type = \<lparr> t_type = ''actor'', t_to_json = (\<lambda>v. Inr ()), t_from_json = (\<lambda>j. Inr []), t_pack = Inr, t_unpack = Inr \<rparr>"

definition sample_registry :: document_registry where
  "sample_registry = registry_of [binding_for_entry_with_schema_id ''actor'' ''game.actor'' None,
     binding_for_entry ''item'' None]"

definition sample_cache :: "envelope list" where
  "sample_cache = [\<lparr> ev_key = ''a1'', ev_type = ''actor'', ev_payload = [1, 2], ev_stored_at = ''t1'', ev_schema_id = None \<rparr>,
     \<lparr> ev_key = ''i1'', ev_type = ''item'', ev_payload = [3], ev_stored_at = ''t2'', ev_schema_id = None \<rparr>]"


end
