(* ===== verification/SnapshotQuery.thy ===== *)
theory SnapshotQuery
  imports Replication
begin

text \<open>
  Read-only snapshots, \<open>src/snapshot_query.rs\<close>: the server side, which selects stored raw records
  under a policy, and the client side, a query with expectations on every record and the checks
  on its response. The source of records (a trait with a list or a closure behind it) is its
  result; the exchange of the messages is a function argument.
\<close>

section \<open>The policy\<close>

type_synonym snapshot_policy = "(string \<times> string) bset"

datatype query_error =
    QueryFieldEmpty string
  | UnexpectedKind
  | DuplicateRequest string string
  | SourceFailed string
  | DuplicateSourceRecord string string
  | UnregisteredSchema string string
  | NoRecordsRequested
  | DuplicateRequestedRecord string string
  | OtherMessageId string string
  | DuplicateResponseRecord string string
  | UnexpectedRecord string string
  | UnexpectedMetadata string string string
  | UnexpectedTags string string
  | ExchangeFailed string

type_synonym 'a query_result = "query_error + 'a"

definition query_require_non_empty :: "string \<Rightarrow> string \<Rightarrow> unit query_result" where
  "query_require_non_empty value field = (if trim_is_empty value then Err (QueryFieldEmpty field) else Ok ())"

definition policy_new :: snapshot_policy where
  "policy_new = []"

definition policy_allow :: "string \<Rightarrow> string \<Rightarrow> snapshot_policy \<Rightarrow> unit query_result \<times> snapshot_policy" where
  "policy_allow schema_id record_key policy =
     (case check_all [query_require_non_empty schema_id ''schema_id'', query_require_non_empty record_key ''record_key''] of
        Inl e \<Rightarrow> (Err e, policy)
      | Inr _ \<Rightarrow> (Ok (), bs_insert (schema_id, record_key) policy))"

definition policy_allows :: "snapshot_policy \<Rightarrow> string \<Rightarrow> string \<Rightarrow> bool" where
  "policy_allows policy schema_id record_key = bs_member (schema_id, record_key) policy"

section \<open>Serving\<close>

fun reject_duplicates_in :: "string \<Rightarrow> string bset \<Rightarrow> string list \<Rightarrow> unit query_result" where
  "reject_duplicates_in label seen [] = Ok ()"
| "reject_duplicates_in label seen (v # vs) =
     bind_result (query_require_non_empty v label) (\<lambda>_.
       if bs_member v seen then Err (DuplicateRequest label v)
       else reject_duplicates_in label (bs_insert v seen) vs)"

definition reject_duplicates :: "string list option \<Rightarrow> string \<Rightarrow> unit query_result" where
  "reject_duplicates values label =
     (case values of None \<Rightarrow> Ok () | Some vs \<Rightarrow> reject_duplicates_in label [] vs)"

text \<open>The loop over the records of the source.\<close>

fun select_records ::
  "document_registry \<Rightarrow> snapshot_policy \<Rightarrow> string list option \<Rightarrow> string list option
     \<Rightarrow> (string \<times> string) bset \<Rightarrow> raw_document_record list \<Rightarrow> raw_document_record list query_result" where
  "select_records reg policy schema_ids record_keys seen [] = Ok []"
| "select_records reg policy schema_ids record_keys seen (d # ds) =
     (let identity = (rd_schema_id d, rd_record_key d) in
      if bs_member identity seen then Err (DuplicateSourceRecord (rd_schema_id d) (rd_record_key d))
      else if binding_by_schema_id reg (rd_schema_id d) = None
      then Err (UnregisteredSchema (rd_schema_id d) (rd_record_key d))
      else bind_result (select_records reg policy schema_ids record_keys (bs_insert identity seen) ds) (\<lambda>selected.
        if \<not> policy_allows policy (rd_schema_id d) (rd_record_key d)
           \<or> \<not> requested schema_ids (rd_schema_id d) \<or> \<not> requested record_keys (rd_record_key d)
        then Ok selected else Ok (d # selected)))"

definition serve_read_only_raw_snapshot ::
  "document_registry \<Rightarrow> snapshot_policy \<Rightarrow> string + raw_document_record list \<Rightarrow> 'j cultnet_message
     \<Rightarrow> 'j cultnet_message query_result" where
  "serve_read_only_raw_snapshot reg policy source request =
     (case request of
        SnapshotRequest message_id schema_ids record_keys \<Rightarrow>
          bind_result (query_require_non_empty message_id ''message_id'') (\<lambda>_.
          bind_result (reject_duplicates schema_ids ''requested schema id'') (\<lambda>_.
          bind_result (reject_duplicates record_keys ''requested record key'') (\<lambda>_.
          bind_result (case source of Inl e \<Rightarrow> Err (SourceFailed e) | Inr ds \<Rightarrow> Ok ds) (\<lambda>documents.
          bind_result (select_records reg policy schema_ids record_keys [] documents) (\<lambda>selected.
            Ok (SnapshotResponseRaw message_id selected))))))
      | _ \<Rightarrow> Err UnexpectedKind)"

section \<open>Querying\<close>

record source_expectation =
  se_runtime_id :: "string option"
  se_agent_id :: "string option"
  se_role :: "string option"
  se_tags :: "string list option"

definition default_source_expectation :: source_expectation where
  "default_source_expectation = \<lparr> se_runtime_id = None, se_agent_id = None, se_role = None, se_tags = None \<rparr>"

record record_expectation =
  re_schema_id :: string
  re_record_key :: string
  re_source :: source_expectation

definition record_expectation_new :: "string \<Rightarrow> string \<Rightarrow> record_expectation" where
  "record_expectation_new schema_id record_key = \<lparr> re_schema_id = schema_id, re_record_key = record_key,
     re_source = default_source_expectation \<rparr>"

record snapshot_query =
  sq_message_id :: string
  sq_expectations :: "(string \<times> string, source_expectation) btree"

fun add_expectations ::
  "(string \<times> string, source_expectation) btree \<Rightarrow> record_expectation list
     \<Rightarrow> (string \<times> string, source_expectation) btree query_result" where
  "add_expectations m [] = Ok m"
| "add_expectations m (r # rs) =
     bind_result (query_require_non_empty (re_schema_id r) ''schema_id'') (\<lambda>_.
     bind_result (query_require_non_empty (re_record_key r) ''record_key'') (\<lambda>_.
     let identity = (re_schema_id r, re_record_key r) in
     if map_of m identity \<noteq> None then Err (DuplicateRequestedRecord (re_schema_id r) (re_record_key r))
     else add_expectations (bt_insert identity (re_source r) m) rs))"

definition snapshot_query_new :: "string \<Rightarrow> record_expectation list \<Rightarrow> snapshot_query query_result" where
  "snapshot_query_new message_id records =
     bind_result (query_require_non_empty message_id ''message_id'') (\<lambda>_.
       if records = [] then Err NoRecordsRequested
       else bind_result (add_expectations [] records) (\<lambda>expectations.
         Ok \<lparr> sq_message_id = message_id, sq_expectations = expectations \<rparr>))"

definition query_request :: "snapshot_query \<Rightarrow> 'j cultnet_message" where
  "query_request q = SnapshotRequest (sq_message_id q)
     (Some (bs_elems (bs_of_list (map fst (bt_keys (sq_expectations q))))))
     (Some (bs_elems (bs_of_list (map snd (bt_keys (sq_expectations q))))))"

definition require_expected_metadata ::
  "string \<Rightarrow> string option \<Rightarrow> string option \<Rightarrow> string \<times> string \<Rightarrow> unit query_result" where
  "require_expected_metadata field expected actual identity =
     (if expected \<noteq> None \<and> actual \<noteq> expected
      then Err (UnexpectedMetadata field (fst identity) (snd identity)) else Ok ())"

definition check_source :: "source_expectation \<Rightarrow> raw_document_record \<Rightarrow> unit query_result" where
  "check_source expected d = check_all
     [require_expected_metadata ''source_runtime_id'' (se_runtime_id expected) (rd_source_runtime_id d) (rd_schema_id d, rd_record_key d),
      require_expected_metadata ''source_agent_id'' (se_agent_id expected) (rd_source_agent_id d) (rd_schema_id d, rd_record_key d),
      require_expected_metadata ''source_role'' (se_role expected) (rd_source_role d) (rd_schema_id d, rd_record_key d),
      if se_tags expected \<noteq> None \<and> rd_tags d \<noteq> se_tags expected
      then Err (UnexpectedTags (rd_schema_id d) (rd_record_key d)) else Ok ()]"

fun check_records :: "snapshot_query \<Rightarrow> (string \<times> string) bset \<Rightarrow> raw_document_record list \<Rightarrow> unit query_result" where
  "check_records q seen [] = Ok ()"
| "check_records q seen (d # ds) =
     (let identity = (rd_schema_id d, rd_record_key d) in
      if bs_member identity seen then Err (DuplicateResponseRecord (rd_schema_id d) (rd_record_key d))
      else case map_of (sq_expectations q) identity of
        None \<Rightarrow> Err (UnexpectedRecord (rd_schema_id d) (rd_record_key d))
      | Some expected \<Rightarrow>
          bind_result (check_source expected d) (\<lambda>_. check_records q (bs_insert identity seen) ds))"

definition accept_response ::
  "snapshot_query \<Rightarrow> 'j cultnet_message \<Rightarrow> raw_document_record list query_result" where
  "accept_response q response =
     (case response of
        SnapshotResponseRaw message_id documents \<Rightarrow>
          if message_id \<noteq> sq_message_id q then Err (OtherMessageId message_id (sq_message_id q))
          else bind_result (check_records q [] documents) (\<lambda>_. Ok documents)
      | _ \<Rightarrow> Err UnexpectedKind)"

definition query_read_only_raw_snapshot ::
  "snapshot_query \<Rightarrow> ('j cultnet_message \<Rightarrow> 'j cultnet_message query_result) \<Rightarrow> raw_document_record list query_result" where
  "query_read_only_raw_snapshot q exchange = bind_result (exchange (query_request q)) (accept_response q)"

section \<open>What the server exposes\<close>

definition record_identity :: "raw_document_record \<Rightarrow> string \<times> string" where
  "record_identity d = (rd_schema_id d, rd_record_key d)"

definition exposed ::
  "snapshot_policy \<Rightarrow> string list option \<Rightarrow> string list option \<Rightarrow> raw_document_record \<Rightarrow> bool" where
  "exposed policy schema_ids record_keys d \<longleftrightarrow> record_identity d \<in> set (bs_elems policy)
     \<and> (case schema_ids of None \<Rightarrow> True | Some ids \<Rightarrow> rd_schema_id d \<in> set ids)
     \<and> (case record_keys of None \<Rightarrow> True | Some keys \<Rightarrow> rd_record_key d \<in> set keys)"

definition source_sound :: "document_registry \<Rightarrow> raw_document_record list \<Rightarrow> bool" where
  "source_sound reg ds \<longleftrightarrow> distinct (map record_identity ds)
     \<and> list_all (\<lambda>d. binding_by_schema_id reg (rd_schema_id d) \<noteq> None) ds"

lemma requested_iff: "requested ids_opt s \<longleftrightarrow> (case ids_opt of None \<Rightarrow> True | Some ids \<Rightarrow> s \<in> set ids)"
  by (simp add: requested_def split: option.splits)

lemma exposed_iff:
  "exposed policy sids keys d \<longleftrightarrow> policy_allows policy (rd_schema_id d) (rd_record_key d)
     \<and> requested sids (rd_schema_id d) \<and> requested keys (rd_record_key d)"
  by (simp add: exposed_def policy_allows_def requested_iff record_identity_def bs_member_elems)

lemmas unseen_rules = list_all_iff image_iff

lemma select_records_iff:
  "select_records reg policy sids keys seen ds = Inr selected \<longleftrightarrow>
     source_sound reg ds \<and> list_all (\<lambda>d. \<not> bs_member (record_identity d) seen) ds
     \<and> selected = filter (exposed policy sids keys) ds"
proof (induction ds arbitrary: seen selected)
  case Nil
  show ?case by (auto simp: source_sound_def)
next
  case (Cons d ds)
  from Cons.IH show ?case
    by (auto simp: Let_def bind_result_Inr_iff source_sound_def exposed_iff record_identity_def [of d, symmetric] unseen_rules)
qed

lemma reject_duplicates_in_ok:
  "reject_duplicates_in label seen vs = Inr u \<longleftrightarrow>
     list_all named vs \<and> distinct vs \<and> list_all (\<lambda>v. \<not> bs_member v seen) vs"
  by (induction vs arbitrary: seen)
     (auto simp: bind_result_Inr_iff query_require_non_empty_def named_def list_all_iff)

lemma serve_ok_iff:
  "serve_read_only_raw_snapshot reg policy (Inr source) (SnapshotRequest mid schema_ids record_keys) = Ok response
   \<longleftrightarrow> named mid
     \<and> (case schema_ids of None \<Rightarrow> True | Some ids \<Rightarrow> list_all named ids \<and> distinct ids)
     \<and> (case record_keys of None \<Rightarrow> True | Some keys \<Rightarrow> list_all named keys \<and> distinct keys)
     \<and> source_sound reg source
     \<and> response = SnapshotResponseRaw mid (filter (exposed policy schema_ids record_keys) source)"
proof -
  have "list_all (\<lambda>d. \<not> bs_member (record_identity d) []) source" by (simp add: list_all_iff)
  moreover have "list_all (\<lambda>v. \<not> bs_member v []) (vs :: string list)" for vs by (simp add: list_all_iff)
  ultimately show ?thesis
    by (auto simp: serve_read_only_raw_snapshot_def bind_result_Inr_iff select_records_iff reject_duplicates_def
        reject_duplicates_in_ok query_require_non_empty_def named_def split: option.splits)
qed

text \<open>C15.
  The read-only server answers a request exactly when the message id and the requested ids are
  non-blank, no requested id is repeated, and all records of the source are of registered schemas
  and have different identities; and the answer consists of exactly those records, unchanged and
  in the order of the source, that the policy allows and the request asks for.\<close>

theorem server_exposes_exactly:
  "serve_read_only_raw_snapshot reg policy (Inr source) (SnapshotRequest mid schema_ids record_keys) = Ok response
   \<longleftrightarrow> named mid
     \<and> (case schema_ids of None \<Rightarrow> True | Some ids \<Rightarrow> list_all named ids \<and> distinct ids)
     \<and> (case record_keys of None \<Rightarrow> True | Some keys \<Rightarrow> list_all named keys \<and> distinct keys)
     \<and> source_sound reg source
     \<and> response = SnapshotResponseRaw mid (filter (exposed policy schema_ids record_keys) source)"
  by (rule serve_ok_iff)

section \<open>A query against an honest server\<close>

definition as_expected :: "snapshot_query \<Rightarrow> raw_document_record \<Rightarrow> bool" where
  "as_expected q d \<longleftrightarrow> (case map_of (sq_expectations q) (record_identity d) of
     None \<Rightarrow> False
   | Some expected \<Rightarrow> se_runtime_id expected \<in> {None, rd_source_runtime_id d}
       \<and> se_agent_id expected \<in> {None, rd_source_agent_id d}
       \<and> se_role expected \<in> {None, rd_source_role d} \<and> se_tags expected \<in> {None, rd_tags d})"

lemma check_source_ok:
  "check_source expected d = Inr u \<longleftrightarrow> se_runtime_id expected \<in> {None, rd_source_runtime_id d}
       \<and> se_agent_id expected \<in> {None, rd_source_agent_id d}
       \<and> se_role expected \<in> {None, rd_source_role d} \<and> se_tags expected \<in> {None, rd_tags d}"
  by (auto simp: check_source_def require_expected_metadata_def)

lemma check_records_iff:
  "check_records q seen ds = Inr u \<longleftrightarrow>
     list_all (as_expected q) ds \<and> distinct (map record_identity ds)
     \<and> list_all (\<lambda>d. \<not> bs_member (record_identity d) seen) ds"
proof (induction ds arbitrary: seen)
  case (Cons d ds)
  from Cons.IH show ?case
    by (auto simp: Let_def bind_result_Inr_iff as_expected_def check_source_ok record_identity_def [of d, symmetric] unseen_rules
        split: option.splits)
qed simp

definition in_cross_product :: "snapshot_query \<Rightarrow> raw_document_record \<Rightarrow> bool" where
  "in_cross_product q d \<longleftrightarrow> rd_schema_id d \<in> set (map fst (bt_keys (sq_expectations q)))
     \<and> rd_record_key d \<in> set (map snd (bt_keys (sq_expectations q)))"

text \<open>C37.
  A query answered by the read-only server: whenever the server answers, the client accepts the
  answer exactly when every record the server exposes in the cross product of the requested schema
  ids and record keys is one of the requested records with the expected source metadata, and then
  returns exactly those records. So a server that also exposes another pair of a requested schema
  and a requested key makes the whole query fail, and requested records the server does not
  have are missing from an accepted answer without an error.\<close>

theorem query_against_server:
  assumes "serve_read_only_raw_snapshot reg policy (Inr source) (query_request q) = Ok response"
  shows "accept_response q response = Ok documents \<longleftrightarrow>
     documents = filter (\<lambda>d. record_identity d \<in> set (bs_elems policy) \<and> in_cross_product q d) source
     \<and> list_all (as_expected q) documents"
proof -
  let ?keys = "bt_keys (sq_expectations q)"
  have sound: "source_sound reg source"
    and resp: "response = SnapshotResponseRaw (sq_message_id q)
        (filter (exposed policy (Some (bs_elems (bs_of_list (map fst ?keys)))) (Some (bs_elems (bs_of_list (map snd ?keys))))) source)"
    using assms unfolding query_request_def serve_ok_iff by blast+
  have "exposed policy (Some (bs_elems (bs_of_list (map fst ?keys)))) (Some (bs_elems (bs_of_list (map snd ?keys))))
      = (\<lambda>d. record_identity d \<in> set (bs_elems policy) \<and> in_cross_product q d)"
    by (auto simp: exposed_def in_cross_product_def fun_eq_iff)
  moreover have "distinct (map record_identity (filter P source))" for P
    using sound by (simp add: source_sound_def distinct_map_filter)
  moreover have "list_all (\<lambda>d. \<not> bs_member (record_identity d) []) ds" for ds by (simp add: list_all_iff)
  ultimately show ?thesis
    by (auto simp: resp accept_response_def bind_result_Inr_iff check_records_iff)
qed

text \<open>Two records are requested, a third pair of the same schemas and keys is exposed as well.\<close>

definition sample_record :: "string \<Rightarrow> string \<Rightarrow> raw_document_record" where
  "sample_record schema_id record_key = \<lparr> rd_schema_id = schema_id, rd_record_key = record_key, rd_stored_at = ''t'',
     rd_payload_encoding = Messagepack, rd_payload = [1], rd_source_runtime_id = Some ''server'',
     rd_source_agent_id = None, rd_source_role = None, rd_tags = None \<rparr>"

definition sample_query :: snapshot_query where
  "sample_query = projr (snapshot_query_new ''q1'' [record_expectation_new ''game.actor'' ''a1'', record_expectation_new ''item'' ''i1''])"

definition sample_policy :: snapshot_policy where
  "sample_policy = bs_of_list [(''game.actor'', ''a1''), (''game.actor'', ''i1''), (''item'', ''i1'')]"

definition sample_source :: "raw_document_record list" where
  "sample_source = [sample_record ''game.actor'' ''a1'', sample_record ''item'' ''i1'', sample_record ''item'' ''hidden'']"

lemma query_against_server_witness:
  "(\<exists>response. serve_read_only_raw_snapshot sample_registry sample_policy (Inr sample_source) (query_request sample_query) = Ok response
     \<and> accept_response sample_query (response :: unit cultnet_message)
         = Ok [sample_record ''game.actor'' ''a1'', sample_record ''item'' ''i1''])
   \<and> (\<exists>response. serve_read_only_raw_snapshot sample_registry sample_policy (Inr (sample_record ''game.actor'' ''i1'' # sample_source)) (query_request sample_query) = Ok response
     \<and> (\<forall>documents. accept_response sample_query (response :: unit cultnet_message) \<noteq> Ok documents))"
proof -
  let ?r1 = "SnapshotResponseRaw ''q1'' [sample_record ''game.actor'' ''a1'', sample_record ''item'' ''i1''] :: unit cultnet_message"
  let ?r2 = "SnapshotResponseRaw ''q1'' [sample_record ''game.actor'' ''i1'', sample_record ''game.actor'' ''a1'', sample_record ''item'' ''i1''] :: unit cultnet_message"
  have 1: "serve_read_only_raw_snapshot sample_registry sample_policy (Inr sample_source) (query_request sample_query) = Ok ?r1"
    by code_simp
  have 2: "serve_read_only_raw_snapshot sample_registry sample_policy (Inr (sample_record ''game.actor'' ''i1'' # sample_source)) (query_request sample_query) = Ok ?r2"
    by code_simp
  have "accept_response sample_query ?r1 = Ok [sample_record ''game.actor'' ''a1'', sample_record ''item'' ''i1'']"
    unfolding query_against_server [OF 1] by code_simp
  note accepted = this
  have "filter (\<lambda>d. record_identity d \<in> set (bs_elems sample_policy) \<and> in_cross_product sample_query d)
      (sample_record ''game.actor'' ''i1'' # sample_source)
      = [sample_record ''game.actor'' ''i1'', sample_record ''game.actor'' ''a1'', sample_record ''item'' ''i1'']"
    "\<not> as_expected sample_query (sample_record ''game.actor'' ''i1'')" by code_simp+
  then have "accept_response sample_query ?r2 \<noteq> Ok documents" for documents
    unfolding query_against_server [OF 2] by simp
  with 1 2 accepted show ?thesis by blast
qed

end
