(* ===== verification/RustNum.thy ===== *)
theory RustNum
  imports RustStr
begin

text \<open>
  Decimal integers of the Rust standard library: \<open>{}\<close> of an \<open>i64\<close> and \<open>str::parse::<i64>\<close>, with the
  range check of the type. Reading back what was printed gives the number, and a text with a
  character that is neither a digit nor a leading sign is refused.
\<close>

definition digit_of :: "char \<Rightarrow> nat option" where
  "digit_of c = (let n = of_char c :: nat in if 48 \<le> n \<and> n \<le> 57 then Some (n - 48) else None)"

fun read_digits :: "nat \<Rightarrow> string \<Rightarrow> nat option" where
  "read_digits acc [] = Some acc"
| "read_digits acc (c # cs) =
     (case digit_of c of None \<Rightarrow> None | Some d \<Rightarrow> read_digits (acc * 10 + d) cs)"

definition i64_in_range :: "int \<Rightarrow> bool" where
  "i64_in_range i \<longleftrightarrow> - (2 ^ 63) \<le> i \<and> i < 2 ^ 63"

definition checked_i64 :: "int \<Rightarrow> int option" where
  "checked_i64 i = (if i64_in_range i then Some i else None)"

definition unsigned_digits :: "string \<Rightarrow> nat option" where
  "unsigned_digits s = (if s = [] then None else read_digits 0 s)"

definition parse_i64 :: "string \<Rightarrow> int option" where
  "parse_i64 s =
     (case s of
        [] \<Rightarrow> None
      | c # cs \<Rightarrow>
          if c = CHR ''-'' then Option.bind (unsigned_digits cs) (\<lambda>n. checked_i64 (- int n))
          else if c = CHR ''+'' then Option.bind (unsigned_digits cs) (\<lambda>n. checked_i64 (int n))
          else Option.bind (unsigned_digits s) (\<lambda>n. checked_i64 (int n)))"

definition show_i64 :: "int \<Rightarrow> string" where
  "show_i64 i = (if i < 0 then CHR ''-'' # show_nat (nat (- i)) else show_nat (nat i))"

lemma digit_of_char [simp]: "d < 10 \<Longrightarrow> digit_of (char_of (48 + d)) = Some d"
  by (simp add: digit_of_def)

lemma digit_of_None: "digit_of CHR ''-'' = None" "digit_of CHR ''+'' = None" "digit_of CHR ''|'' = None" "digit_of CHR ''.'' = None"
  by (simp_all add: digit_of_def)

lemma read_digits_append:
  "read_digits acc (xs @ ys) = Option.bind (read_digits acc xs) (\<lambda>a. read_digits a ys)"
  by (induction xs arbitrary: acc) (auto split: option.splits)

lemma read_digits_show: "read_digits acc (show_nat n) = Some (acc * 10 ^ length (show_nat n) + n)"
proof (induction n arbitrary: acc rule: show_nat.induct)
  case (1 n)
  show ?case
  proof (cases "n < 10")
    case True
    then show ?thesis by (simp add: show_nat.simps [of n])
  next
    case False
    moreover have "n div 10 * 10 + n mod 10 = n" by simp
    ultimately show ?thesis
      using 1 by (simp add: show_nat.simps [of n] read_digits_append algebra_simps)
  qed
qed

lemma show_nat_not_Nil [simp]: "show_nat n \<noteq> []"
  by (subst show_nat.simps) simp

lemma show_nat_digits: "c \<in> set (show_nat n) \<Longrightarrow> digit_of c \<noteq> None"
proof (induction n rule: show_nat.induct)
  case (1 n)
  then show ?case by (cases "n < 10") (auto simp: show_nat.simps [of n])
qed

lemma unsigned_show [simp]: "unsigned_digits (show_nat n) = Some n"
  using read_digits_show [of 0 n] by (simp add: unsigned_digits_def)

lemma parse_show_i64: "i64_in_range i \<Longrightarrow> parse_i64 (show_i64 i) = Some i"
proof (cases "i < 0")
  case True
  assume "i64_in_range i"
  with True show ?thesis by (simp add: show_i64_def parse_i64_def checked_i64_def)
next
  case False
  assume "i64_in_range i"
  moreover obtain c cs where s: "show_nat (nat i) = c # cs" by (cases "show_nat (nat i)") auto
  moreover have "c \<noteq> CHR ''-''" "c \<noteq> CHR ''+''"
    using show_nat_digits [of c "nat i"] by (auto simp: s digit_of_None)
  ultimately show ?thesis
    using False unsigned_show [of "nat i"] by (simp add: show_i64_def parse_i64_def checked_i64_def)
qed

lemma read_digits_bad: "c \<in> set cs \<Longrightarrow> digit_of c = None \<Longrightarrow> read_digits acc cs = None"
  by (induction cs arbitrary: acc) (auto split: option.splits)

lemma parse_i64_bad: "CHR ''|'' \<in> set s \<Longrightarrow> parse_i64 s = None"
  by (cases s) (auto simp: parse_i64_def unsigned_digits_def digit_of_None read_digits_bad split: option.splits)

lemma show_i64_chars: "c \<in> set (show_i64 i) \<Longrightarrow> c = CHR ''-'' \<or> digit_of c \<noteq> None"
  by (auto simp: show_i64_def dest: show_nat_digits split: if_splits)

lemma show_i64_no_bar: "CHR ''|'' \<notin> set (show_i64 i)"
  using show_i64_chars [of "CHR ''|''" i] by (auto simp: digit_of_None)

lemma show_i64_ascii: "c \<in> set (show_i64 i) \<Longrightarrow> (of_char c :: nat) < 128"
  using show_i64_chars [of c i] by (auto simp: digit_of_def Let_def split: if_splits)

section \<open>UTF-8 of concatenated strings\<close>

lemma prepend_eq: "(@) (b # z) = (\<lambda>x. b # z @ x)"
  by (simp add: fun_eq_iff)

lemma utf8_decode_append:
  "utf8_decode xs = Some cs \<Longrightarrow> utf8_decode (xs @ ys) = map_option ((@) cs) (utf8_decode ys)"
proof (induction xs arbitrary: cs rule: utf8_decode.induct)
  case 1
  then show ?case by (cases "utf8_decode ys") auto
next
  case (2 b0 bs)
  then show ?case
    by (auto simp: option.map_comp comp_def prepend_eq split: if_splits list.splits)
qed

lemma utf8_valid_append: "utf8_valid s \<Longrightarrow> utf8_valid t \<Longrightarrow> utf8_valid (s @ t)"
  by (auto simp: utf8_valid_def char_codes_def utf8_decode_append)

end
