(* ===== verification/Security.thy ===== *)
theory Security
  imports RustNum
begin

text \<open>
  Connection secrets and session tokens, \<open>src/security.rs\<close>: the keys derived from the configured
  secrets, AES-GCM encryption of strings under them, and the signed session tokens. SHA-256,
  HMAC, AES-GCM, the base64 alphabet and the calendar of the time library are parameters
  (\<open>security_ops\<close>); the current time and the nonce are arguments.
\<close>

unbundle bit_operations_syntax

section \<open>What the crate takes from its libraries\<close>

text \<open>
  \<open>ts_of\<close> is \<open>DateTime::timestamp\<close>, \<open>ts_single\<close> is \<open>Utc.timestamp_opt(s, 0).single()\<close>; times are
  compared with the order of \<open>'d\<close>.
\<close>

record 'd security_ops =
  so_sha256 :: "bytes \<Rightarrow> bytes"
  so_hmac :: "bytes \<Rightarrow> bytes \<Rightarrow> bytes"
  gcm_seal :: "bytes \<Rightarrow> bytes \<Rightarrow> bytes \<Rightarrow> bytes option"
  gcm_open :: "bytes \<Rightarrow> bytes \<Rightarrow> bytes \<Rightarrow> bytes option"
  b64u_encode :: "bytes \<Rightarrow> string"
  b64u_decode :: "string \<Rightarrow> bytes option"
  ts_of :: "'d \<Rightarrow> int"
  ts_single :: "int \<Rightarrow> 'd option"

datatype security_error =
    ConnectionKeyMissing
  | SigningSecretMissing
  | InvalidNonce
  | InvalidKeyLength
  | EncryptionFailed
  | DecryptionFailed
  | NotUtf8
  | NotBase64
  | BadExpiry

type_synonym 'a security_result = "security_error + 'a"

definition or_err :: "security_error \<Rightarrow> 'a option \<Rightarrow> 'a security_result" where
  "or_err e r = (case r of None \<Rightarrow> Err e | Some x \<Rightarrow> Ok x)"

lemma or_err_Inr [simp]: "or_err e r = Inr x \<longleftrightarrow> r = Some x"
  by (simp add: or_err_def split: option.splits)

lemma or_err_Some [simp]: "or_err e (Some x) = Inr x"
  by (simp add: or_err_def)

section \<open>Configuration\<close>

definition NONCE_LENGTH :: nat where
  "NONCE_LENGTH = 12"

record client_security =
  cs_connection_key :: string
  cs_encryption_key :: bytes

definition client_security_new :: "'d security_ops \<Rightarrow> string \<Rightarrow> client_security security_result" where
  "client_security_new ops connection_key =
     (if trim_is_empty connection_key then Err ConnectionKeyMissing
      else Ok \<lparr> cs_connection_key = connection_key,
                cs_encryption_key = so_sha256 ops (str_bytes connection_key) \<rparr>)"

record server_security =
  ss_client :: client_security
  ss_session_signing_secret :: string
  ss_session_signing_key :: bytes
  ss_is_development :: bool

definition server_security_new ::
  "'d security_ops \<Rightarrow> string \<Rightarrow> string \<Rightarrow> bool \<Rightarrow> server_security security_result" where
  "server_security_new ops connection_key session_signing_secret is_development =
     (if trim_is_empty session_signing_secret then Err SigningSecretMissing
      else bind_result (client_security_new ops connection_key) (\<lambda>client.
        Ok \<lparr> ss_client = client, ss_session_signing_secret = session_signing_secret,
             ss_session_signing_key = so_sha256 ops (str_bytes session_signing_secret),
             ss_is_development = is_development \<rparr>))"

text \<open>\<open>development()\<close>, with the panic of its \<open>expect\<close> as \<open>None\<close>.\<close>

definition client_development :: "'d security_ops \<Rightarrow> client_security option" where
  "client_development ops =
     (case client_security_new ops ''gamecult-dev-connection-key'' of Inl e \<Rightarrow> None | Inr c \<Rightarrow> Some c)"

definition server_development :: "'d security_ops \<Rightarrow> server_security option" where
  "server_development ops =
     (case server_security_new ops ''gamecult-dev-connection-key'' ''gamecult-dev-session-signing-secret'' True of
        Inl e \<Rightarrow> None | Inr s \<Rightarrow> Some s)"

definition to_client_options :: "server_security \<Rightarrow> client_security" where
  "to_client_options s = ss_client s"

definition server_encryption_key :: "server_security \<Rightarrow> bytes" where
  "server_encryption_key s = cs_encryption_key (ss_client s)"

section \<open>Encryption\<close>

text \<open>\<open>key\<close> is the \<open>encryption_key()\<close> of either kind of options.\<close>

definition validate_nonce :: "bytes \<Rightarrow> bytes security_result" where
  "validate_nonce nonce = (if length nonce \<noteq> NONCE_LENGTH then Err InvalidNonce else Ok nonce)"

definition cipher_key :: "bytes \<Rightarrow> bytes security_result" where
  "cipher_key key = (if length key \<noteq> 32 then Err InvalidKeyLength else Ok key)"

definition encrypt_bytes :: "'d security_ops \<Rightarrow> bytes \<Rightarrow> bytes \<Rightarrow> bytes \<Rightarrow> bytes security_result" where
  "encrypt_bytes ops input nonce key =
     bind_result (validate_nonce nonce) (\<lambda>n.
     bind_result (cipher_key key) (\<lambda>k.
       or_err EncryptionFailed (gcm_seal ops k n input)))"

definition decrypt_bytes :: "'d security_ops \<Rightarrow> bytes \<Rightarrow> bytes \<Rightarrow> bytes \<Rightarrow> bytes security_result" where
  "decrypt_bytes ops encrypted nonce key =
     bind_result (validate_nonce nonce) (\<lambda>n.
     bind_result (cipher_key key) (\<lambda>k.
       or_err DecryptionFailed (gcm_open ops k n encrypted)))"

definition encrypt_string ::
  "'d security_ops \<Rightarrow> string option \<Rightarrow> bytes \<Rightarrow> bytes \<Rightarrow> bytes option security_result" where
  "encrypt_string ops input nonce key =
     (case input of
        None \<Rightarrow> Ok None
      | Some s \<Rightarrow> if s = [] then Ok None
          else bind_result (encrypt_bytes ops (str_bytes s) nonce key) (\<lambda>e. Ok (Some e)))"

definition decrypt_string ::
  "'d security_ops \<Rightarrow> bytes option \<Rightarrow> bytes option \<Rightarrow> bytes \<Rightarrow> string option security_result" where
  "decrypt_string ops encrypted nonce key =
     (case (encrypted, nonce) of
        (Some e, Some n) \<Rightarrow>
          bind_result (decrypt_bytes ops e n key) (\<lambda>bytes.
          bind_result (or_err NotUtf8 (from_utf8 bytes)) (\<lambda>s. Ok (Some s)))
      | _ \<Rightarrow> Ok None)"

section \<open>Session tokens\<close>

record 'd validated_token =
  vt_user_id :: string
  vt_expires_at_utc :: 'd

text \<open>\<open>constant_time_eq\<close>: all differences are collected, there is no early exit.\<close>

definition constant_time_eq :: "bytes \<Rightarrow> bytes \<Rightarrow> bool" where
  "constant_time_eq left right =
     (if length left \<noteq> length right then False
      else fold (\<lambda>(l, r) acc. acc OR (l XOR r)) (zip left right) 0 = 0)"

definition token_payload :: "string \<Rightarrow> int \<Rightarrow> string" where
  "token_payload user_id seconds = user_id @ CHR ''|'' # show_i64 seconds"

definition create_session_token ::
  "'d security_ops \<Rightarrow> string \<Rightarrow> 'd \<Rightarrow> server_security \<Rightarrow> string security_result" where
  "create_session_token ops user_id expires_at_utc s =
     (let payload = token_payload user_id (ts_of ops expires_at_utc);
          signature = so_hmac ops (ss_session_signing_key s) (str_bytes payload) in
      Ok (b64u_encode ops (str_bytes payload) @ CHR ''.'' # b64u_encode ops signature))"

text \<open>The end of the validation, once the signature is known to be good.\<close>

definition read_payload ::
  "'d::linorder security_ops \<Rightarrow> 'd \<Rightarrow> string \<Rightarrow> 'd validated_token option security_result" where
  "read_payload ops now payload =
     (case split_once CHR ''|'' payload of
        None \<Rightarrow> Ok None
      | Some (user_id, expires_at) \<Rightarrow>
          bind_result (or_err BadExpiry (parse_i64 expires_at)) (\<lambda>seconds.
          case ts_single ops seconds of
            None \<Rightarrow> Ok None
          | Some expires_at_utc \<Rightarrow>
              if expires_at_utc \<le> now then Ok None
              else Ok (Some \<lparr> vt_user_id = user_id, vt_expires_at_utc = expires_at_utc \<rparr>)))"

definition try_validate_session_token ::
  "'d::linorder security_ops \<Rightarrow> 'd \<Rightarrow> string option \<Rightarrow> server_security
     \<Rightarrow> 'd validated_token option security_result" where
  "try_validate_session_token ops now token s =
     (case token of
        None \<Rightarrow> Ok None
      | Some t \<Rightarrow>
        if trim_is_empty t then Ok None
        else case split_once CHR ''.'' t of
          None \<Rightarrow> Ok None
        | Some (payload_part, signature_part) \<Rightarrow>
            bind_result (or_err NotBase64 (b64u_decode ops payload_part)) (\<lambda>payload.
            bind_result (or_err NotBase64 (b64u_decode ops signature_part)) (\<lambda>signature.
            if \<not> constant_time_eq signature (so_hmac ops (ss_session_signing_key s) payload) then Ok None
            else bind_result (or_err NotUtf8 (from_utf8 payload)) (read_payload ops now))))"

section \<open>The documented behaviour of the libraries\<close>

definition url_safe_char :: "char \<Rightarrow> bool" where
  "url_safe_char c \<longleftrightarrow> c \<in> set ''ABCDEFGHIJKLMNOPQRSTUVWXYZabcdefghijklmnopqrstuvwxyz0123456789-_''"

text \<open>Decoding inverts encoding, whose alphabet is the URL-safe one.\<close>

definition base64url_laws :: "'d security_ops \<Rightarrow> bool" where
  "base64url_laws ops \<longleftrightarrow> (\<forall>b. b64u_decode ops (b64u_encode ops b) = Some b)
     \<and> (\<forall>b. list_all url_safe_char (b64u_encode ops b))"

text \<open>
  AES-GCM under one key and nonce: a ciphertext opens to a message exactly when the message
  seals to it; digests have 32 bytes.
\<close>

definition gcm_laws :: "'d security_ops \<Rightarrow> bool" where
  "gcm_laws ops \<longleftrightarrow> (\<forall>x. length (so_sha256 ops x) = 32)
     \<and> (\<forall>k n m c. length k = 32 \<longrightarrow> length n = NONCE_LENGTH \<longrightarrow>
          (gcm_open ops k n c = Some m \<longleftrightarrow> gcm_seal ops k n m = Some c))"

text \<open>A time stamp is an \<open>i64\<close>.\<close>

definition calendar_laws :: "'d security_ops \<Rightarrow> bool" where
  "calendar_laws ops \<longleftrightarrow> (\<forall>d. i64_in_range (ts_of ops d))"

section \<open>Comparing signatures\<close>

lemma or_eq_zero: "a OR b = 0 \<longleftrightarrow> a = 0 \<and> (b :: 'a::len word) = 0"
  by (auto simp: bit_eq_iff bit_or_iff)

lemma xor_eq_zero: "a XOR b = 0 \<longleftrightarrow> a = (b :: 'a::len word)"
  by (auto simp: bit_eq_iff bit_xor_iff)

lemma differences_zero:
  "length xs = length ys \<Longrightarrow>
     fold (\<lambda>(l, r) acc. acc OR (l XOR r)) (zip xs ys) a = 0 \<longleftrightarrow> a = 0 \<and> xs = (ys :: u8 list)"
  by (induction xs ys arbitrary: a rule: list_induct2) (auto simp: or_eq_zero xor_eq_zero)

lemma constant_time_eq_iff [simp]: "constant_time_eq xs ys \<longleftrightarrow> xs = ys"
  by (auto simp: constant_time_eq_def differences_zero)

section \<open>Tokens\<close>

lemma url_safe_ascii: "url_safe_char c \<Longrightarrow> (of_char c :: nat) < 128 \<and> c \<noteq> CHR ''.''"
  by (auto simp: url_safe_char_def)

lemma encode_ascii:
  assumes "base64url_laws ops" "c \<in> set (b64u_encode ops b)"
  shows "(of_char c :: nat) < 128" "c \<noteq> CHR ''.''"
  using assms url_safe_ascii [of c] by (auto simp: base64url_laws_def list_all_iff)

lemma token_not_blank:
  assumes "base64url_laws ops"
  shows "\<not> trim_is_empty (b64u_encode ops p @ CHR ''.'' # b64u_encode ops q)"
proof -
  have "list_all (\<lambda>c. (of_char c :: nat) < 128) (b64u_encode ops p @ CHR ''.'' # b64u_encode ops q)"
    using encode_ascii [OF assms] by (auto simp: list_all_iff)
  then show ?thesis
    by (simp add: trim_is_empty_def code_points_ascii is_whitespace_def)
qed

lemma validate_signed:
  assumes "base64url_laws ops" and "utf8_valid payload"
  shows "try_validate_session_token ops now
     (Some (b64u_encode ops (str_bytes payload) @ CHR ''.''
              # b64u_encode ops (so_hmac ops (ss_session_signing_key s) (str_bytes payload)))) s
    = read_payload ops now payload"
proof -
  have "CHR ''.'' \<notin> set (b64u_encode ops (str_bytes payload))"
    using encode_ascii(2) [OF assms(1)] by blast
  then show ?thesis
    using token_not_blank [OF assms(1)] assms
    by (simp add: try_validate_session_token_def split_once_append base64url_laws_def)
qed

lemma utf8_valid_payload: "utf8_valid u \<Longrightarrow> utf8_valid (token_payload u i)"
  unfolding token_payload_def
  by (rule utf8_valid_append, assumption, rule utf8_valid_ascii) (simp add: list_all_iff show_i64_ascii)

lemma read_token_payload:
  assumes "i64_in_range i"
  shows "read_payload ops now (token_payload u i) =
    (if CHR ''|'' \<in> set u then Err BadExpiry
     else case ts_single ops i of
       None \<Rightarrow> Ok None
     | Some d \<Rightarrow> Ok (if d \<le> now then None else Some \<lparr> vt_user_id = u, vt_expires_at_utc = d \<rparr>))"
proof (cases "CHR ''|'' \<in> set u")
  case True
  then obtain l r where u: "u = l @ CHR ''|'' # r" "CHR ''|'' \<notin> set l"
    by (meson split_list_first)
  have "parse_i64 (r @ CHR ''|'' # show_i64 i) = None" by (rule parse_i64_bad) simp
  then show ?thesis
    using u by (simp add: read_payload_def token_payload_def split_once_append or_err_def)
next
  case False
  then show ?thesis
    using parse_show_i64 [OF assms]
    by (simp add: read_payload_def token_payload_def split_once_append split: option.splits)
qed

lemma read_payload_SomeD:
  assumes "read_payload ops now payload = Inr (Some v)"
  obtains rest seconds where "payload = vt_user_id v @ CHR ''|'' # rest" "parse_i64 rest = Some seconds"
    "ts_single ops seconds = Some (vt_expires_at_utc v)" "now < vt_expires_at_utc v"
proof -
  obtain u rest where split: "split_once CHR ''|'' payload = Some (u, rest)"
    using assms by (auto simp: read_payload_def split: option.splits)
  obtain i d where "parse_i64 rest = Some i" "ts_single ops i = Some d" "now < d"
    "v = \<lparr> vt_user_id = u, vt_expires_at_utc = d \<rparr>"
    using assms by (auto simp: read_payload_def split bind_result_Inr_iff not_le split: option.splits if_splits)
  then show ?thesis using that split_once_Some [OF split] by simp
qed

lemma accepted_tokenD:
  assumes "try_validate_session_token ops now token s = Inr (Some v)"
  obtains p q payload where "token = Some (p @ CHR ''.'' # q)" "b64u_decode ops p = Some (str_bytes payload)"
    "b64u_decode ops q = Some (so_hmac ops (ss_session_signing_key s) (str_bytes payload))"
    "read_payload ops now payload = Inr (Some v)"
  using assms
  by (auto simp: try_validate_session_token_def bind_result_Inr_iff from_utf8_Some_iff
      split: option.splits if_splits dest!: split_once_Some)

text \<open>C23.
  A session token is what it says: validated under the options it was made with, it gives back the
  user and the expiry time, cut to whole seconds, as long as that time is in the future, and
  nothing from then on. The one exception are user ids with a bar: their tokens are made without
  complaint, but every validation of them is an error.\<close>

theorem session_token_roundtrip:
  assumes "base64url_laws ops" "calendar_laws ops" "utf8_valid user_id"
    and "ts_single ops (ts_of ops expires) = Some whole"
  shows "\<exists>token. create_session_token ops user_id expires s = Ok token
    \<and> try_validate_session_token ops now (Some token) s =
        (if CHR ''|'' \<in> set user_id then Err BadExpiry
         else Ok (if whole \<le> now then None
                  else Some \<lparr> vt_user_id = user_id, vt_expires_at_utc = whole \<rparr>))"
  using assms utf8_valid_payload [OF assms(3)]
  by (simp add: create_session_token_def Let_def validate_signed read_token_payload calendar_laws_def)

text \<open>C24.
  A token is accepted only when it was signed: whatever text is presented, if the validation returns
  a user, the text is a payload and the HMAC of this payload under the session key, the payload
  names the user and an expiry time, and the time is still in the future.\<close>

theorem accepted_token_signed:
  assumes "try_validate_session_token ops now token s = Ok (Some v)"
  shows "\<exists>p q payload seconds. token = Some (p @ CHR ''.'' # q)
    \<and> b64u_decode ops p = Some (str_bytes (vt_user_id v @ CHR ''|'' # payload))
    \<and> b64u_decode ops q = Some (so_hmac ops (ss_session_signing_key s) (str_bytes (vt_user_id v @ CHR ''|'' # payload)))
    \<and> parse_i64 payload = Some seconds \<and> ts_single ops seconds = Some (vt_expires_at_utc v)
    \<and> now < vt_expires_at_utc v"
  using assms by (elim accepted_tokenD read_payload_SomeD) blast

section \<open>Secrets\<close>

lemma decrypt_bytes_iff:
  assumes "gcm_laws ops"
  shows "decrypt_bytes ops e n k = Ok m \<longleftrightarrow> encrypt_bytes ops m n k = Ok e"
  using assms by (auto simp: decrypt_bytes_def encrypt_bytes_def bind_result_Inr_iff validate_nonce_def cipher_key_def gcm_laws_def)


section \<open>A concrete instance\<close>

text \<open>Two letters per byte for base64, tags that spell out what they authenticate, seconds as times.\<close>

definition letter :: "u8 \<Rightarrow> char" where
  "letter w = char_of (97 + unat w)"

definition letters_of :: "bytes \<Rightarrow> string" where
  "letters_of bs = concat (map (\<lambda>b. [letter (b div 16), letter (b mod 16)]) bs)"

fun bytes_of_letters :: "string \<Rightarrow> bytes option" where
  "bytes_of_letters [] = Some []"
| "bytes_of_letters [c] = None"
| "bytes_of_letters (c # d # cs) =
     map_option ((#) (of_nat ((of_char c - 97) * 16 + (of_char d - 97)))) (bytes_of_letters cs)"

definition toy_security :: "int security_ops" where
  "toy_security = \<lparr> so_sha256 = (\<lambda>x. take 32 (x @ replicate 32 0)), so_hmac = (\<lambda>k m. k @ m),
     gcm_seal = (\<lambda>k n m. Some (k @ n @ m)),
     gcm_open = (\<lambda>k n c. if take (length (k @ n)) c = k @ n then Some (drop (length (k @ n)) c) else None),
     b64u_encode = letters_of, b64u_decode = bytes_of_letters,
     ts_of = (\<lambda>d. d mod 2 ^ 62), ts_single = (\<lambda>i. if i < 2 ^ 40 then Some i else None) \<rparr>"

lemma letter_code: "unat w < 16 \<Longrightarrow> of_char (letter w) = 97 + unat w"
  by (simp add: letter_def)

lemma unat_nibbles: "unat ((b :: u8) div 16) = unat b div 16" "unat ((b :: u8) mod 16) = unat b mod 16"
  by (simp_all add: unat_div unat_mod)

lemma letters_roundtrip: "bytes_of_letters (letters_of bs) = Some bs"
proof (induction bs)
  case (Cons b bs)
  have "unat b div 16 < 16" using unat_less_exp [of b] by simp
  then have "(of_char (letter (b div 16)) - 97) * 16 + (of_char (letter (b mod 16)) - 97) = unat b"
    by (simp add: letter_code unat_nibbles)
  with Cons show ?case by (simp add: letters_of_def)
qed (simp add: letters_of_def)

lemma letter_safe:
  assumes "unat w < 16"
  shows "url_safe_char (letter w)"
proof -
  have "\<forall>n \<in> set [0..<16]. url_safe_char (char_of (97 + n))" by code_simp
  with assms show ?thesis by (auto simp: letter_def)
qed

lemma letters_safe: "list_all url_safe_char (letters_of bs)"
proof (induction bs)
  case (Cons b bs)
  have "unat b div 16 < 16" using unat_less_exp [of b] by simp
  with Cons show ?case by (simp add: letters_of_def letter_safe unat_nibbles)
qed (simp add: letters_of_def)

lemma toy_security_laws:
  "base64url_laws toy_security" "calendar_laws toy_security" "gcm_laws toy_security"
proof -
  show "base64url_laws toy_security"
    by (simp add: base64url_laws_def toy_security_def letters_roundtrip letters_safe)
  have "0 \<le> d mod 2 ^ 62" "d mod 2 ^ 62 < 2 ^ 62" for d :: int by simp_all
  then show "calendar_laws toy_security"
    unfolding calendar_laws_def i64_in_range_def toy_security_def by (auto intro: order_trans less_trans)
  have open_iff: "take (length p) c = p \<and> drop (length p) c = m \<longleftrightarrow> c = p @ m" for p c m :: bytes
    by (metis append_eq_conv_conj append_take_drop_id)
  show "gcm_laws toy_security"
    using open_iff [of "k @ n" c m for k n c m]
    by (auto simp: gcm_laws_def toy_security_def append_eq_append_conv2) (metis append.assoc append_eq_conv_conj append_take_drop_id length_append)+
qed

definition sample_server :: server_security where
  "sample_server = \<lparr> ss_client = \<lparr> cs_connection_key = ''k'', cs_encryption_key = so_sha256 toy_security [107] \<rparr>,
     ss_session_signing_secret = ''s'', ss_session_signing_key = so_sha256 toy_security [115], ss_is_development = False \<rparr>"

lemma session_token_roundtrip_witness:
  "\<exists>token. create_session_token toy_security ''ann'' 1700000000 sample_server = Ok token
    \<and> try_validate_session_token toy_security 1600000000 (Some token) sample_server
        = Ok (Some \<lparr> vt_user_id = ''ann'', vt_expires_at_utc = 1700000000 \<rparr>)"
proof -
  have "utf8_valid ''ann''" "ts_single toy_security (ts_of toy_security 1700000000) = Some 1700000000"
    by code_simp+
  from session_token_roundtrip [OF toy_security_laws(1,2) this, of sample_server 1600000000]
  show ?thesis by simp
qed

lemma accepted_token_signed_witness:
  "\<exists>v. try_validate_session_token toy_security 16 (Some (letters_of (str_bytes ''ann|17'') @ CHR ''.''
        # letters_of (so_hmac toy_security (ss_session_signing_key sample_server) (str_bytes ''ann|17'')))) sample_server = Ok (Some v)
    \<and> 16 < vt_expires_at_utc v"
proof -
  have "try_validate_session_token toy_security 16 (Some (letters_of (str_bytes ''ann|17'') @ CHR ''.''
        # letters_of (so_hmac toy_security (ss_session_signing_key sample_server) (str_bytes ''ann|17'')))) sample_server
      = Ok (Some \<lparr> vt_user_id = ''ann'', vt_expires_at_utc = 17 \<rparr>)" by code_simp
  then show ?thesis using accepted_token_signed by blast
qed


end
