(* ===== verification/Json.thy ===== *)
theory Json
  imports RustNum
begin

text \<open>
  The canonical text of a JSON document, \<open>stable_stringify\<close> of \<open>src/schema_discovery.rs\<close>. A document is
  a \<open>serde_json::Value\<close>; an object is the list of its entries in the order its map iterates. How
  the library prints a number and a string are parameters. The canonical text is the same for two
  documents exactly when they are the same document up to the order of the keys.
\<close>

datatype 'n json =
    JNull
  | JBool bool
  | JNumber 'n
  | JString string
  | JArray "'n json list"
  | JObject "(string \<times> 'n json) list"

record 'n json_ops =
  js_number :: "'n \<Rightarrow> string"
  js_quote :: "string \<Rightarrow> string"

section \<open>The canonical text\<close>

text \<open>\<open>join(",")\<close>.\<close>

fun join_comma :: "string list \<Rightarrow> string" where
  "join_comma [] = []"
| "join_comma [s] = s"
| "join_comma (s # t # ts) = s @ CHR '','' # join_comma (t # ts)"

lemma size_json_entry:
  "(k, v) \<in> set es \<Longrightarrow> size v < Suc (size_list (size_prod (\<lambda>_. 0) size) es)"
  by (induction es) auto

function stable_stringify :: "'n json_ops \<Rightarrow> 'n json \<Rightarrow> string" where
  "stable_stringify ops JNull = ''null''"
| "stable_stringify ops (JBool b) = (if b then ''true'' else ''false'')"
| "stable_stringify ops (JNumber n) = js_number ops n"
| "stable_stringify ops (JString s) = js_quote ops s"
| "stable_stringify ops (JArray vs) = ''['' @ join_comma (map (stable_stringify ops) vs) @ '']''"
| "stable_stringify ops (JObject es) =
     ''{'' @ join_comma (map (\<lambda>(k, v). js_quote ops k @ '':'' @ stable_stringify ops v) (sort_key fst es)) @ ''}''"
  by pat_completeness auto
termination
  by (relation "measure (\<lambda>(ops, v). size v)") (auto simp: less_Suc_eq_le size_list_estimation' dest: size_json_entry)

section \<open>The same document\<close>

text \<open>Objects have the same keys, with the same document under each.\<close>

inductive same_json :: "'n json \<Rightarrow> 'n json \<Rightarrow> bool" where
  same_null: "same_json JNull JNull"
| same_bool: "same_json (JBool b) (JBool b)"
| same_number: "same_json (JNumber n) (JNumber n)"
| same_string: "same_json (JString s) (JString s)"
| same_array: "list_all2 same_json vs ws \<Longrightarrow> same_json (JArray vs) (JArray ws)"
| same_object: "fst ` set es = fst ` set fs \<Longrightarrow>
    (\<And>k v w. map_of es k = Some v \<Longrightarrow> map_of fs k = Some w \<Longrightarrow> same_json v w) \<Longrightarrow>
    same_json (JObject es) (JObject fs)"

inductive_cases same_arrayE: "same_json (JArray vs) w"
inductive_cases same_objectE: "same_json (JObject es) w"

text \<open>The keys of an object are different, as in every \<open>serde_json::Map\<close>.\<close>

fun keys_distinct :: "'n json \<Rightarrow> bool" where
  "keys_distinct (JArray vs) = list_all keys_distinct vs"
| "keys_distinct (JObject es) = (distinct (map fst es) \<and> list_all (\<lambda>(k, v). keys_distinct v) es)"
| "keys_distinct v = True"

text \<open>
  Numbers print in the characters of JSON numbers, different ones differently; a quoted string
  starts with a quotation mark and ends where its own text says it ends.
\<close>

definition number_char :: "char \<Rightarrow> bool" where
  "number_char c \<longleftrightarrow> c \<in> set ''+-.0123456789eE''"

definition json_laws :: "'n json_ops \<Rightarrow> bool" where
  "json_laws ops \<longleftrightarrow>
     (\<forall>n. js_number ops n \<noteq> [] \<and> list_all number_char (js_number ops n))
     \<and> (\<forall>n m. js_number ops n = js_number ops m \<longrightarrow> n = m)
     \<and> (\<forall>n. hd (js_number ops n) \<in> set ''-0123456789'')
     \<and> (\<forall>s. js_quote ops s \<noteq> [] \<and> hd (js_quote ops s) = CHR 0x22)
     \<and> (\<forall>s t x y. js_quote ops s @ x = js_quote ops t @ y \<longrightarrow> s = t \<and> x = y)"

lemma json_lawsD:
  assumes "json_laws ops"
  shows number_not_Nil: "js_number ops n \<noteq> []" and number_chars: "list_all number_char (js_number ops n)"
    and number_inj: "js_number ops n = js_number ops m \<Longrightarrow> n = m"
    and number_start: "hd (js_number ops n) \<in> set ''-0123456789''"
    and quote_not_Nil: "js_quote ops s \<noteq> []" and quote_start: "hd (js_quote ops s) = CHR 0x22"
    and quote_ends: "js_quote ops s @ x = js_quote ops t @ y \<Longrightarrow> s = t \<and> x = y"
  using assms unfolding json_laws_def by blast+

section \<open>Sorted entries\<close>

lemma sort_key_map_of:
  "distinct (map fst es) \<Longrightarrow> map_of (sort_key fst es) = map_of es"
  by (rule map_of_eqI) (auto simp: distinct_map intro: map_of_eqI)

lemma distinct_sort_key_fst: "distinct (map fst es) \<Longrightarrow> distinct (map fst (sort_key fst es))"
  by (simp add: distinct_map)

lemma sort_key_entries:
  assumes "distinct (map fst es)"
  shows "sort_key fst es = map (\<lambda>k. (k, the (map_of es k))) (sort (map fst es))"
proof -
  have keys: "map fst (sort_key fst es) = sort (map fst es)"
    by (metis mset_map mset_sort properties_for_sort sorted_sort_key)
  have "map (\<lambda>k. (k, the (map_of es k))) (map fst (sort_key fst es)) = sort_key fst es"
    using assms by (auto simp: comp_def intro!: map_idI)
  then show ?thesis by (simp add: keys)
qed

section \<open>Texts that end by themselves\<close>

text \<open>What follows a document inside another one, or nothing.\<close>

definition delimited :: "string \<Rightarrow> bool" where
  "delimited x \<longleftrightarrow> x = [] \<or> hd x \<in> set '',]}''"

lemma delimited_simps [simp]: "delimited []" "delimited (c # x) \<longleftrightarrow> c \<in> set '',]}''"
  by (simp_all add: delimited_def)

definition starts_inside :: "string \<Rightarrow> bool" where
  "starts_inside s \<longleftrightarrow> s \<noteq> [] \<and> hd s \<notin> set '',]}''"

text \<open>
  If the texts of the elements can be told apart whatever delimiter follows, so can their
  comma-separated lists.
\<close>

definition tells_apart :: "('a \<Rightarrow> string) \<Rightarrow> ('a \<Rightarrow> 'a \<Rightarrow> bool) \<Rightarrow> 'a \<Rightarrow> 'a \<Rightarrow> bool" where
  "tells_apart f R a b \<longleftrightarrow>
     (\<forall>x y. delimited x \<longrightarrow> delimited y \<longrightarrow> f a @ x = f b @ y \<longrightarrow> R a b \<and> x = y)"

lemma tells_apartD:
  "tells_apart f R a b \<Longrightarrow> f a @ x = f b @ y \<Longrightarrow> delimited x \<Longrightarrow> delimited y \<Longrightarrow> R a b \<and> x = y"
  by (simp add: tells_apart_def)

lemma join_comma_Cons: "join_comma (s # ss) = s @ concat (map (\<lambda>t. CHR '','' # t) ss)"
  by (induction ss arbitrary: s) simp_all

lemma commas_apart:
  assumes "\<And>a b. a \<in> set as \<Longrightarrow> b \<in> set bs \<Longrightarrow> tells_apart f R a b" and c: "c \<in> set '']}''"
    and "concat (map (\<lambda>a. CHR '','' # f a) as) @ c # x = concat (map (\<lambda>b. CHR '','' # f b) bs) @ c # y"
  shows "list_all2 R as bs \<and> x = y"
  using assms(1,3)
proof (induction as arbitrary: bs)
  case Nil
  with c show ?case by (cases bs) auto
next
  case (Cons a as)
  show ?case
  proof (cases bs)
    case Nil
    with Cons.prems(2) c show ?thesis by auto
  next
    case (Cons b bs')
    have rest: "delimited (concat (map (\<lambda>a. CHR '','' # f a) cs) @ c # z)" for cs z
      using c by (cases cs) auto
    have "tells_apart f R a b" using Cons.prems(1) Cons by simp
    from tells_apartD [OF this _ rest rest] have "R a b \<and>
        concat (map (\<lambda>a. CHR '','' # f a) as) @ c # x = concat (map (\<lambda>b. CHR '','' # f b) bs') @ c # y"
      using Cons.prems(2) Cons by simp
    with Cons.IH [of bs'] Cons.prems(1) Cons show ?thesis by auto
  qed
qed

lemma join_apart:
  assumes apart: "\<And>a b. a \<in> set as \<Longrightarrow> b \<in> set bs \<Longrightarrow> tells_apart f R a b"
    and inside: "\<And>a. a \<in> set as \<union> set bs \<Longrightarrow> starts_inside (f a)" and c: "c \<in> set '']}''"
    and eq: "join_comma (map f as) @ c # x = join_comma (map f bs) @ c # y"
  shows "list_all2 R as bs \<and> x = y"
proof (cases as; cases bs)
  fix a as' b bs'
  assume as: "as = a # as'" and bs: "bs = b # bs'"
  have "concat (map (\<lambda>a. CHR '','' # f a) (a # as')) @ c # x = concat (map (\<lambda>b. CHR '','' # f b) (b # bs')) @ c # y"
    using eq by (simp add: as bs join_comma_Cons comp_def)
  from commas_apart [OF _ c this, of R] apart show ?thesis by (simp add: as bs)
next
  fix b bs'
  assume "as = []" "bs = b # bs'"
  with eq inside [of b] c show ?thesis by (cases "f b") (auto simp: join_comma_Cons starts_inside_def)
next
  fix a as'
  assume "as = a # as'" "bs = []"
  with eq inside [of a] c show ?thesis by (cases "f a") (auto simp: join_comma_Cons starts_inside_def)
qed (use eq in auto)

section \<open>The text determines the document\<close>

text \<open>The first character of a text tells the kind of the document.\<close>

fun json_kind :: "'n json \<Rightarrow> nat" where
  "json_kind JNull = 0"
| "json_kind (JBool b) = (if b then 1 else 2)"
| "json_kind (JNumber n) = 3"
| "json_kind (JString s) = 4"
| "json_kind (JArray vs) = 5"
| "json_kind (JObject es) = 6"

definition kind_of_char :: "char \<Rightarrow> nat" where
  "kind_of_char c = (if c = CHR ''n'' then 0 else if c = CHR ''t'' then 1 else if c = CHR ''f'' then 2
     else if c = CHR 0x22 then 4 else if c = CHR ''['' then 5 else if c = CHR ''{'' then 6
     else if c \<in> set ''-0123456789'' then 3 else 7)"

lemma kind_of_number_start: "c \<in> set ''-0123456789'' \<Longrightarrow> kind_of_char c = 3"
proof -
  have "\<forall>c \<in> set ''-0123456789''. kind_of_char c = 3" by code_simp
  then show "c \<in> set ''-0123456789'' \<Longrightarrow> kind_of_char c = 3" by blast
qed

lemma kind_of_delimiter: "c \<in> set '',]}'' \<Longrightarrow> kind_of_char c = 7"
proof -
  have "\<forall>c \<in> set '',]}''. kind_of_char c = 7" by code_simp
  then show "c \<in> set '',]}'' \<Longrightarrow> kind_of_char c = 7" by blast
qed

lemma kind_of_starts:
  "kind_of_char CHR ''n'' = 0" "kind_of_char CHR ''t'' = 1" "kind_of_char CHR ''f'' = 2"
  "kind_of_char CHR 0x22 = 4" "kind_of_char CHR ''['' = 5" "kind_of_char CHR ''{'' = 6"
  by code_simp+

lemma stringify_start:
  assumes "json_laws ops"
  shows "stable_stringify ops v \<noteq> []" "kind_of_char (hd (stable_stringify ops v)) = json_kind v"
  using kind_of_number_start [OF number_start [OF assms]]
  by (cases v; simp add: number_not_Nil [OF assms] quote_not_Nil [OF assms] quote_start [OF assms] kind_of_starts)+

lemma stringify_inside:
  assumes "json_laws ops"
  shows "starts_inside (stable_stringify ops v)"
proof -
  have "json_kind v < 7" by (cases v) simp_all
  then have "hd (stable_stringify ops v) \<notin> set '',]}''"
    using stringify_start(2) [OF assms, of v] kind_of_delimiter by fastforce
  then show ?thesis using stringify_start(1) [OF assms] by (simp only: starts_inside_def simp_thms)
qed

lemma same_kind:
  assumes "json_laws ops" "stable_stringify ops v @ x = stable_stringify ops w @ y"
  shows "json_kind v = json_kind w"
  using stringify_start [OF assms(1), of v] stringify_start [OF assms(1), of w] assms(2)
  by (metis hd_append2)

lemma number_apart:
  assumes "json_laws ops" "js_number ops n @ x = js_number ops m @ y" "delimited x" "delimited y"
  shows "n = m \<and> x = y"
proof -
  have stop: "takeWhile number_char z = []" if "delimited z" for z
    using that by (cases z) (auto simp: number_char_def)
  have "takeWhile number_char (js_number ops k @ z) = js_number ops k" if "delimited z" for k z
    using number_chars [OF assms(1)] stop [OF that] by (subst takeWhile_append2) (auto simp: list_all_iff)
  with assms(2-4) have "js_number ops n = js_number ops m" by metis
  with assms(2) number_inj [OF assms(1)] show ?thesis by auto
qed

definition entry_text :: "'n json_ops \<Rightarrow> string \<times> 'n json \<Rightarrow> string" where
  "entry_text ops = (\<lambda>(k, v). js_quote ops k @ '':'' @ stable_stringify ops v)"

definition same_entry :: "string \<times> 'n json \<Rightarrow> string \<times> 'n json \<Rightarrow> bool" where
  "same_entry = (\<lambda>(k, v) (l, w). k = l \<and> same_json v w)"

lemma entry_apart:
  assumes "json_laws ops" "tells_apart (stable_stringify ops) same_json v w"
  shows "tells_apart (entry_text ops) same_entry (k, v) (l, w)"
  unfolding tells_apart_def
proof (intro allI impI)
  fix x y
  assume d: "delimited x" "delimited y" and eq: "entry_text ops (k, v) @ x = entry_text ops (l, w) @ y"
  have "js_quote ops k @ (CHR '':'' # stable_stringify ops v @ x) = js_quote ops l @ (CHR '':'' # stable_stringify ops w @ y)"
    using eq by (simp add: entry_text_def)
  then have "k = l \<and> CHR '':'' # stable_stringify ops v @ x = CHR '':'' # stable_stringify ops w @ y"
    by (rule quote_ends [OF assms(1)])
  with tells_apartD [OF assms(2) _ d] show "same_entry (k, v) (l, w) \<and> x = y"
    by (simp add: same_entry_def)
qed

lemma entry_inside: "json_laws ops \<Longrightarrow> starts_inside (entry_text ops e)"
  by (cases e) (simp add: entry_text_def starts_inside_def quote_not_Nil quote_start)

lemma same_entries_object:
  assumes "list_all2 same_entry (sort_key fst es) (sort_key fst fs)"
    and "distinct (map fst es)" "distinct (map fst fs)"
  shows "same_json (JObject es) (JObject fs)"
proof (rule same_object)
  have "map fst (sort_key fst es) = map fst (sort_key fst fs)"
    using assms(1) by (induction rule: list_all2_induct) (auto simp: same_entry_def)
  then show "fst ` set es = fst ` set fs" by (metis set_map set_sort)
next
  fix k v w
  assume kv: "map_of es k = Some v" and kw: "map_of fs k = Some w"
  from kv have "(k, v) \<in> set (sort_key fst es)" by (simp add: map_of_SomeD)
  then obtain i where i: "i < length (sort_key fst es)" "sort_key fst es ! i = (k, v)"
    unfolding in_set_conv_nth by blast
  define e where "e = sort_key fst fs ! i"
  have "same_entry (k, v) e" using list_all2_nthD [OF assms(1) i(1)] i(2) by (simp add: e_def)
  moreover have "e \<in> set fs"
    using i(1) list_all2_lengthD [OF assms(1)] nth_mem [of i "sort_key fst fs"] by (simp add: e_def)
  ultimately have "map_of fs k = Some (snd e)" "same_json v (snd e)"
    using assms(3) by (auto simp: same_entry_def split: prod.splits)
  with kw show "same_json v w" by simp
qed

lemma stringify_entries:
  "stable_stringify ops (JObject es) = ''{'' @ join_comma (map (entry_text ops) (sort_key fst es)) @ ''}''"
  by (simp add: entry_text_def)

lemma stringify_apart:
  assumes "json_laws ops"
  shows "keys_distinct v \<Longrightarrow> keys_distinct w \<Longrightarrow> tells_apart (stable_stringify ops) same_json v w"
proof (induction v arbitrary: w rule: measure_induct_rule [of size])
  case (less v)
  show ?case unfolding tells_apart_def
  proof (intro allI impI)
    fix x y
    assume d: "delimited x" "delimited y" and eq: "stable_stringify ops v @ x = stable_stringify ops w @ y"
    note kind = same_kind [OF assms eq]
    show "same_json v w \<and> x = y"
    proof (cases v)
      case (JNumber n)
      with kind obtain m where w: "w = JNumber m" by (cases w) (auto split: if_splits)
      from eq have "n = m \<and> x = y" by (intro number_apart [OF assms _ d]) (simp add: JNumber w)
      then show ?thesis by (simp add: JNumber w same_number)
    next
      case (JString s)
      with kind obtain t where w: "w = JString t" by (cases w) (auto split: if_splits)
      from eq have "s = t \<and> x = y" by (intro quote_ends [OF assms]) (simp add: JString w)
      then show ?thesis by (simp add: JString w same_string)
    next
      case (JArray vs)
      with kind obtain ws where w: "w = JArray ws" by (cases w) (auto split: if_splits)
      have "tells_apart (stable_stringify ops) same_json a b" if "a \<in> set vs" "b \<in> set ws" for a b
        using less.IH [of a b] less.prems that by (simp add: JArray w list_all_iff size_list_estimation' less_Suc_eq_le)
      from join_apart [OF this stringify_inside [OF assms], of vs ws "CHR '']''" x y] eq show ?thesis
        by (simp add: JArray w same_array)
    next
      case (JObject es)
      with kind obtain fs where w: "w = JObject fs" by (cases w) (auto split: if_splits)
      have "tells_apart (entry_text ops) same_entry (k, a) (l, b)" if "(k, a) \<in> set es" "(l, b) \<in> set fs" for k a l b
        using less.IH [of a b] less.prems that size_json_entry [OF that(1)]
        by (intro entry_apart [OF assms]) (auto simp: JObject w list_all_iff)
      then have apart: "tells_apart (entry_text ops) same_entry a b"
        if "a \<in> set (sort_key fst es)" "b \<in> set (sort_key fst fs)" for a b
        using that by (cases a; cases b) simp
      have "join_comma (map (entry_text ops) (sort_key fst es)) @ CHR ''}'' # x
          = join_comma (map (entry_text ops) (sort_key fst fs)) @ CHR ''}'' # y"
        using eq unfolding JObject w stringify_entries by simp
      from join_apart [OF apart entry_inside [OF assms] _ this]
      have "list_all2 same_entry (sort_key fst es) (sort_key fst fs) \<and> x = y" by simp
      with less.prems show ?thesis by (simp add: JObject w same_entries_object)
    qed (use kind eq in \<open>cases w; auto split: if_splits intro: same_json.intros\<close>)+
  qed
qed

lemma same_json_text:
  "same_json v w \<Longrightarrow> keys_distinct v \<Longrightarrow> keys_distinct w \<Longrightarrow> stable_stringify ops v = stable_stringify ops w"
proof (induction rule: same_json.induct)
  case (same_array vs ws)
  have "map (stable_stringify ops) vs = map (stable_stringify ops) ws"
    using same_array by (induction rule: list_all2_induct) auto
  then show ?case by simp
next
  case (same_object es fs)
  have keys: "sort (map fst es) = sort (map fst fs)"
    using same_object by (intro sorted_distinct_set_unique) auto
  have "stable_stringify ops (the (map_of es k)) = stable_stringify ops (the (map_of fs k))" if "k \<in> set (map fst es)" for k
  proof -
    have "k \<in> fst ` set es" "k \<in> fst ` set fs" using that same_object(1) by simp_all
    then obtain v w where "map_of es k = Some v" "map_of fs k = Some w"
      by (metis map_of_eq_None_iff not_None_eq)
    moreover from this have "keys_distinct v" "keys_distinct w"
      using same_object.prems by (auto simp: list_all_iff dest!: map_of_SomeD)
    ultimately show ?thesis using same_object(3) by simp
  qed
  then have "map (entry_text ops) (map (\<lambda>k. (k, the (map_of es k))) (sort (map fst es)))
      = map (entry_text ops) (map (\<lambda>k. (k, the (map_of fs k))) (sort (map fst es)))"
    by (simp add: entry_text_def)
  moreover have "distinct (map fst es)" "distinct (map fst fs)" using same_object.prems by simp_all
  ultimately have "map (entry_text ops) (sort_key fst es) = map (entry_text ops) (sort_key fst fs)"
    by (simp only: sort_key_entries keys)
  then show ?case by (simp only: stringify_entries)
qed simp_all

text \<open>C18.
  The canonical text of a schema is canonical: two documents have the same text, and so the same
  advertised hash input, exactly when they are the same document up to the order of the keys in
  their objects.\<close>

theorem canonical_text_iff:
  assumes "json_laws ops" "keys_distinct v" "keys_distinct w"
  shows "stable_stringify ops v = stable_stringify ops w \<longleftrightarrow> same_json v w"
proof
  assume "stable_stringify ops v = stable_stringify ops w"
  with tells_apartD [OF stringify_apart [OF assms], of "[]" "[]"] show "same_json v w" by simp
qed (simp add: same_json_text assms)

section \<open>A concrete printer\<close>

text \<open>Natural numbers, and strings with quotation marks and backslashes escaped.\<close>

fun escape :: "string \<Rightarrow> string" where
  "escape [] = [CHR 0x22]"
| "escape (c # cs) = (if c = CHR 0x22 \<or> c = CHR 0x5C then CHR 0x5C # c # escape cs else c # escape cs)"

definition plain_json :: "nat json_ops" where
  "plain_json = \<lparr> js_number = show_nat, js_quote = (\<lambda>s. CHR 0x22 # escape s) \<rparr>"

lemma escape_ends: "escape s @ x = escape t @ y \<Longrightarrow> s = t \<and> x = y"
  by (induction s arbitrary: t) (case_tac t; auto split: if_splits)+

lemma digit_char: "digit_of c \<noteq> None \<Longrightarrow> c \<in> set ''0123456789''"
proof -
  assume "digit_of c \<noteq> None"
  then have "48 \<le> (of_char c :: nat) \<and> (of_char c :: nat) < 58" by (auto simp: digit_of_def Let_def split: if_splits)
  then have "of_char c \<in> set [48..<58 :: nat]" by (simp only: set_upt atLeastLessThan_iff)
  moreover have "\<forall>n \<in> set [48..<58 :: nat]. char_of n \<in> set ''0123456789''" by code_simp
  ultimately show ?thesis by (metis char_of_char)
qed

lemma show_nat_inj: "show_nat n = show_nat m \<Longrightarrow> n = m"
  by (metis option.inject unsigned_show)

lemma digit_start:
  assumes "c \<in> set ''0123456789''"
  shows "number_char c" "c \<in> set ''-0123456789''"
proof -
  have "\<forall>c \<in> set ''0123456789''. number_char c \<and> c \<in> set ''-0123456789''" by code_simp
  with assms show "number_char c" "c \<in> set ''-0123456789''" by blast+
qed

lemma plain_json_laws: "json_laws plain_json"
proof -
  have number: "js_number plain_json n = show_nat n" and quote: "js_quote plain_json s = CHR 0x22 # escape s" for n s
    by (simp_all add: plain_json_def)
  have digits: "c \<in> set ''0123456789''" if "c \<in> set (show_nat n)" for c n
    by (rule digit_char [OF show_nat_digits [OF that]])
  have 1: "list_all number_char (show_nat n)" for n
    by (rule list_all_iff [THEN iffD2]) (intro ballI digit_start(1) digits, assumption)
  have 2: "hd (show_nat n) \<in> set ''-0123456789''" for n
    by (rule digit_start(2), rule digits, rule hd_in_set, rule show_nat_not_Nil)
  have 3: "CHR 0x22 # escape s \<noteq> []" "hd (CHR 0x22 # escape s) = CHR 0x22" for s
    by (rule list.simps, rule list.sel)
  have 4: "s = t \<and> x = y" if "(CHR 0x22 # escape s) @ x = (CHR 0x22 # escape t) @ y" for s t x y
    by (rule escape_ends) (use that in \<open>simp only: append_Cons list.inject\<close>)
  show ?thesis
    unfolding json_laws_def number quote
    by (intro conjI allI impI 1 2 3 show_nat_not_Nil) (erule show_nat_inj 4 [THEN conjunct1] 4 [THEN conjunct2])+
qed

lemma canonical_text_iff_witness:
  "stable_stringify plain_json (JObject [(''title'', JString ''T''), (''n'', JNumber 3)])
     = stable_stringify plain_json (JObject [(''n'', JNumber 3), (''title'', JString ''T'')])
   \<and> stable_stringify plain_json (JArray [JNumber 1, JNumber 2]) \<noteq> stable_stringify plain_json (JArray [JNumber 12])"
proof -
  let ?v = "JObject [(''title'', JString ''T''), (''n'', JNumber 3)] :: nat json"
  let ?w = "JObject [(''n'', JNumber 3), (''title'', JString ''T'')] :: nat json"
  have "same_json ?v ?w"
    by (rule same_object) (auto intro: same_json.intros split: if_splits)
  with canonical_text_iff [OF plain_json_laws, of ?v ?w] have "stable_stringify plain_json ?v = stable_stringify plain_json ?w"
    by simp
  moreover have "\<not> same_json (JArray [JNumber 1, JNumber 2]) (JArray [JNumber (12 :: nat)])"
    by (auto elim: same_arrayE)
  with canonical_text_iff [OF plain_json_laws, of "JArray [JNumber 1, JNumber 2]" "JArray [JNumber 12]"]
  have "stable_stringify plain_json (JArray [JNumber 1, JNumber 2]) \<noteq> stable_stringify plain_json (JArray [JNumber 12])"
    by simp
  ultimately show ?thesis by blast
qed

end
