(* ===== verification/SchemaDiscovery.thy ===== *)
theory SchemaDiscovery
  imports Json Contracts Identity
begin

text \<open>
  The schema registry of \<open>src/schema_discovery.rs\<close>: registration with a canonical content hash, lookup,
  the catalogue answer and the built-in schemas. The JSON parser, the printing of JSON scalars and
  SHA-256 are parameters (\<open>schema_ops\<close>); the text of the embedded schema files is an argument.
\<close>

record 'n schema_ops =
  so_printer :: "'n json_ops"
  so_parse :: "string \<Rightarrow> string + 'n json"
  so_digest :: "bytes \<Rightarrow> bytes"

datatype discovery_error =
    SchemaIdEmpty
  | NoContracts
  | SchemaJsonRequired
  | JsonError string
  | MissingId
  | NotACatalogRequest

type_synonym 'a discovery_result = "discovery_error + 'a"

section \<open>The order of the schema kinds\<close>

text \<open>The derived \<open>Ord\<close>: constructors in the order of their declaration.\<close>

fun kind_rank :: "schema_kind \<Rightarrow> nat" where
  "kind_rank WireMessage = 0"
| "kind_rank DocumentPayload = 1"
| "kind_rank SharedContract = 2"

lemma kind_rank_inj [simp]: "kind_rank k = kind_rank l \<longleftrightarrow> k = l"
  by (cases k; cases l) simp_all

instantiation schema_kind :: linorder
begin

definition less_eq_schema_kind :: "schema_kind \<Rightarrow> schema_kind \<Rightarrow> bool" where
  "less_eq_schema_kind k l \<longleftrightarrow> kind_rank k \<le> kind_rank l"

definition less_schema_kind :: "schema_kind \<Rightarrow> schema_kind \<Rightarrow> bool" where
  "less_schema_kind k l \<longleftrightarrow> kind_rank k < kind_rank l"

instance
  by standard (auto simp: less_eq_schema_kind_def less_schema_kind_def intro: antisym)

end

section \<open>The registry\<close>

record schema_registration =
  sr_schema_id :: string
  sr_kind :: schema_kind
  sr_wire_contracts :: "wire_contract list"
  sr_schema_version :: "string option"
  sr_document_type :: "string option"
  sr_title :: "string option"
  sr_schema_json :: "string option"

record catalog_options =
  co_include_schema_json :: bool
  co_schema_ids :: "string list option"
  co_kinds :: "schema_kind list option"

type_synonym schema_registry = "(string, schema_descriptor) btree"

definition canonical_schema_hash :: "'n schema_ops \<Rightarrow> string \<Rightarrow> string discovery_result" where
  "canonical_schema_hash ops schema_json =
     (case so_parse ops schema_json of
        Inl e \<Rightarrow> Err (JsonError e)
      | Inr v \<Rightarrow> Ok (hex (so_digest ops (str_bytes (stable_stringify (so_printer ops) v)))))"

definition descriptor_of :: "schema_registration \<Rightarrow> string \<Rightarrow> schema_descriptor" where
  "descriptor_of r content_hash = \<lparr> sd_schema_id = sr_schema_id r, sd_kind = sr_kind r,
     sd_schema_version = sr_schema_version r, sd_document_type = sr_document_type r, sd_title = sr_title r,
     sd_wire_contracts = sr_wire_contracts r, sd_content_hash = content_hash, sd_schema_json = sr_schema_json r \<rparr>"

definition register_schema ::
  "'n schema_ops \<Rightarrow> schema_registration \<Rightarrow> schema_registry \<Rightarrow> unit discovery_result \<times> schema_registry" where
  "register_schema ops r reg =
     (case (if trim_is_empty (sr_schema_id r) then Err SchemaIdEmpty
            else if sr_wire_contracts r = [] then Err NoContracts
            else case sr_schema_json r of
              Some schema_json \<Rightarrow> canonical_schema_hash ops schema_json
            | None \<Rightarrow> Err SchemaJsonRequired) of
        Inl e \<Rightarrow> (Err e, reg)
      | Inr content_hash \<Rightarrow> (Ok (), bt_insert (sr_schema_id r) (descriptor_of r content_hash) reg))"

definition sanitize_descriptor :: "schema_descriptor \<Rightarrow> bool \<Rightarrow> schema_descriptor" where
  "sanitize_descriptor d include_schema_json =
     (if include_schema_json then d else d\<lparr>sd_schema_json := None\<rparr>)"

definition get_schema :: "schema_registry \<Rightarrow> string \<Rightarrow> bool \<Rightarrow> schema_descriptor option" where
  "get_schema reg schema_id include_schema_json =
     map_option (\<lambda>d. sanitize_descriptor d include_schema_json) (map_of reg schema_id)"

text \<open>Whether the optional list of a request, turned into a set, lets a value pass.\<close>

definition passes :: "'a::linorder list option \<Rightarrow> 'a \<Rightarrow> bool" where
  "passes asked x = (case asked of None \<Rightarrow> True | Some xs \<Rightarrow> bs_member x (bs_of_list xs))"

definition list_schemas :: "schema_registry \<Rightarrow> catalog_options \<Rightarrow> schema_descriptor list" where
  "list_schemas reg opts =
     map (\<lambda>d. sanitize_descriptor d (co_include_schema_json opts))
       (filter (\<lambda>d. passes (co_schema_ids opts) (sd_schema_id d) \<and> passes (co_kinds opts) (sd_kind d))
          (bt_values reg))"

definition create_catalog_response ::
  "schema_registry \<Rightarrow> 'j cultnet_message \<Rightarrow> 'j cultnet_message discovery_result" where
  "create_catalog_response reg request =
     (case request of
        SchemaCatalogRequest message_id include_schema_json schema_ids kinds \<Rightarrow>
          Ok (SchemaCatalogResponse message_id (list_schemas reg
            \<lparr> co_include_schema_json = (case include_schema_json of None \<Rightarrow> False | Some b \<Rightarrow> b),
              co_schema_ids = schema_ids, co_kinds = kinds \<rparr>))
      | _ \<Rightarrow> Err NotACatalogRequest)"

section \<open>The built-in schemas\<close>

text \<open>\<open>value.get(key).and_then(Value::as_str)\<close>.\<close>

definition get_str :: "'n json \<Rightarrow> string \<Rightarrow> string option" where
  "get_str v key =
     (case v of
        JObject es \<Rightarrow> (case map_of es key of Some (JString s) \<Rightarrow> Some s | _ \<Rightarrow> None)
      | _ \<Rightarrow> None)"

definition registration_from_schema ::
  "'n schema_ops \<Rightarrow> string \<Rightarrow> schema_kind \<Rightarrow> wire_contract list \<Rightarrow> string option \<Rightarrow> string option
     \<Rightarrow> schema_registration discovery_result" where
  "registration_from_schema ops schema_json kind wire_contracts schema_version document_type =
     (case so_parse ops schema_json of
        Inl e \<Rightarrow> Err (JsonError e)
      | Inr value \<Rightarrow>
        (case get_str value ''$id'' of
           None \<Rightarrow> Err MissingId
         | Some schema_id \<Rightarrow>
             Ok \<lparr> sr_schema_id = schema_id, sr_kind = kind, sr_wire_contracts = wire_contracts,
                  sr_schema_version = schema_version, sr_document_type = document_type,
                  sr_title = get_str value ''title'', sr_schema_json = Some schema_json \<rparr>))"

text \<open>The rows of the built-in table: file under \<open>contracts/\<close>, kind, contracts, version, type.\<close>

type_synonym builtin_row = "string \<times> schema_kind \<times> wire_contract list \<times> string option \<times> string option"

abbreviation schema_only :: "wire_contract list" where
  "schema_only \<equiv> [CultNetSchemaV0]"

abbreviation both_contracts :: "wire_contract list" where
  "both_contracts \<equiv> [CultNetSchemaV0, GameCultNetworkingV0]"

definition builtin_rows :: "builtin_row list" where
  "builtin_rows =
    [(''cultnet.hello.schema.json'', WireMessage, schema_only, Some ''cultnet.hello.v0'', None),
     (''cultnet.document-mutation-contract.schema.json'', SharedContract, schema_only, None, None),
     (''cultnet.transport-profile.schema.json'', SharedContract, schema_only, Some ''cultnet.transport_profile.v0'', None),
     (''cultnet.login.schema.json'', WireMessage, both_contracts, Some ''cultnet.login.v0'', None),
     (''cultnet.register.schema.json'', WireMessage, both_contracts, Some ''cultnet.register.v0'', None),
     (''cultnet.verify.schema.json'', WireMessage, both_contracts, Some ''cultnet.verify.v0'', None),
     (''cultnet.login-success.schema.json'', WireMessage, both_contracts, Some ''cultnet.login_success.v0'', None),
     (''cultnet.error.schema.json'', WireMessage, both_contracts, Some ''cultnet.error.v0'', None),
     (''cultnet.sample-change-name.schema.json'', WireMessage, both_contracts, Some ''cultnet.sample.change_name.v0'', None),
     (''cultnet.sample-chat.schema.json'', WireMessage, both_contracts, Some ''cultnet.sample.chat.v0'', None),
     (''cultnet.document-put.schema.json'', WireMessage, schema_only, Some ''cultnet.document_put.v0'', None),
     (''cultnet.document-delete.schema.json'', WireMessage, schema_only, Some ''cultnet.document_delete.v0'', None),
     (''cultnet.raw-document-record.schema.json'', SharedContract, schema_only, None, None),
     (''cultnet.document-put-raw.schema.json'', WireMessage, schema_only, Some ''cultnet.document_put_raw.v0'', None),
     (''cultnet.snapshot-request.schema.json'', WireMessage, schema_only, Some ''cultnet.snapshot_request.v0'', None),
     (''cultnet.snapshot-response.schema.json'', WireMessage, schema_only, Some ''cultnet.snapshot_response.v0'', None),
     (''cultnet.snapshot-response-raw.schema.json'', WireMessage, schema_only, Some ''cultnet.snapshot_response_raw.v0'', None),
     (''cultnet.schema-catalog-request.schema.json'', WireMessage, both_contracts, Some ''cultnet.schema_catalog_request.v0'', None),
     (''cultnet.schema-catalog-response.schema.json'', WireMessage, both_contracts, Some ''cultnet.schema_catalog_response.v0'', None),
     (''ghostlight.agent-state.schema.json'', DocumentPayload, schema_only, Some ''ghostlight.agent_state.v0'', Some ''ghostlight.agent-state''),
     (''idunn.deployment-brake.schema.json'', DocumentPayload, schema_only, Some ''idunn.deployment_brake.v1'', Some ''idunn.deployment_brake'')]"

fun register_all ::
  "'n schema_ops \<Rightarrow> schema_registration list \<Rightarrow> schema_registry \<Rightarrow> unit discovery_result \<times> schema_registry" where
  "register_all ops [] reg = (Ok (), reg)"
| "register_all ops (r # rs) reg =
     (case register_schema ops r reg of
        (Inl e, reg1) \<Rightarrow> (Err e, reg1)
      | (Inr _, reg1) \<Rightarrow> register_all ops rs reg1)"

text \<open>The array of registrations is built first, then registered in order.\<close>

definition builtin_schema_registry ::
  "'n schema_ops \<Rightarrow> (string \<Rightarrow> string) \<Rightarrow> schema_registry discovery_result" where
  "builtin_schema_registry ops include_str =
     bind_result (map_result (\<lambda>(name, kind, contracts, version, doc_type).
         registration_from_schema ops (include_str name) kind contracts version doc_type) builtin_rows) (\<lambda>rs.
       (case register_all ops rs [] of
          (Inl e, reg) \<Rightarrow> Err e
        | (Inr _, reg) \<Rightarrow> Ok reg))"

section \<open>What the catalogue says\<close>

definition schema_hash :: "'n schema_ops \<Rightarrow> schema_registration \<Rightarrow> string" where
  "schema_hash ops r = projr (canonical_schema_hash ops (the (sr_schema_json r)))"

text \<open>The last registration of every schema id, in the order of the ids.\<close>

definition last_registration :: "schema_registration list \<Rightarrow> string \<Rightarrow> schema_registration option" where
  "last_registration rs i = List.find (\<lambda>r. sr_schema_id r = i) (rev rs)"

definition last_registrations :: "schema_registration list \<Rightarrow> schema_registration list" where
  "last_registrations rs = map (\<lambda>i. the (last_registration rs i)) (sort (remdups (map sr_schema_id rs)))"

definition advertised :: "'n schema_ops \<Rightarrow> bool \<Rightarrow> schema_registration \<Rightarrow> schema_descriptor" where
  "advertised ops include_schema_json r = \<lparr> sd_schema_id = sr_schema_id r, sd_kind = sr_kind r,
     sd_schema_version = sr_schema_version r, sd_document_type = sr_document_type r, sd_title = sr_title r,
     sd_wire_contracts = sr_wire_contracts r, sd_content_hash = schema_hash ops r,
     sd_schema_json = (if include_schema_json then sr_schema_json r else None) \<rparr>"

definition asked_for :: "string list option \<Rightarrow> schema_kind list option \<Rightarrow> schema_registration \<Rightarrow> bool" where
  "asked_for schema_ids kinds r \<longleftrightarrow>
     (case schema_ids of None \<Rightarrow> True | Some ids \<Rightarrow> sr_schema_id r \<in> set ids)
     \<and> (case kinds of None \<Rightarrow> True | Some ks \<Rightarrow> sr_kind r \<in> set ks)"

lemma passes_iff: "passes asked x \<longleftrightarrow> (case asked of None \<Rightarrow> True | Some xs \<Rightarrow> x \<in> set xs)"
  by (simp add: passes_def split: option.splits)

lemma asked_for_passes: "asked_for sids kinds = (\<lambda>r. passes sids (sr_schema_id r) \<and> passes kinds (sr_kind r))"
  by (simp add: asked_for_def passes_iff fun_eq_iff)

lemma register_schema_ok:
  assumes "register_schema ops r reg = (Inr u, reg1)"
  shows "reg1 = bt_insert (sr_schema_id r) (descriptor_of r (schema_hash ops r)) reg"
    and "named (sr_schema_id r)" "sr_wire_contracts r \<noteq> []" "is_ok (canonical_schema_hash ops (the (sr_schema_json r)))"
  using assms by (auto simp: register_schema_def schema_hash_def named_def split: if_splits option.splits sum.splits)

lemma last_registration_Cons:
  "last_registration (r # rs) i =
     (case last_registration rs i of None \<Rightarrow> if sr_schema_id r = i then Some r else None | Some r' \<Rightarrow> Some r')"
  unfolding last_registration_def by (induction rs rule: rev_induct) auto

lemma last_registrationD:
  assumes "last_registration rs i = Some r"
  shows "r \<in> set rs" "sr_schema_id r = i"
  using assms by (auto simp: last_registration_def find_Some_iff intro: nth_mem [of _ "rev rs", simplified])

lemma last_registration_None: "last_registration rs i = None \<longleftrightarrow> i \<notin> sr_schema_id ` set rs"
  by (auto simp: last_registration_def find_None_iff)

lemma register_all_ok:
  assumes "register_all ops rs reg0 = (Inr u, reg)"
  shows "list_all (\<lambda>r. named (sr_schema_id r) \<and> sr_wire_contracts r \<noteq> []
        \<and> is_ok (canonical_schema_hash ops (the (sr_schema_json r)))) rs
    \<and> (bt_wf reg0 \<longrightarrow> bt_wf reg) \<and> set (bt_keys reg) = sr_schema_id ` set rs \<union> set (bt_keys reg0)
    \<and> (\<forall>i. map_of reg i = (case last_registration rs i of None \<Rightarrow> map_of reg0 i
                              | Some r \<Rightarrow> Some (descriptor_of r (schema_hash ops r))))"
  using assms
proof (induction rs arbitrary: reg0)
  case Nil
  then show ?case by (auto simp: last_registration_def)
next
  case (Cons r rs)
  then obtain reg1 where r: "register_schema ops r reg0 = (Inr (), reg1)" and rs: "register_all ops rs reg1 = (Inr u, reg)"
    by (auto split: prod.splits sum.splits)
  have reg1: "reg1 = bt_insert (sr_schema_id r) (descriptor_of r (schema_hash ops r)) reg0"
    by (rule register_schema_ok(1) [OF r])
  note IH = Cons.IH [OF rs]
  show ?case
  proof (intro conjI)
    show "bt_wf reg0 \<longrightarrow> bt_wf reg" using IH by (simp add: reg1)
    show "set (bt_keys reg) = sr_schema_id ` set (r # rs) \<union> set (bt_keys reg0)"
      using IH unfolding reg1 keys_bt_insert by auto
    show "\<forall>i. map_of reg i = (case last_registration (r # rs) i of None \<Rightarrow> map_of reg0 i
        | Some r \<Rightarrow> Some (descriptor_of r (schema_hash ops r)))"
      using IH by (simp add: last_registration_Cons reg1 split: option.splits)
  qed (use IH register_schema_ok(2-4) [OF r] in simp)
qed

lemma values_by_key:
  assumes "bt_wf m"
  shows "bt_values m = map (\<lambda>k. the (map_of m k)) (bt_keys m)"
  using bt_wf_distinct [OF assms] by (auto simp: comp_def)

lemma registered_values:
  assumes "register_all ops rs [] = (Inr u, reg)"
  shows "bt_values reg = map (\<lambda>r. descriptor_of r (schema_hash ops r)) (last_registrations rs)"
proof -
  note ok = register_all_ok [OF assms]
  then have wf: "bt_wf reg" and keys: "set (bt_keys reg) = sr_schema_id ` set rs" by simp_all
  have "bt_keys reg = sort (remdups (map sr_schema_id rs))"
    using wf keys by (intro sorted_distinct_set_unique) (auto simp: bt_wf_distinct bt_wf_def strict_sorted_iff)
  moreover have "the (map_of reg i) = descriptor_of (the (last_registration rs i)) (schema_hash ops (the (last_registration rs i)))"
    if "i \<in> sr_schema_id ` set rs" for i
    using ok that last_registration_None [of rs i] by (auto split: option.splits)
  ultimately show ?thesis
    unfolding values_by_key [OF wf] by (auto simp: last_registrations_def)
qed

lemma descriptor_fields [simp]:
  "sd_schema_id (descriptor_of r h) = sr_schema_id r" "sd_kind (descriptor_of r h) = sr_kind r"
  "sanitize_descriptor (descriptor_of r (schema_hash ops r)) inc = advertised ops inc r"
  by (simp_all add: descriptor_of_def sanitize_descriptor_def advertised_def)

lemma listed_schemas:
  assumes "register_all ops rs [] = (Inr u, reg)"
  shows "list_schemas reg \<lparr> co_include_schema_json = inc, co_schema_ids = sids, co_kinds = kinds \<rparr>
    = map (advertised ops inc) (filter (asked_for sids kinds) (last_registrations rs))"
  unfolding list_schemas_def registered_values [OF assms]
  by (simp add: filter_map comp_def asked_for_passes)

text \<open>C39.
  The catalogue is exact: after any successful registrations the answer to a request lists, in the
  order of their ids, precisely the asked-for schemas, each as it was registered last, with
  the hash of the canonical text of its document, and with the document itself only on request.\<close>

theorem catalog_exact:
  assumes "register_all ops rs [] = (Ok (), reg)"
  shows "create_catalog_response reg (SchemaCatalogRequest mid inc schema_ids kinds) =
    Ok (SchemaCatalogResponse mid
      (map (advertised ops (inc = Some True)) (filter (asked_for schema_ids kinds) (last_registrations rs))))"
proof -
  have "(case inc of None \<Rightarrow> False | Some b \<Rightarrow> b) = (inc = Some True)"
    by (simp split: option.splits)
  then show ?thesis by (simp add: create_catalog_response_def listed_schemas [OF assms])
qed

lemma hex_digit_visible: "\<not> is_whitespace (of_char (hex_digit d)) \<and> (of_char (hex_digit d) :: nat) < 128" if "unat d < 16"
proof -
  have "\<forall>c \<in> set ''0123456789abcdef''. \<not> is_whitespace (of_char c) \<and> (of_char c :: nat) < 128" by code_simp
  moreover have "hex_digit d \<in> set ''0123456789abcdef''"
    unfolding hex_digit_def using that by (intro nth_mem) simp
  ultimately show ?thesis by blast
qed

lemma named_hex:
  assumes "bs \<noteq> []"
  shows "named (hex bs)"
proof -
  have nibbles: "unat (drop_bit 4 b) < 16" "unat (b AND 15) < 16" for b :: u8
  proof -
    have "unat (drop_bit 4 b) = unat b div 16" by (simp add: drop_bit_eq_div unat_div)
    then show "unat (drop_bit 4 b) < 16" using unat_less_exp [of b] by simp
    have "b AND 15 \<le> 15" by (rule word_and_le1)
    then show "unat (b AND 15) < 16" by (simp add: word_le_nat_alt)
  qed
  have "list_all (\<lambda>c. (of_char c :: nat) < 128) (hex bs)"
    by (auto simp: hex_def list_all_iff hex_digit_visible nibbles)
  moreover obtain b cs where "bs = b # cs" using assms by (cases bs) auto
  ultimately show ?thesis
    using hex_digit_visible [OF nibbles(1)] by (auto simp: named_def trim_is_empty_def code_points_ascii hex_def)
qed

text \<open>The descriptive texts of a registration that an answer carries.\<close>

definition shown_texts :: "bool \<Rightarrow> schema_registration \<Rightarrow> string list" where
  "shown_texts include_schema_json r = opt_strings (sr_schema_version r) @ opt_strings (sr_document_type r)
     @ opt_strings (sr_title r) @ (if include_schema_json then opt_strings (sr_schema_json r) else [])"

lemma last_registrations_in: "r \<in> set (last_registrations rs) \<Longrightarrow> r \<in> set rs"
proof -
  assume "r \<in> set (last_registrations rs)"
  then obtain i where "i \<in> sr_schema_id ` set rs" "r = the (last_registration rs i)"
    by (auto simp: last_registrations_def)
  then show "r \<in> set rs"
    using last_registration_None [of rs i] last_registrationD(1) [of rs i] by auto
qed

lemma advertised_valid:
  assumes "named (sr_schema_id r)" "sr_wire_contracts r \<noteq> []"
    and "is_ok (canonical_schema_hash ops (the (sr_schema_json r)))" "\<And>x. so_digest ops x \<noteq> []"
  shows "validate_schema_descriptor (advertised ops inc r) = Inr () \<longleftrightarrow> list_all named (shown_texts inc r)"
proof -
  have "named (schema_hash ops r)"
    using assms(3,4) named_hex by (auto simp: schema_hash_def canonical_schema_hash_def split: sum.splits)
  with assms(1,2) show ?thesis
    by (auto simp: validate_parts_ok descriptor_strings_def advertised_def shown_texts_def)
qed

lemma listed_valid:
  assumes reg: "register_all ops rs [] = (Inr u, reg)" and digest: "\<And>x. so_digest ops x \<noteq> []"
  shows "validate_message (SchemaCatalogResponse mid (map (advertised ops inc) (filter P (last_registrations rs)))) = Inr ()
    \<longleftrightarrow> named mid \<and> list_all (\<lambda>r. list_all named (shown_texts inc r)) (filter P (last_registrations rs))"
proof -
  have "validate_schema_descriptor (advertised ops inc r) = Inr () \<longleftrightarrow> list_all named (shown_texts inc r)"
    if "r \<in> set (last_registrations rs)" for r
  proof -
    from last_registrations_in [OF that] register_all_ok [OF reg]
    have "named (sr_schema_id r)" "sr_wire_contracts r \<noteq> []"
      "is_ok (canonical_schema_hash ops (the (sr_schema_json r)))" by (simp_all add: list_all_iff)
    then show ?thesis by (rule advertised_valid) (rule digest)
  qed
  then show ?thesis by (auto simp: check_all_map_ok list_all_iff)
qed

text \<open>
  An answer can be sent exactly when no asked-for schema was registered with a blank version,
  document type or title (or text, when it is included): registration accepts such schemas, and then
  one of them makes every answer that lists it invalid as a whole.\<close>

theorem catalog_sendable_iff:
  assumes "register_all ops rs [] = (Ok (), reg)" and "\<And>x. so_digest ops x \<noteq> []"
    and "create_catalog_response reg (SchemaCatalogRequest mid inc schema_ids kinds) = Ok response"
  shows "validate_message response = Ok () \<longleftrightarrow>
    named mid \<and> list_all (\<lambda>r. list_all named (shown_texts (inc = Some True) r))
      (filter (asked_for schema_ids kinds) (last_registrations rs))"
proof -
  have "(case inc of None \<Rightarrow> False | Some b \<Rightarrow> b) = (inc = Some True)"
    by (simp split: option.splits)
  then have "response = SchemaCatalogResponse mid
      (map (advertised ops (inc = Some True)) (filter (asked_for schema_ids kinds) (last_registrations rs)))"
    using assms(3) by (simp add: create_catalog_response_def listed_schemas [OF assms(1)])
  then show ?thesis using listed_valid [OF assms(1,2)] by simp
qed

section \<open>The built-in registry\<close>

text \<open>The registration a file and a row give when the file is a schema with an id.\<close>

definition row_registration :: "'n schema_ops \<Rightarrow> (string \<Rightarrow> string) \<Rightarrow> builtin_row \<Rightarrow> schema_registration" where
  "row_registration ops include_str row =
     (case row of (name, kind, contracts, version, doc_type) \<Rightarrow>
        projr (registration_from_schema ops (include_str name) kind contracts version doc_type))"

definition proper_schema :: "'n schema_ops \<Rightarrow> string \<Rightarrow> bool" where
  "proper_schema ops schema_json =
     (case so_parse ops schema_json of
        Inl e \<Rightarrow> False
      | Inr v \<Rightarrow> (case get_str v ''$id'' of None \<Rightarrow> False | Some i \<Rightarrow> named i))"

lemma schema_registration_proper:
  assumes "proper_schema ops j"
  obtains r where "registration_from_schema ops j kind contracts version doc_type = Inr r"
    "named (sr_schema_id r)" "sr_wire_contracts r = contracts" "sr_schema_json r = Some j" "sr_kind r = kind"
    "is_ok (canonical_schema_hash ops j)" "sr_schema_version r = version" "sr_document_type r = doc_type"
  using assms by (auto simp: proper_schema_def registration_from_schema_def canonical_schema_hash_def split: sum.splits option.splits)

lemma register_schema_proper:
  assumes "named (sr_schema_id r)" "sr_wire_contracts r \<noteq> []" "sr_schema_json r = Some j" "is_ok (canonical_schema_hash ops j)"
  shows "\<exists>reg1. register_schema ops r reg = (Inr (), reg1)"
  using assms by (auto simp: register_schema_def named_def is_ok_iff)

lemma register_all_proper:
  "list_all (\<lambda>r. \<forall>reg. \<exists>reg1. register_schema ops r reg = (Inr (), reg1)) rs
    \<Longrightarrow> \<exists>reg1. register_all ops rs reg = (Inr (), reg1)"
  by (induction rs arbitrary: reg) (auto split: prod.splits sum.splits, metis Pair_inject sum.distinct(1))

lemma builtin_rows_contracts: "list_all (\<lambda>(name, kind, contracts, version, doc_type). contracts \<noteq> []) builtin_rows"
  by (simp add: builtin_rows_def)

text \<open>
  The built-in registry can be built whenever every embedded file parses to a schema with a
  non-blank id, and is then the registry of one registration per file of the table, in its order.\<close>

theorem builtin_registry_complete:
  assumes "list_all (\<lambda>(name, _). proper_schema ops (include_str name)) builtin_rows"
  shows "\<exists>reg. builtin_schema_registry ops include_str = Ok reg
    \<and> register_all ops (map (row_registration ops include_str) builtin_rows) [] = (Ok (), reg)"
proof -
  have row: "(case row of (name, kind, contracts, version, doc_type) \<Rightarrow>
        registration_from_schema ops (include_str name) kind contracts version doc_type) = Inr (row_registration ops include_str row)
      \<and> (\<forall>reg. \<exists>reg1. register_schema ops (row_registration ops include_str row) reg = (Inr (), reg1))"
    if "row \<in> set builtin_rows" for row
  proof -
    obtain name kind contracts version doc_type where row: "row = (name, kind, contracts, version, doc_type)" by (cases row)
    have "proper_schema ops (include_str name)" "contracts \<noteq> []"
      using assms builtin_rows_contracts that by (auto simp: list_all_iff row)
    then show ?thesis
      using register_schema_proper
      by (elim schema_registration_proper [of ops "include_str name" kind contracts version doc_type])
         (auto simp: row row_registration_def)
  qed
  then have regs: "map_result (\<lambda>(name, kind, contracts, version, doc_type).
      registration_from_schema ops (include_str name) kind contracts version doc_type) builtin_rows
      = Inr (map (row_registration ops include_str) builtin_rows)"
    by (intro map_result_all_ok) blast
  obtain reg where "register_all ops (map (row_registration ops include_str) builtin_rows) [] = (Inr (), reg)"
    using register_all_proper [of ops "map (row_registration ops include_str) builtin_rows" "[]"] row
    by (auto simp: list_all_iff)
  with regs show ?thesis by (simp add: builtin_schema_registry_def)
qed

section \<open>A concrete registry\<close>

text \<open>A parser that reads a non-empty text as a schema with the text as its id.\<close>

definition sample_schema_ops :: "nat schema_ops" where
  "sample_schema_ops = \<lparr> so_printer = plain_json,
     so_parse = (\<lambda>s. if s = [] then Inl ''eof'' else Inr (JObject [(''$id'', JString s)])), so_digest = (\<lambda>bs. 0 # bs) \<rparr>"

definition sample_schema :: "string \<Rightarrow> string \<Rightarrow> schema_registration" where
  "sample_schema i title = \<lparr> sr_schema_id = i, sr_kind = WireMessage, sr_wire_contracts = [CultNetSchemaV0],
     sr_schema_version = None, sr_document_type = None, sr_title = Some title, sr_schema_json = Some ''j'' \<rparr>"

definition sample_schemas :: "schema_registration list" where
  "sample_schemas = [sample_schema ''b'' ''old'', sample_schema ''a'' ''T'', sample_schema ''b'' '' '']"

lemma sample_registered:
  "\<exists>reg. register_all sample_schema_ops sample_schemas [] = (Ok (), reg)"
  by (rule register_all_proper)
     (simp add: sample_schemas_def sample_schema_def register_schema_def canonical_schema_hash_def
        sample_schema_ops_def trim_is_empty_def code_points_ascii is_whitespace_def)

lemma sample_last: "last_registrations sample_schemas = [sample_schema ''a'' ''T'', sample_schema ''b'' '' '']"
  by code_simp

lemma catalog_exact_witness:
  "\<exists>reg. register_all sample_schema_ops sample_schemas [] = (Ok (), reg)
    \<and> create_catalog_response reg (SchemaCatalogRequest ''m'' None None None :: unit cultnet_message) =
        Ok (SchemaCatalogResponse ''m'' [advertised sample_schema_ops False (sample_schema ''a'' ''T''),
          advertised sample_schema_ops False (sample_schema ''b'' '' '')])"
proof -
  obtain reg where reg: "register_all sample_schema_ops sample_schemas [] = (Ok (), reg)"
    using sample_registered ..
  from catalog_exact [OF this, of "''m''" None None None] reg show ?thesis
    by (auto simp: sample_last asked_for_def)
qed

lemma catalog_sendable_iff_witness:
  "\<exists>reg. register_all sample_schema_ops sample_schemas [] = (Ok (), reg)
    \<and> validate_message (SchemaCatalogResponse ''m'' (list_schemas reg
          \<lparr> co_include_schema_json = False, co_schema_ids = None, co_kinds = None \<rparr>) :: unit cultnet_message) \<noteq> Ok ()
    \<and> validate_message (SchemaCatalogResponse ''m'' (list_schemas reg
          \<lparr> co_include_schema_json = False, co_schema_ids = Some [''a''], co_kinds = None \<rparr>) :: unit cultnet_message) = Ok ()"
proof -
  obtain reg where reg: "register_all sample_schema_ops sample_schemas [] = (Ok (), reg)"
    using sample_registered ..
  have digest: "so_digest sample_schema_ops x \<noteq> []" for x by (simp add: sample_schema_ops_def)
  have texts: "\<not> list_all named (shown_texts False (sample_schema ''b'' '' ''))"
    "list_all named (shown_texts False (sample_schema ''a'' ''T''))" "named ''m''"
    "asked_for (Some [''a'']) None (sample_schema ''a'' ''T'')" "\<not> asked_for (Some [''a'']) None (sample_schema ''b'' '' '')"
    by code_simp+
  note sendable = catalog_sendable_iff [OF reg digest, of "''m''" None _ None, unfolded create_catalog_response_def, simplified, OF refl]
  have "validate_message (SchemaCatalogResponse ''m'' (list_schemas reg
          \<lparr> co_include_schema_json = False, co_schema_ids = None, co_kinds = None \<rparr>) :: unit cultnet_message) \<noteq> Ok ()"
    unfolding sendable by (simp add: sample_last asked_for_def texts)
  moreover have "validate_message (SchemaCatalogResponse ''m'' (list_schemas reg
          \<lparr> co_include_schema_json = False, co_schema_ids = Some [''a''], co_kinds = None \<rparr>) :: unit cultnet_message) = Ok ()"
    unfolding sendable by (simp add: sample_last texts)
  ultimately show ?thesis using reg by blast
qed

lemma builtin_registry_complete_witness:
  "\<exists>reg. builtin_schema_registry sample_schema_ops id = Ok reg
    \<and> register_all sample_schema_ops (map (row_registration sample_schema_ops id) builtin_rows) [] = (Ok (), reg)"
proof (rule builtin_registry_complete)
  show "list_all (\<lambda>(name, _). proper_schema sample_schema_ops (id name)) builtin_rows"
    by code_simp
qed

end
