(* ===== verification/Peer.thy ===== *)
theory Peer
  imports Transport SnapshotQuery SchemaDiscovery
begin

text \<open>
  The peer of \<open>examples/cultnet_interop_peer.rs\<close>, the program that puts the crate together: its
  documents, the server side of a connection (\<open>handle_connection\<close>), and the dialling side. Both sides
  are written over a channel of messages (\<open>chan\<close>), of which \<open>stream_chan\<close> is the one of the
  program: encoding, framing and a TCP stream. The cache with its typed access, the document
  types and the clock are parameters (\<open>peer_ops\<close>); one connection is modelled, so the cache changes
  only under its own requests.
\<close>

section \<open>Documents and configuration\<close>

definition INTEROP_DOCUMENT_TYPE :: string where "INTEROP_DOCUMENT_TYPE = ''cultnet.interop-note''"
definition INTEROP_SCHEMA_VERSION :: string where "INTEROP_SCHEMA_VERSION = ''cultnet.interop_note.v0''"
definition MUTATION_INTENT_TYPE :: string where "MUTATION_INTENT_TYPE = ''cultnet.interop-note-mutation-intent''"
definition MUTATION_INTENT_SCHEMA_ID :: string where
  "MUTATION_INTENT_SCHEMA_ID = ''https://github.com/GameCult/cultnet-ts/integration/contracts/cultnet.interop-note-mutation-intent.schema.json''"
definition MUTATION_INTENT_SCHEMA_VERSION :: string where
  "MUTATION_INTENT_SCHEMA_VERSION = ''cultnet.interop_note_mutation_intent.v0''"
definition MUTATION_RECEIPT_TYPE :: string where "MUTATION_RECEIPT_TYPE = ''cultnet.interop-note-mutation-receipt''"
definition MUTATION_RECEIPT_SCHEMA_ID :: string where
  "MUTATION_RECEIPT_SCHEMA_ID = ''https://github.com/GameCult/cultnet-ts/integration/contracts/cultnet.interop-note-mutation-receipt.schema.json''"
definition MUTATION_RECEIPT_SCHEMA_VERSION :: string where
  "MUTATION_RECEIPT_SCHEMA_VERSION = ''cultnet.interop_note_mutation_receipt.v0''"
definition FIRE_COMMAND_TYPE :: string where "FIRE_COMMAND_TYPE = ''cultnet.interop-fire-weapon-command''"
definition FIRE_COMMAND_SCHEMA_ID :: string where
  "FIRE_COMMAND_SCHEMA_ID = ''https://github.com/GameCult/cultnet-ts/integration/contracts/cultnet.interop-fire-weapon-command.schema.json''"
definition FIRE_COMMAND_SCHEMA_VERSION :: string where
  "FIRE_COMMAND_SCHEMA_VERSION = ''cultnet.interop_fire_weapon_command.v0''"
definition FIRE_RECEIPT_TYPE :: string where "FIRE_RECEIPT_TYPE = ''cultnet.interop-fire-weapon-receipt''"
definition FIRE_RECEIPT_SCHEMA_ID :: string where
  "FIRE_RECEIPT_SCHEMA_ID = ''https://github.com/GameCult/cultnet-ts/integration/contracts/cultnet.interop-fire-weapon-receipt.schema.json''"
definition FIRE_RECEIPT_SCHEMA_VERSION :: string where
  "FIRE_RECEIPT_SCHEMA_VERSION = ''cultnet.interop_fire_weapon_receipt.v0''"

record interop_note =
  in_schema_version :: string
  in_document_id :: string
  in_author_runtime_id :: string
  in_title :: string
  in_body :: string
  in_tags :: "string list"

record mutation_intent =
  mi_schema_version :: string
  mi_intent_id :: string
  mi_target_document_id :: string
  mi_append_body :: string
  mi_append_tag :: string

record mutation_receipt =
  mr_schema_version :: string
  mr_intent_id :: string
  mr_accepted :: bool
  mr_document_id :: string
  mr_body :: string
  mr_tags :: "string list"

record fire_command =
  fc_schema_version :: string
  fc_command_id :: string
  fc_character_id :: string
  fc_weapon_id :: string

record fire_receipt =
  fr_schema_version :: string
  fr_command_id :: string
  fr_accepted :: bool
  fr_character_id :: string
  fr_weapon_id :: string
  fr_shots_fired :: u32
  fr_ammo_remaining :: u32

record peer_config =
  pc_runtime_id :: string
  pc_runtime_kind :: string
  pc_display_name :: string
  pc_agent_id :: string
  pc_bind_host :: string
  pc_advertise_host :: string
  pc_tcp_port :: u16
  pc_discovery_port :: u16
  pc_discovery_group :: "u8 list"
  pc_schema_path :: string

record dial_config =
  dc_runtime_id :: string
  dc_runtime_kind :: string
  dc_display_name :: string
  dc_agent_id :: string
  dc_target_host :: string
  dc_target_port :: u16
  dc_schema_path :: string

definition build_note :: "string \<Rightarrow> string \<Rightarrow> interop_note" where
  "build_note runtime_id display_name = \<lparr>
     in_schema_version = INTEROP_SCHEMA_VERSION,
     in_document_id = ''note:'' @ runtime_id,
     in_author_runtime_id = runtime_id,
     in_title = display_name @ '' keeps a little note'',
     in_body = runtime_id @ '' can move CultNet state without begging the gods for translation.'',
     in_tags = [runtime_id, ''interop'', ''cultnet''] \<rparr>"

definition interaction_contracts :: "mutation_contract list" where
  "interaction_contracts = [\<lparr>
     mc_document_type = INTEROP_DOCUMENT_TYPE,
     mc_payload_schema_version = Some INTEROP_SCHEMA_VERSION,
     mc_operations = [Snapshot, DocumentPutOp, IntentSubmit, ReceiptWatch],
     mc_authority = Runtime,
     mc_intent_document_types = Some [MUTATION_INTENT_TYPE, FIRE_COMMAND_TYPE],
     mc_receipt_document_types = Some [MUTATION_RECEIPT_TYPE, FIRE_RECEIPT_TYPE],
     mc_notes = None \<rparr>]"

definition response_options :: "peer_config \<Rightarrow> string \<Rightarrow> put_options" where
  "response_options config tag = \<lparr> po_stored_at = None, po_source_runtime_id = Some (pc_runtime_id config),
     po_source_agent_id = Some (pc_agent_id config), po_source_role = Some ''peer'',
     po_tags = Some [tag, pc_runtime_id config] \<rparr>"

definition no_put_options :: put_options where
  "no_put_options = \<lparr> po_stored_at = None, po_source_runtime_id = None, po_source_agent_id = None,
     po_source_role = None, po_tags = None \<rparr>"

definition register_capability_bindings :: "string \<Rightarrow> document_registry \<Rightarrow> document_registry" where
  "register_capability_bindings note_schema_id reg =
     register_binding (binding_for_entry_with_schema_id FIRE_RECEIPT_TYPE FIRE_RECEIPT_SCHEMA_ID (Some FIRE_RECEIPT_SCHEMA_VERSION))
     (register_binding (binding_for_entry_with_schema_id FIRE_COMMAND_TYPE FIRE_COMMAND_SCHEMA_ID (Some FIRE_COMMAND_SCHEMA_VERSION))
     (register_binding (binding_for_entry_with_schema_id MUTATION_RECEIPT_TYPE MUTATION_RECEIPT_SCHEMA_ID (Some MUTATION_RECEIPT_SCHEMA_VERSION))
     (register_binding (binding_for_entry_with_schema_id MUTATION_INTENT_TYPE MUTATION_INTENT_SCHEMA_ID (Some MUTATION_INTENT_SCHEMA_VERSION))
     (register_binding (binding_for_entry_with_schema_id INTEROP_DOCUMENT_TYPE note_schema_id (Some INTEROP_SCHEMA_VERSION)) reg))))"

section \<open>Messages over a stream\<close>

datatype peer_error =
    PeerContract contract_error
  | PeerFrame frame_error
  | PeerIo string
  | PeerReplication replication_error
  | PeerQuery query_error
  | PeerDiscovery discovery_error
  | PeerCache string
  | PeerFile string
  | UnexpectedReply
  | NoNoteFrom string
  | WrongSchema
  | MissingArgument string
  | BadArgument string
  | NoMode
  | UnknownMode string

type_synonym ('s, 'a) step = "'s \<Rightarrow> (peer_error + 'a) \<times> 's"

text \<open>\<open>?\<close>: an error ends the function, with the state as it is.\<close>

definition and_then :: "('s, 'a) step \<Rightarrow> ('a \<Rightarrow> ('s, 'b) step) \<Rightarrow> ('s, 'b) step" where
  "and_then m f s = (case m s of (Inl e, s1) \<Rightarrow> (Err e, s1) | (Inr a, s1) \<Rightarrow> f a s1)"

definition pure :: "peer_error + 'a \<Rightarrow> ('s, 'a) step" where
  "pure r s = (r, s)"

definition raise :: "('e \<Rightarrow> peer_error) \<Rightarrow> 'e + 'a \<Rightarrow> peer_error + 'a" where
  "raise wrap r = (case r of Inl e \<Rightarrow> Err (wrap e) | Inr a \<Rightarrow> Ok a)"

lemma and_then_Inr:
  "and_then m f s = (Inr b, s2) \<longleftrightarrow> (\<exists>a s1. m s = (Inr a, s1) \<and> f a s1 = (Inr b, s2))"
  by (auto simp: and_then_def split: prod.splits sum.splits)

lemma and_then_ok [simp]: "m s = (Inr a, s1) \<Longrightarrow> and_then m f s = f a s1"
  by (simp add: and_then_def)

lemma raise_simps [simp]: "raise wrap (Inr a) = Inr a" "raise wrap (Inl e) = Inl (wrap e)"
  by (simp_all add: raise_def)

lemma raise_Inr [simp]: "raise wrap r = Inr a \<longleftrightarrow> r = Inr a"
  by (simp add: raise_def split: sum.splits)

lemma raise_step_Inr [simp]: "map_prod (raise wrap) id x = (Inr a, s) \<longleftrightarrow> x = (Inr a, s)"
  by (cases x) simp

lemma pure_Inr [simp]: "pure r s = (Inr a, s1) \<longleftrightarrow> r = Inr a \<and> s1 = s"
  by (auto simp: pure_def)

text \<open>A channel of messages with its state \<open>'k\<close>.\<close>

record ('k, 'j) chan =
  ch_send :: "'j cultnet_message \<Rightarrow> ('k, unit) step"
  ch_read :: "('k, 'j cultnet_message) step"

definition send_message ::
  "'v wire_ops \<Rightarrow> ('v, 'j) serde_ops \<Rightarrow> 's stream_ops \<Rightarrow> 'j cultnet_message \<Rightarrow> ('s, unit) step" where
  "send_message w sd ops message =
     and_then (pure (raise PeerContract (encode_cultnet_message_to_vec w sd message CultNetSchemaV0))) (\<lambda>payload.
     and_then (pure (raise PeerFrame (encode_frame payload))) (\<lambda>frame.
     and_then (\<lambda>st. map_prod (raise PeerIo) id (s_write_all ops frame st)) (\<lambda>_.
       (\<lambda>st. map_prod (raise PeerIo) id (s_flush ops st)))))"

definition read_message ::
  "'v wire_ops \<Rightarrow> ('v, 'j) serde_ops \<Rightarrow> 's stream_ops \<Rightarrow> ('s, 'j cultnet_message) step" where
  "read_message w sd ops =
     and_then (\<lambda>st. map_prod (raise PeerIo) id (s_read_exact ops 4 st)) (\<lambda>header.
     let payload_len = unat (u32_from_be header) in
     and_then (\<lambda>st. map_prod (raise PeerIo) id (s_read_exact ops payload_len st)) (\<lambda>payload.
       pure (raise PeerContract (decode_cultnet_message_from_slice w sd payload CultNetSchemaV0))))"

definition stream_chan :: "'v wire_ops \<Rightarrow> ('v, 'j) serde_ops \<Rightarrow> 's stream_ops \<Rightarrow> ('s, 'j) chan" where
  "stream_chan w sd ops = \<lparr> ch_send = send_message w sd ops, ch_read = read_message w sd ops \<rparr>"

text \<open>
  \<open>is_eof_like\<close>: an error of the stream itself whose kind is \<open>UnexpectedEof\<close>; \<open>eof\<close> tells that kind from
  the error. Errors of the decoder are never of this type.
\<close>

definition is_eof_like :: "(string \<Rightarrow> bool) \<Rightarrow> peer_error \<Rightarrow> bool" where
  "is_eof_like eof e = (case e of PeerIo io \<Rightarrow> eof io | _ \<Rightarrow> False)"

section \<open>The server side of a connection\<close>

text \<open>The document types, the typed access to the cache, and the clock.\<close>

record ('c, 'j) peer_ops =
  po_note :: "(interop_note, 'j) type_ops"
  po_intent :: "(mutation_intent, 'j) type_ops"
  po_receipt :: "(mutation_receipt, 'j) type_ops"
  po_command :: "(fire_command, 'j) type_ops"
  po_shot :: "(fire_receipt, 'j) type_ops"
  note_cache :: "('c, interop_note) cache_ops"
  intent_cache :: "('c, mutation_intent) cache_ops"
  receipt_cache :: "('c, mutation_receipt) cache_ops"
  command_cache :: "('c, fire_command) cache_ops"
  shot_cache :: "('c, fire_receipt) cache_ops"
  get_note :: "string \<Rightarrow> 'c \<Rightarrow> string + interop_note"
  now_text :: string

text \<open>What one end of a connection can change: its channel and its cache.\<close>

record ('k, 'c) endpoint =
  ep_chan :: 'k
  ep_cache :: 'c

definition on_chan :: "('k, 'a) step \<Rightarrow> (('k, 'c) endpoint, 'a) step" where
  "on_chan m w = (case m (ep_chan w) of (r, k) \<Rightarrow> (r, w\<lparr>ep_chan := k\<rparr>))"

definition on_cache :: "('e \<Rightarrow> peer_error) \<Rightarrow> ('c \<Rightarrow> ('e + 'a) \<times> 'c) \<Rightarrow> (('k, 'c) endpoint, 'a) step" where
  "on_cache wrap m w = (case m (ep_cache w) of (r, c) \<Rightarrow> (raise wrap r, w\<lparr>ep_cache := c\<rparr>))"

definition look :: "('c \<Rightarrow> peer_error + 'a) \<Rightarrow> (('k, 'c) endpoint, 'a) step" where
  "look f w = (f (ep_cache w), w)"

definition send_to :: "('k, 'j) chan \<Rightarrow> 'j cultnet_message \<Rightarrow> (('k, 'c) endpoint, unit) step" where
  "send_to ch message = on_chan (ch_send ch message)"

definition hello_reply :: "peer_config \<Rightarrow> 'j cultnet_message" where
  "hello_reply config = Hello \<lparr>
     h_runtime_id = pc_runtime_id config, h_runtime_kind = pc_runtime_kind config,
     h_agent_id = Some (pc_agent_id config), h_role = None, h_display_name = Some (pc_display_name config),
     h_supported_document_types = Some [INTEROP_DOCUMENT_TYPE],
     h_supported_mutation_contracts = Some interaction_contracts,
     h_supported_message_versions = Some [INTEROP_SCHEMA_VERSION],
     h_transport_profiles = None, h_supports_schema_catalog = Some True \<rparr>"

text \<open>The records of the cache, marked as this peer's, and a policy that allows each of them.\<close>

fun snapshot_records ::
  "peer_config \<Rightarrow> document_registry \<Rightarrow> envelope list \<Rightarrow> snapshot_policy
     \<Rightarrow> peer_error + (raw_document_record list \<times> snapshot_policy)" where
  "snapshot_records config reg [] policy = Ok ([], policy)"
| "snapshot_records config reg (e # es) policy =
     bind_result (raise PeerReplication (raw_document_record_from_envelope reg e)) (\<lambda>r.
     let record1 = r\<lparr> rd_source_runtime_id := Some (pc_runtime_id config), rd_source_agent_id := Some (pc_agent_id config),
           rd_source_role := Some ''peer'', rd_tags := Some [''interop'', pc_runtime_id config] \<rparr> in
     case policy_allow (rd_schema_id record1) (rd_record_key record1) policy of
       (Inl e, policy1) \<Rightarrow> Err (PeerQuery e)
     | (Inr _, policy1) \<Rightarrow>
         bind_result (snapshot_records config reg es policy1) (\<lambda>(records, policy2).
           Ok (record1 # records, policy2)))"

definition serve_snapshot ::
  "peer_config \<Rightarrow> document_registry \<Rightarrow> envelope list \<Rightarrow> 'j cultnet_message \<Rightarrow> peer_error + 'j cultnet_message" where
  "serve_snapshot config reg envelopes request =
     bind_result (snapshot_records config reg envelopes policy_new) (\<lambda>(source, policy).
       raise PeerQuery (serve_read_only_raw_snapshot reg policy (Inr source) request))"

definition decorated :: "mutation_intent \<Rightarrow> interop_note \<Rightarrow> interop_note" where
  "decorated intent n = n\<lparr>in_body := in_body n @ mi_append_body intent, in_tags := in_tags n @ [mi_append_tag intent]\<rparr>"

definition receipt_for :: "mutation_intent \<Rightarrow> interop_note \<Rightarrow> mutation_receipt" where
  "receipt_for intent n = \<lparr> mr_schema_version = MUTATION_RECEIPT_SCHEMA_VERSION, mr_intent_id = mi_intent_id intent,
     mr_accepted = True, mr_document_id = in_document_id n, mr_body = in_body n, mr_tags = in_tags n \<rparr>"

definition handle_intent ::
  "('c, 'j) peer_ops \<Rightarrow> ('k, 'j) chan \<Rightarrow> peer_config \<Rightarrow> document_registry \<Rightarrow> 'j cultnet_message
     \<Rightarrow> (('k, 'c) endpoint, unit) step" where
  "handle_intent ops ch config reg message =
     and_then (on_cache PeerReplication (apply_raw_document_put_message (po_intent ops) (intent_cache ops) reg message)) (\<lambda>intent.
     and_then (look (\<lambda>c. raise PeerCache (get_note ops (mi_target_document_id intent) c))) (\<lambda>old.
     let n = decorated intent old; receipt = receipt_for intent n; opts = response_options config ''mutation'' in
     and_then (on_cache PeerCache (c_put (note_cache ops) (in_document_id n) n)) (\<lambda>_.
     and_then (pure (raise PeerReplication (create_raw_document_put_message (po_receipt ops) (now_text ops) reg
         (pc_runtime_id config @ ''-mutation-receipt'') (mr_intent_id receipt) receipt opts))) (\<lambda>receipt_message.
     and_then (pure (raise PeerReplication (create_raw_document_put_message (po_note ops) (now_text ops) reg
         (pc_runtime_id config @ ''-mutated-note'') (in_document_id n) n opts))) (\<lambda>note_message.
     and_then (send_to ch receipt_message) (\<lambda>_. send_to ch note_message))))))"

definition shot_for :: "fire_command \<Rightarrow> fire_receipt" where
  "shot_for command = \<lparr> fr_schema_version = FIRE_RECEIPT_SCHEMA_VERSION, fr_command_id = fc_command_id command,
     fr_accepted = True, fr_character_id = fc_character_id command, fr_weapon_id = fc_weapon_id command,
     fr_shots_fired = 1, fr_ammo_remaining = 29 \<rparr>"

definition handle_fire ::
  "('c, 'j) peer_ops \<Rightarrow> ('k, 'j) chan \<Rightarrow> peer_config \<Rightarrow> document_registry \<Rightarrow> 'j cultnet_message
     \<Rightarrow> (('k, 'c) endpoint, unit) step" where
  "handle_fire ops ch config reg message =
     and_then (on_cache PeerReplication (apply_raw_document_put_message (po_command ops) (command_cache ops) reg message)) (\<lambda>command.
     let receipt = shot_for command in
     and_then (pure (raise PeerReplication (create_raw_document_put_message (po_shot ops) (now_text ops) reg
         (pc_runtime_id config @ ''-fire-receipt'') (fr_command_id receipt) receipt (response_options config ''side-effect''))))
       (send_to ch))"

definition handle_raw_put ::
  "('c, 'j) peer_ops \<Rightarrow> ('k, 'j) chan \<Rightarrow> peer_config \<Rightarrow> document_registry \<Rightarrow> 'j cultnet_message
     \<Rightarrow> (('k, 'c) endpoint, unit) step" where
  "handle_raw_put ops ch config reg message =
     (case message of
        DocumentPutRaw message_id document \<Rightarrow>
          if rd_schema_id document = MUTATION_INTENT_SCHEMA_ID then handle_intent ops ch config reg message
          else if rd_schema_id document = FIRE_COMMAND_SCHEMA_ID then handle_fire ops ch config reg message
          else pure (Ok ())
      | _ \<Rightarrow> pure (Ok ()))"

definition handle_message ::
  "('c, 'j) peer_ops \<Rightarrow> ('k, 'j) chan \<Rightarrow> peer_config \<Rightarrow> document_registry \<Rightarrow> schema_registry
     \<Rightarrow> 'j cultnet_message \<Rightarrow> (('k, 'c) endpoint, unit) step" where
  "handle_message ops ch config reg schemas message =
     (case message of
        Hello h \<Rightarrow> send_to ch (hello_reply config)
      | SchemaCatalogRequest _ _ _ _ \<Rightarrow>
          and_then (pure (raise PeerDiscovery (create_catalog_response schemas message))) (send_to ch)
      | SnapshotRequest _ _ _ \<Rightarrow>
          and_then (look (\<lambda>c. serve_snapshot config reg (c_snapshot (note_cache ops) c) message)) (send_to ch)
      | DocumentPutRaw _ _ \<Rightarrow> handle_raw_put ops ch config reg message
      | _ \<Rightarrow> pure (Ok ()))"

text \<open>
  The loop of a connection. It ends when a read or a handler fails; \<open>None\<close> would be a connection
  that is served for ever.
\<close>

partial_function (option) handle_connection ::
  "(string \<Rightarrow> bool) \<Rightarrow> ('c, 'j) peer_ops \<Rightarrow> ('k, 'j) chan \<Rightarrow> peer_config \<Rightarrow> document_registry \<Rightarrow> schema_registry
     \<Rightarrow> ('k, 'c) endpoint \<Rightarrow> ((peer_error + unit) \<times> ('k, 'c) endpoint) option" where
  "handle_connection eof ops ch config reg schemas w =
     (case on_chan (ch_read ch) w of
        (Inl e, w1) \<Rightarrow> Some (if is_eof_like eof e then Ok () else Err e, w1)
      | (Inr message, w1) \<Rightarrow>
        (case handle_message ops ch config reg schemas message w1 of
           (Inl e, w2) \<Rightarrow> Some (Err e, w2)
         | (Inr _, w2) \<Rightarrow> handle_connection eof ops ch config reg schemas w2))"

section \<open>The dialling side\<close>

record dial_report =
  dl_remote_runtime_id :: string
  dl_has_interop_schema :: bool
  dl_retrieved_note :: interop_note
  dl_mutated_note :: interop_note
  dl_fire_receipt :: fire_receipt

definition dial_hello :: "dial_config \<Rightarrow> 'j cultnet_message" where
  "dial_hello config = Hello \<lparr>
     h_runtime_id = dc_runtime_id config, h_runtime_kind = dc_runtime_kind config,
     h_agent_id = Some (dc_agent_id config), h_role = None, h_display_name = Some (dc_display_name config),
     h_supported_document_types = Some [INTEROP_DOCUMENT_TYPE],
     h_supported_mutation_contracts = Some interaction_contracts,
     h_supported_message_versions = Some [INTEROP_SCHEMA_VERSION],
     h_transport_profiles = None, h_supports_schema_catalog = Some True \<rparr>"

definition mutated_message_schema_id :: "'j cultnet_message \<Rightarrow> string option" where
  "mutated_message_schema_id message =
     (case message of DocumentPutRaw _ document \<Rightarrow> Some (rd_schema_id document) | _ \<Rightarrow> None)"

definition decorate_intent :: "string \<Rightarrow> interop_note \<Rightarrow> mutation_intent" where
  "decorate_intent runtime_id n = \<lparr> mi_schema_version = MUTATION_INTENT_SCHEMA_VERSION,
     mi_intent_id = runtime_id @ ''-decorate'', mi_target_document_id = in_document_id n,
     mi_append_body = '' Decorated by '' @ runtime_id @ ''.'', mi_append_tag = ''decorated:'' @ runtime_id \<rparr>"

definition mutate_remote_note ::
  "('c, 'j) peer_ops \<Rightarrow> ('k, 'j) chan \<Rightarrow> document_registry \<Rightarrow> string \<Rightarrow> string \<Rightarrow> interop_note
     \<Rightarrow> (('k, 'c) endpoint, interop_note) step" where
  "mutate_remote_note ops ch reg note_schema_id runtime_id n =
     (let intent = decorate_intent runtime_id n in
     and_then (pure (raise PeerReplication (create_raw_document_put_message (po_intent ops) (now_text ops) reg
         (runtime_id @ ''-decorate-put'') (mi_intent_id intent) intent no_put_options))) (\<lambda>message.
     and_then (send_to ch message) (\<lambda>_.
     and_then (on_chan (ch_read ch)) (\<lambda>receipt_message.
     and_then (on_cache PeerReplication (apply_raw_document_put_message (po_receipt ops) (receipt_cache ops) reg receipt_message)) (\<lambda>_.
     and_then (on_chan (ch_read ch)) (\<lambda>mutated_message.
     and_then (on_cache PeerReplication (apply_raw_document_put_message (po_note ops) (note_cache ops) reg mutated_message)) (\<lambda>mutated.
       pure (if mutated_message_schema_id mutated_message \<noteq> Some note_schema_id then Err WrongSchema else Ok mutated))))))))"

definition rifle_command :: "string \<Rightarrow> string \<Rightarrow> fire_command" where
  "rifle_command runtime_id remote_runtime_id = \<lparr> fc_schema_version = FIRE_COMMAND_SCHEMA_VERSION,
     fc_command_id = runtime_id @ ''-fire'', fc_character_id = remote_runtime_id, fc_weapon_id = ''interop-rifle'' \<rparr>"

definition fire_remote_weapon ::
  "('c, 'j) peer_ops \<Rightarrow> ('k, 'j) chan \<Rightarrow> document_registry \<Rightarrow> string \<Rightarrow> string
     \<Rightarrow> (('k, 'c) endpoint, fire_receipt) step" where
  "fire_remote_weapon ops ch reg runtime_id remote_runtime_id =
     (let command = rifle_command runtime_id remote_runtime_id in
     and_then (pure (raise PeerReplication (create_raw_document_put_message (po_command ops) (now_text ops) reg
         (runtime_id @ ''-fire-put'') (fc_command_id command) command no_put_options))) (\<lambda>message.
     and_then (send_to ch message) (\<lambda>_.
     and_then (on_chan (ch_read ch)) (\<lambda>receipt_message.
       on_cache PeerReplication (apply_raw_document_put_message (po_shot ops) (shot_cache ops) reg receipt_message)))))"

definition hello_runtime_id :: "'j cultnet_message \<Rightarrow> peer_error + string" where
  "hello_runtime_id message = (case message of Hello h \<Rightarrow> Ok (h_runtime_id h) | _ \<Rightarrow> Err UnexpectedReply)"

definition catalog_has :: "string \<Rightarrow> 'j cultnet_message \<Rightarrow> peer_error + bool" where
  "catalog_has note_schema_id message =
     (case message of
        SchemaCatalogResponse _ schemas \<Rightarrow>
          Ok (list_ex (\<lambda>d. sd_schema_id d = note_schema_id \<and> sd_document_type d = Some INTEROP_DOCUMENT_TYPE) schemas)
      | _ \<Rightarrow> Err UnexpectedReply)"

text \<open>\<open>dial\<close>, from the connected stream to the report it prints.\<close>

definition dial ::
  "('c, 'j) peer_ops \<Rightarrow> ('k, 'j) chan \<Rightarrow> document_registry \<Rightarrow> string \<Rightarrow> dial_config
     \<Rightarrow> (('k, 'c) endpoint, dial_report) step" where
  "dial ops ch reg note_schema_id config =
     and_then (send_to ch (dial_hello config)) (\<lambda>_.
     and_then (on_chan (ch_read ch)) (\<lambda>remote_hello.
     and_then (pure (hello_runtime_id remote_hello)) (\<lambda>remote_runtime_id.
     and_then (send_to ch (SchemaCatalogRequest (dc_runtime_id config @ ''-catalog'') (Some True) None None)) (\<lambda>_.
     and_then (on_chan (ch_read ch)) (\<lambda>catalog_response.
     and_then (pure (catalog_has note_schema_id catalog_response)) (\<lambda>has_interop_schema.
     and_then (send_to ch (SnapshotRequest (dc_runtime_id config @ ''-snapshot'') (Some [note_schema_id]) None)) (\<lambda>_.
     and_then (on_chan (ch_read ch)) (\<lambda>snapshot_response.
     and_then (on_cache PeerReplication (apply_raw_snapshot_response (po_note ops) (note_cache ops) reg snapshot_response)) (\<lambda>applied.
     and_then (pure (case List.find (\<lambda>n. in_author_runtime_id n = remote_runtime_id) applied of
         None \<Rightarrow> Err (NoNoteFrom remote_runtime_id) | Some n \<Rightarrow> Ok n)) (\<lambda>n.
     and_then (mutate_remote_note ops ch reg note_schema_id (dc_runtime_id config) n) (\<lambda>mutated.
     and_then (fire_remote_weapon ops ch reg (dc_runtime_id config) remote_runtime_id) (\<lambda>receipt.
       pure (Ok \<lparr> dl_remote_runtime_id = remote_runtime_id, dl_has_interop_schema = has_interop_schema,
         dl_retrieved_note = n, dl_mutated_note = mutated, dl_fire_receipt = receipt \<rparr>)))))))))))))"

section \<open>The schema file and the served state\<close>

definition load_schema_registration :: "'n schema_ops \<Rightarrow> string + string \<Rightarrow> peer_error + schema_registration" where
  "load_schema_registration ops file_text =
     bind_result (raise PeerFile file_text) (\<lambda>schema_json.
       raise PeerDiscovery (registration_from_schema ops schema_json DocumentPayload [CultNetSchemaV0]
         (Some INTEROP_SCHEMA_VERSION) (Some INTEROP_DOCUMENT_TYPE)))"

text \<open>What \<open>serve\<close> sets up before it listens, from the loaded schema and the opened cache.\<close>

definition serve_setup ::
  "'n schema_ops \<Rightarrow> (string \<Rightarrow> string) \<Rightarrow> ('c, 'j) peer_ops \<Rightarrow> peer_config \<Rightarrow> schema_registration \<Rightarrow> 'c
     \<Rightarrow> (peer_error + (schema_registry \<times> document_registry)) \<times> 'c" where
  "serve_setup sops include_str ops config registration cache =
     (case builtin_schema_registry sops include_str of
        Inl e \<Rightarrow> (Err (PeerDiscovery e), cache)
      | Inr builtin \<Rightarrow>
        (case register_schema sops registration builtin of
           (Inl e, _) \<Rightarrow> (Err (PeerDiscovery e), cache)
         | (Inr _, schemas) \<Rightarrow>
           (let n = build_note (pc_runtime_id config) (pc_display_name config) in
            case c_put (note_cache ops) (in_document_id n) n cache of
              (Inl e, cache1) \<Rightarrow> (Err (PeerCache e), cache1)
            | (Inr _, cache1) \<Rightarrow>
                (Ok (schemas, register_capability_bindings (sr_schema_id registration) registry_new), cache1))))"

end
