(* ===== verification/PeerSample.thy ===== *)
theory PeerSample
  imports Peer
begin

text \<open>
  A concrete peer: a cache that is a list of stored documents, the newest first, and a byte encoding
  of the five documents (each field's bytes after a 1, a 0 at its end). The properties of the peer
  are applied to it.
\<close>

section \<open>The document types\<close>

definition string_codec :: "string \<Rightarrow> ('a \<Rightarrow> bytes list) \<Rightarrow> (bytes list \<Rightarrow> 'a) \<Rightarrow> ('a, unit) type_ops" where
  "string_codec ty to_fields of_fields = \<lparr> t_type = ty, t_to_json = (\<lambda>v. Inr ()), t_from_json = (\<lambda>j. Inl ''no json''),
     t_pack = Inr \<circ> pack_fields \<circ> to_fields, t_unpack = Inr \<circ> of_fields \<circ> unpack_fields [] \<rparr>"

definition note_fields :: "interop_note \<Rightarrow> bytes list" where
  "note_fields n = [str_bytes (in_schema_version n), str_bytes (in_document_id n), str_bytes (in_author_runtime_id n),
     str_bytes (in_title n), str_bytes (in_body n)] @ map str_bytes (in_tags n)"

definition note_of_fields :: "bytes list \<Rightarrow> interop_note" where
  "note_of_fields fs = \<lparr> in_schema_version = bytes_str (fs ! 0), in_document_id = bytes_str (fs ! 1),
     in_author_runtime_id = bytes_str (fs ! 2), in_title = bytes_str (fs ! 3), in_body = bytes_str (fs ! 4),
     in_tags = map bytes_str (drop 5 fs) \<rparr>"

definition intent_fields :: "mutation_intent \<Rightarrow> bytes list" where
  "intent_fields i = map str_bytes [mi_schema_version i, mi_intent_id i, mi_target_document_id i, mi_append_body i, mi_append_tag i]"

definition intent_of_fields :: "bytes list \<Rightarrow> mutation_intent" where
  "intent_of_fields fs = \<lparr> mi_schema_version = bytes_str (fs ! 0), mi_intent_id = bytes_str (fs ! 1),
     mi_target_document_id = bytes_str (fs ! 2), mi_append_body = bytes_str (fs ! 3), mi_append_tag = bytes_str (fs ! 4) \<rparr>"

definition receipt_fields :: "mutation_receipt \<Rightarrow> bytes list" where
  "receipt_fields r = [str_bytes (mr_schema_version r), str_bytes (mr_intent_id r), if mr_accepted r then [1] else [],
     str_bytes (mr_document_id r), str_bytes (mr_body r)] @ map str_bytes (mr_tags r)"

definition receipt_of_fields :: "bytes list \<Rightarrow> mutation_receipt" where
  "receipt_of_fields fs = \<lparr> mr_schema_version = bytes_str (fs ! 0), mr_intent_id = bytes_str (fs ! 1),
     mr_accepted = (fs ! 2 \<noteq> []), mr_document_id = bytes_str (fs ! 3), mr_body = bytes_str (fs ! 4),
     mr_tags = map bytes_str (drop 5 fs) \<rparr>"

definition command_fields :: "fire_command \<Rightarrow> bytes list" where
  "command_fields c = map str_bytes [fc_schema_version c, fc_command_id c, fc_character_id c, fc_weapon_id c]"

definition command_of_fields :: "bytes list \<Rightarrow> fire_command" where
  "command_of_fields fs = \<lparr> fc_schema_version = bytes_str (fs ! 0), fc_command_id = bytes_str (fs ! 1),
     fc_character_id = bytes_str (fs ! 2), fc_weapon_id = bytes_str (fs ! 3) \<rparr>"

definition shot_fields :: "fire_receipt \<Rightarrow> bytes list" where
  "shot_fields r = [str_bytes (fr_schema_version r), str_bytes (fr_command_id r), if fr_accepted r then [1] else [],
     str_bytes (fr_character_id r), str_bytes (fr_weapon_id r), u32_to_be (fr_shots_fired r), u32_to_be (fr_ammo_remaining r)]"

definition shot_of_fields :: "bytes list \<Rightarrow> fire_receipt" where
  "shot_of_fields fs = \<lparr> fr_schema_version = bytes_str (fs ! 0), fr_command_id = bytes_str (fs ! 1),
     fr_accepted = (fs ! 2 \<noteq> []), fr_character_id = bytes_str (fs ! 3), fr_weapon_id = bytes_str (fs ! 4),
     fr_shots_fired = u32_from_be (fs ! 5), fr_ammo_remaining = u32_from_be (fs ! 6) \<rparr>"

lemma fields_read_back [simp]:
  "note_of_fields (note_fields n) = n" "intent_of_fields (intent_fields i) = i"
  "receipt_of_fields (receipt_fields r) = r" "command_of_fields (command_fields c) = c"
  "shot_of_fields (shot_fields s) = s"
  by (simp_all add: note_of_fields_def note_fields_def intent_of_fields_def intent_fields_def receipt_of_fields_def
      receipt_fields_def command_of_fields_def command_fields_def shot_of_fields_def shot_fields_def comp_def)

section \<open>The cache\<close>

type_synonym store = "((string \<times> string) \<times> bytes) list"

definition stored_envelope :: "store \<Rightarrow> string \<times> string \<Rightarrow> envelope" where
  "stored_envelope c p = \<lparr> ev_key = snd p, ev_type = fst p, ev_payload = the (map_of c p), ev_stored_at = ''t0'', ev_schema_id = None \<rparr>"

definition store_snapshot :: "store \<Rightarrow> envelope list" where
  "store_snapshot c = map (stored_envelope c) (remdups (map fst c))"

definition store_ops :: "('a, unit) type_ops \<Rightarrow> (store, 'a) cache_ops" where
  "store_ops t = \<lparr> c_snapshot = store_snapshot,
     c_put = (\<lambda>k v c. case t_pack t v of Inl e \<Rightarrow> (Inl e, c) | Inr b \<Rightarrow> (Inr v, ((t_type t, k), b) # c)),
     c_delete = (\<lambda>k c. (Inr (map_of c (t_type t, k) \<noteq> None), filter (\<lambda>(p, _). p \<noteq> (t_type t, k)) c)),
     c_put_envelope = (\<lambda>e c. case t_unpack t (ev_payload e) of Inl x \<Rightarrow> (Inl x, c)
       | Inr v \<Rightarrow> (Inr v, ((t_type t, ev_key e), ev_payload e) # c)) \<rparr>"

definition note_type :: "(interop_note, unit) type_ops" where
  "note_type = string_codec INTEROP_DOCUMENT_TYPE note_fields note_of_fields"
definition intent_type :: "(mutation_intent, unit) type_ops" where
  "intent_type = string_codec MUTATION_INTENT_TYPE intent_fields intent_of_fields"
definition receipt_type :: "(mutation_receipt, unit) type_ops" where
  "receipt_type = string_codec MUTATION_RECEIPT_TYPE receipt_fields receipt_of_fields"
definition command_type :: "(fire_command, unit) type_ops" where
  "command_type = string_codec FIRE_COMMAND_TYPE command_fields command_of_fields"
definition shot_type :: "(fire_receipt, unit) type_ops" where
  "shot_type = string_codec FIRE_RECEIPT_TYPE shot_fields shot_of_fields"

definition sample_peer :: "(store, unit) peer_ops" where
  "sample_peer = \<lparr> po_note = note_type, po_intent = intent_type, po_receipt = receipt_type, po_command = command_type,
     po_shot = shot_type, note_cache = store_ops note_type, intent_cache = store_ops intent_type,
     receipt_cache = store_ops receipt_type, command_cache = store_ops command_type, shot_cache = store_ops shot_type,
     get_note = (\<lambda>k c. case map_of c (INTEROP_DOCUMENT_TYPE, k) of None \<Rightarrow> Inl ''no note'' | Some b \<Rightarrow> t_unpack note_type b),
     now_text = ''t1'' \<rparr>"

definition sample_config :: peer_config where
  "sample_config = \<lparr> pc_runtime_id = ''rust'', pc_runtime_kind = ''rust-peer'', pc_display_name = ''Rust'',
     pc_agent_id = ''agent'', pc_bind_host = ''127.0.0.1'', pc_advertise_host = ''127.0.0.1'', pc_tcp_port = 7000,
     pc_discovery_port = 7001, pc_discovery_group = [239, 0, 0, 1], pc_schema_path = ''note.json'' \<rparr>"

definition sample_dialler :: dial_config where
  "sample_dialler = \<lparr> dc_runtime_id = ''ts'', dc_runtime_kind = ''ts-peer'', dc_display_name = ''Ts'', dc_agent_id = ''agent2'',
     dc_target_host = ''127.0.0.1'', dc_target_port = 7000, dc_schema_path = ''note.json'' \<rparr>"

definition note_descriptor :: schema_descriptor where
  "note_descriptor = \<lparr> sd_schema_id = ''note-schema'', sd_kind = DocumentPayload, sd_schema_version = Some INTEROP_SCHEMA_VERSION,
     sd_document_type = Some INTEROP_DOCUMENT_TYPE, sd_title = None, sd_wire_contracts = [CultNetSchemaV0],
     sd_content_hash = ''00'', sd_schema_json = Some ''{}'' \<rparr>"

definition sample_catalog :: schema_registry where
  "sample_catalog = bt_insert ''note-schema'' note_descriptor []"

definition sample_store :: store where
  "sample_store = snd (c_put (store_ops note_type) ''note:rust'' (build_note ''rust'' ''Rust'') [])"

section \<open>Streams and a message encoding\<close>

text \<open>A stream whose reads come from one buffer and whose writes go to another.\<close>

definition duplex_ops :: "(bytes \<times> bytes) stream_ops" where
  "duplex_ops = \<lparr> s_write_all = (\<lambda>b (i, out). (Inr (), (i, out @ b))), s_flush = (\<lambda>s. (Inr (), s)),
     s_read_exact = (\<lambda>n (i, out). if n \<le> length i then (Inr (take n i), (drop n i, out))
                                  else (Inl ''unexpected end of file'', ([], out))) \<rparr>"

text \<open>
  The wire form of snapshot requests for everything and of login messages (the raw messages have
  the crate's own), and bytes for wire values: one field per value, brackets around arrays and maps.
\<close>

fun small_wire :: "unit cultnet_message \<Rightarrow> string + mvalue" where
  "small_wire (SnapshotRequest mid None None) = Inr (MArray [MStr mid])"
| "small_wire (Login a b c) = Inr (MArray [MStr a, MStr b, MStr c])"
| "small_wire _ = Inl ''unsupported''"

fun small_message :: "mvalue \<Rightarrow> string + unit cultnet_message" where
  "small_message (MArray [MStr mid]) = Inr (SnapshotRequest mid None None)"
| "small_message (MArray [MStr a, MStr b, MStr c]) = Inr (Login a b c)"
| "small_message _ = Inl ''unsupported''"

fun tokens :: "mvalue \<Rightarrow> bytes list" where
  "tokens MNil = [[0]]"
| "tokens (MBool b) = [[1, if b then 1 else 0]]"
| "tokens (MStr s) = [2 # str_bytes s]"
| "tokens (MBin b) = [3 # b]"
| "tokens (MInt i) = [4 # (if i < 0 then 1 else 0) # replicate (nat \<bar>i\<bar>) 0]"
| "tokens (MArray vs) = [5] # concat (map tokens vs) @ [[7]]"
| "tokens (MMap kvs) = [6] # concat (map (\<lambda>(k, v). tokens k @ tokens v) kvs) @ [[7]]"

fun scalar :: "u8 \<Rightarrow> bytes \<Rightarrow> mvalue" where
  "scalar t b = (if t = 1 then MBool (b \<noteq> [0]) else if t = 2 then MStr (bytes_str b) else if t = 3 then MBin b
     else if t = 4 then MInt (if hd b = 1 then - int (length b - 1) else int (length b - 1)) else MNil)"

fun pairs :: "'a list \<Rightarrow> ('a \<times> 'a) list" where
  "pairs (k # v # rest) = (k, v) # pairs rest"
| "pairs _ = []"

fun read_values :: "nat \<Rightarrow> bytes list \<Rightarrow> (mvalue list \<times> bytes list) option" where
  "read_values n ((t # b) # ts) =
     (if n = 0 then None
      else if t = 7 then Some ([], ts)
      else if t = 5 \<or> t = 6 then
        Option.bind (read_values (n - 1) ts) (\<lambda>(vs, ts1).
        Option.bind (read_values (n - 1) ts1) (\<lambda>(ws, rest). Some ((if t = 5 then MArray vs else MMap (pairs vs)) # ws, rest)))
      else Option.bind (read_values (n - 1) ts) (\<lambda>(ws, rest). Some (scalar t b # ws, rest)))"
| "read_values n _ = None"

lemma pairs_concat [simp]: "pairs (concat (map (\<lambda>(k, v). [k, v]) kvs)) = kvs"
  by (induction kvs) auto

lemma tokens_pairs: "concat (map (\<lambda>(k, v). tokens k @ tokens v) kvs) = concat (map tokens (concat (map (\<lambda>(k, v). [k, v]) kvs)))"
  by (induction kvs) auto

lemma read_tokens:
  "length (concat (map tokens vs)) < n \<Longrightarrow> read_values n (concat (map tokens vs) @ [7] # rest) = Some (vs, rest)"
proof (induction n arbitrary: vs rest)
  case (Suc n)
  show ?case
  proof (cases vs)
    case (Cons v ws)
    have read: "read_values n (concat (map tokens us) @ [7] # ts) = Some (us, ts)"
      if "length (concat (map tokens us)) < n" for us ts
      using Suc.IH [OF that] .
    show ?thesis
    proof (cases v)
      case (MArray us)
      with Suc.prems Cons show ?thesis by (simp add: read)
    next
      case (MMap kvs)
      with Suc.prems Cons show ?thesis by (simp add: read tokens_pairs del: map_concat)
    qed (use Suc.prems Cons in \<open>auto simp: read\<close>)
  qed simp
qed simp

definition small_serde :: "(mvalue, unit) serde_ops" where
  "small_serde = \<lparr> message_of_wire = small_message, wire_of_message = small_wire,
     pack_value = (\<lambda>v. Inr (pack_fields (tokens v @ [[7]]))),
     unpack_value = (\<lambda>b. let ts = unpack_fields [] b in
       case read_values (length ts) ts of Some ([v], _) \<Rightarrow> Inr v | _ \<Rightarrow> Inl ''malformed'') \<rparr>"

lemma small_unpack: "unpack_value small_serde (pack_fields (tokens v @ [[7]])) = Inr v"
  using read_tokens [of "[v]" "length (tokens v) + 1" "[]"] by (simp add: small_serde_def)

end
