(* ===== verification/PeerLink.thy ===== *)
theory PeerLink
  imports PeerSample
begin

text \<open>
  Connections of the peer: a served connection ends with its stream, and messages sent over a
  loss-free stream arrive as they were.
\<close>

section \<open>What handlers do to the channel\<close>

text \<open>Handlers touch the channel only by sending, so whatever sending keeps, they keep.\<close>

named_theorems keeps_intro

definition keeps :: "('k \<Rightarrow> bool) \<Rightarrow> (('k, 'c) endpoint, 'a) step \<Rightarrow> bool" where
  "keeps P m \<longleftrightarrow> (\<forall>w. P (ep_chan w) \<longrightarrow> P (ep_chan (snd (m w))))"

lemma keepsD: "keeps P m \<Longrightarrow> P (ep_chan w) \<Longrightarrow> m w = (r, w1) \<Longrightarrow> P (ep_chan w1)"
  unfolding keeps_def by (metis snd_conv)

lemma keeps_pure [keeps_intro]: "keeps P (pure r)"
  by (simp add: keeps_def pure_def)

lemma keeps_look [keeps_intro]: "keeps P (look f)"
  by (simp add: keeps_def look_def)

lemma keeps_on_cache [keeps_intro]: "keeps P (on_cache wrap m)"
  by (simp add: keeps_def on_cache_def split: prod.splits)

lemma keeps_and_then [keeps_intro]: "keeps P m \<Longrightarrow> (\<And>a. keeps P (f a)) \<Longrightarrow> keeps P (and_then m f)"
  unfolding keeps_def and_then_def by (simp split: prod.splits sum.splits) (metis snd_conv)

lemma keeps_send [keeps_intro]: "(\<And>m k. P k \<Longrightarrow> P (snd (ch_send ch m k))) \<Longrightarrow> keeps P (send_to ch m)"
  unfolding keeps_def send_to_def on_chan_def by (auto split: prod.splits) (metis snd_conv)

lemma keeps_handle_message:
  assumes "\<And>m k. P k \<Longrightarrow> P (snd (ch_send ch m k))"
  shows "keeps P (handle_message ops ch config reg schemas message)"
  unfolding handle_message_def handle_raw_put_def handle_intent_def handle_fire_def Let_def
  by (auto split: cultnet_message.splits intro!: keeps_intro assms)

section \<open>A connection ends\<close>

text \<open>
  A stream with finitely many bytes left to read: reading takes what it returns, and neither a
  failed read nor a write brings new bytes.
\<close>

definition finite_reader :: "'s stream_ops \<Rightarrow> ('s \<Rightarrow> nat) \<Rightarrow> bool" where
  "finite_reader ops unread \<longleftrightarrow>
     (\<forall>n s. case s_read_exact ops n s of
        (Inl e, s1) \<Rightarrow> unread s1 \<le> unread s | (Inr b, s1) \<Rightarrow> unread s1 + n \<le> unread s)
     \<and> (\<forall>b s. unread (snd (s_write_all ops b s)) \<le> unread s) \<and> (\<forall>s. unread (snd (s_flush ops s)) \<le> unread s)"

lemma read_consumes:
  assumes "finite_reader ops unread" "read_message w sd ops s = (Inr m, s1)"
  shows "unread s1 + 4 \<le> unread s"
proof -
  obtain header s2 payload where 1: "s_read_exact ops 4 s = (Inr header, s2)"
    and 2: "s_read_exact ops (unat (u32_from_be header)) s2 = (Inr payload, s1)"
    using assms(2) by (auto simp: read_message_def and_then_Inr Let_def)
  have read: "unread t1 + n \<le> unread t" if "s_read_exact ops n t = (Inr b, t1)" for n t b t1
    using assms(1) that unfolding finite_reader_def by (metis (mono_tags, lifting) case_prod_conv sum.case(2))
  from read [OF 1] read [OF 2] show ?thesis by simp
qed

lemma and_then_le:
  fixes unread :: "'s \<Rightarrow> nat"
  assumes "unread (snd (m s)) \<le> unread s" "\<And>a t. unread (snd (f a t)) \<le> unread t"
  shows "unread (snd (and_then m f s)) \<le> unread s"
proof (cases "m s")
  case (Pair r t)
  with assms(1) assms(2) [of _ t] show ?thesis
    by (cases r) (auto simp: and_then_def intro: order_trans)
qed

lemma write_keeps_unread:
  assumes "finite_reader ops unread" "unread s \<le> n"
  shows "unread (snd (send_message w sd ops m s)) \<le> n"
proof -
  have "unread (snd (s_write_all ops b s)) \<le> unread s" "unread (snd (s_flush ops s)) \<le> unread s" for b s
    using assms(1) by (simp_all add: finite_reader_def)
  then have written: "unread (snd (map_prod (raise PeerIo) id (s_write_all ops b s))) \<le> unread s"
      "unread (snd (map_prod (raise PeerIo) id (s_flush ops s))) \<le> unread s" for b s
    by simp_all
  have "unread (snd (send_message w sd ops m s)) \<le> unread s"
    unfolding send_message_def by (intro and_then_le written) (simp_all add: pure_def)
  with assms(2) show ?thesis by simp
qed

lemma connection_returns:
  assumes "finite_reader ops unread"
  shows "handle_connection eof pops (stream_chan w sd ops) config reg schemas ep \<noteq> None"
proof (induction "unread (ep_chan ep)" arbitrary: ep rule: less_induct)
  case less
  show ?case
  proof (cases "on_chan (ch_read (stream_chan w sd ops)) ep")
    case (Pair r ep1)
    show ?thesis
    proof (cases r)
      case (Inl e)
      with Pair show ?thesis by (subst handle_connection.simps) simp
    next
      case (Inr message)
      with Pair have "unread (ep_chan ep1) < unread (ep_chan ep)"
        using read_consumes [OF assms] by (fastforce simp: on_chan_def stream_chan_def split: prod.splits)
      moreover obtain r2 ep2 where step: "handle_message pops (stream_chan w sd ops) config reg schemas message ep1 = (r2, ep2)"
        by fastforce
      moreover have kept: "keeps (\<lambda>s. unread s \<le> unread (ep_chan ep1)) (handle_message pops (stream_chan w sd ops) config reg schemas message)"
        using write_keeps_unread [OF assms] by (intro keeps_handle_message) (simp add: stream_chan_def)
      have "unread (ep_chan ep2) \<le> unread (ep_chan ep1)"
        by (rule keepsD [OF kept _ step]) simp
      ultimately have "unread (ep_chan ep2) < unread (ep_chan ep)" by simp
      with less step Pair Inr show ?thesis
        by (subst handle_connection.simps) (simp split: sum.splits)
    qed
  qed
qed


section \<open>Messages arrive as they were sent\<close>

text \<open>
  What serde does with the messages that have a derived encoding: reading back gives the message, and
  the encoding does not claim to be one of the hand-written kinds; and MessagePack bytes read back.
\<close>

definition serde_laws :: "'v wire_ops \<Rightarrow> ('v, 'j) serde_ops \<Rightarrow> bool" where
  "serde_laws w sd \<longleftrightarrow>
     (\<forall>v b. pack_value sd v = Inr b \<longrightarrow> unpack_value sd b = Inr v)
     \<and> (\<forall>m v. \<not> is_raw_message m \<longrightarrow> wire_of_message sd m = Inr v \<longrightarrow> message_of_wire sd v = Inr m
          \<and> schema_version_from_wire_value w v \<notin> {Some ''cultnet.document_put_raw.v0'', Some ''cultnet.snapshot_response_raw.v0''})"

lemma serde_step_Inr [simp]: "serde_step r = Inr x \<longleftrightarrow> r = Inr x"
  by (simp add: serde_step_def split: sum.splits)

lemma decode_encoded:
  assumes laws: "rmpv_laws w" "serde_laws w sd"
    and enc: "encode_cultnet_message_to_vec w sd m CultNetSchemaV0 = Inr b"
  shows "decode_cultnet_message_from_slice w sd b CultNetSchemaV0 = Inr m"
proof -
  obtain v where valid: "validate_message m = Inr ()" and b: "pack_value sd v = Inr b"
    and v: "(if is_raw_message m then encode_raw_cultnet_schema_message w m else serde_step (wire_of_message sd m)) = Inr v"
    using enc by (auto simp: encode_cultnet_message_to_vec_def encode_cultnet_message_for_wire_def bind_result_Inr_iff)
  have unpack: "unpack_value sd b = Inr v" using laws(2) b by (simp add: serde_laws_def)
  have "parse_cultnet_message w sd v CultNetSchemaV0 = Inr m"
  proof (cases "is_raw_message m")
    case True
    with v parse_raw_encode [OF laws(1), of m v] valid show ?thesis
      by (simp add: parse_cultnet_message_def)
  next
    case False
    with v have wire: "wire_of_message sd m = Inr v" by simp
    then have "message_of_wire sd v = Inr m"
      "schema_version_from_wire_value w v \<notin> {Some ''cultnet.document_put_raw.v0'', Some ''cultnet.snapshot_response_raw.v0''}"
      using laws(2) False unfolding serde_laws_def by blast+
    with valid show ?thesis by (simp add: parse_cultnet_message_def serde_step_def)
  qed
  with unpack show ?thesis by (simp add: decode_cultnet_message_from_slice_def serde_step_def)
qed

fun send_all :: "('k, 'j) chan \<Rightarrow> 'j cultnet_message list \<Rightarrow> ('k, unit) step" where
  "send_all ch [] = pure (Ok ())"
| "send_all ch (m # ms) = and_then (ch_send ch m) (\<lambda>_. send_all ch ms)"

fun read_all :: "('k, 'j) chan \<Rightarrow> nat \<Rightarrow> ('k, 'j cultnet_message list) step" where
  "read_all ch 0 = pure (Ok [])"
| "read_all ch (Suc n) = and_then (ch_read ch) (\<lambda>m. and_then (read_all ch n) (\<lambda>ms. pure (Ok (m # ms))))"

text \<open>The bytes a message puts on the stream.\<close>

definition message_bytes :: "'v wire_ops \<Rightarrow> ('v, 'j) serde_ops \<Rightarrow> 'j cultnet_message \<Rightarrow> bytes" where
  "message_bytes w sd m = (let payload = projr (encode_cultnet_message_to_vec w sd m CultNetSchemaV0)
     in u32_to_be (of_nat (length payload)) @ payload)"

definition sendable :: "'v wire_ops \<Rightarrow> ('v, 'j) serde_ops \<Rightarrow> 'j cultnet_message \<Rightarrow> bool" where
  "sendable w sd m \<longleftrightarrow> (case encode_cultnet_message_to_vec w sd m CultNetSchemaV0 of
     Inl _ \<Rightarrow> False | Inr payload \<Rightarrow> length payload < 2 ^ 32)"

lemma send_appends:
  assumes "stream_laws ops pending" "sendable w sd m"
  shows "fst (send_message w sd ops m s) = Inr () \<and> pending (snd (send_message w sd ops m s)) = pending s @ message_bytes w sd m"
proof -
  obtain payload where p: "encode_cultnet_message_to_vec w sd m CultNetSchemaV0 = Inr payload" "length payload < 2 ^ 32"
    using assms(2) by (auto simp: sendable_def split: sum.splits)
  then have frame: "encode_frame payload = Inr (message_bytes w sd m)" by (simp add: encode_frame_def message_bytes_def)
  obtain s1 where s1: "s_write_all ops (message_bytes w sd m) s = (Inr (), s1)" "pending s1 = pending s @ message_bytes w sd m"
    using stream_lawsD(1) [OF assms(1)] by blast
  obtain s2 where s2: "s_flush ops s1 = (Inr (), s2)" "pending s2 = pending s1"
    using stream_lawsD(2) [OF assms(1)] by blast
  show ?thesis by (simp add: send_message_def and_then_def pure_def p frame s1 s2)
qed

lemma read_takes:
  assumes "stream_laws ops pending" "rmpv_laws w" "serde_laws w sd" "sendable w sd m"
    and "pending s = message_bytes w sd m @ rest"
  shows "\<exists>s1. read_message w sd ops s = (Inr m, s1) \<and> pending s1 = rest"
proof -
  obtain payload where p: "encode_cultnet_message_to_vec w sd m CultNetSchemaV0 = Inr payload" "length payload < 2 ^ 32"
    using assms(4) by (auto simp: sendable_def split: sum.splits)
  let ?h = "u32_to_be (of_nat (length payload))"
  have pending: "pending s = ?h @ payload @ rest" using assms(5) p by (simp add: message_bytes_def)
  note read = stream_lawsD(3) [OF assms(1)]
  obtain s1 where s1: "s_read_exact ops 4 s = (Inr ?h, s1)" "pending s1 = payload @ rest"
    using read [of 4 s] by (auto simp: pending)
  have len: "unat (of_nat (length payload) :: u32) = length payload" using p(2) by (rule unat_of_nat_u32)
  obtain s2 where s2: "s_read_exact ops (length payload) s1 = (Inr payload, s2)" "pending s2 = rest"
    using read [of "length payload" s1] by (auto simp: s1)
  show ?thesis
    using decode_encoded [OF assms(2,3) p(1)] by (simp add: read_message_def and_then_def pure_def s1 s2 len)
qed

lemma send_all_appends:
  assumes "stream_laws ops pending" "list_all (sendable w sd) ms"
  shows "\<exists>s1. send_all (stream_chan w sd ops) ms s = (Inr (), s1) \<and> pending s1 = pending s @ concat (map (message_bytes w sd) ms)"
  using assms(2)
proof (induction ms arbitrary: s)
  case (Cons m ms)
  obtain s0 where "send_message w sd ops m s = (Inr (), s0)" "pending s0 = pending s @ message_bytes w sd m"
    using send_appends [OF assms(1), of w sd m s] Cons.prems by (cases "send_message w sd ops m s") auto
  with Cons.IH [of s0] Cons.prems show ?case by (auto simp: stream_chan_def)
qed (simp add: pure_def)

lemma read_all_takes:
  assumes "stream_laws ops pending" "rmpv_laws w" "serde_laws w sd" "list_all (sendable w sd) ms"
    and "pending s = concat (map (message_bytes w sd) ms) @ rest"
  shows "\<exists>s1. read_all (stream_chan w sd ops) (length ms) s = (Inr ms, s1) \<and> pending s1 = rest"
  using assms(4,5)
proof (induction ms arbitrary: s)
  case (Cons m ms)
  obtain s0 where s0: "read_message w sd ops s = (Inr m, s0)" "pending s0 = concat (map (message_bytes w sd) ms) @ rest"
    using read_takes [OF assms(1-3), of m s] Cons.prems by auto
  obtain s1 where "read_all (stream_chan w sd ops) (length ms) s0 = (Inr ms, s1)" "pending s1 = rest"
    using Cons.IH [OF _ s0(2)] Cons.prems by auto
  with s0 show ?case by (auto simp: stream_chan_def pure_def)
qed (simp add: pure_def)

text \<open>C20.
  Validation, wire encoding, framing and the stream together carry messages faithfully: any valid
  messages whose encodings fit a frame, sent one after the other into an empty stream, are read at
  the other end as the same messages in the same order, and nothing is left on the stream.\<close>

theorem messages_delivered:
  assumes "stream_laws ops pending" "rmpv_laws w" "serde_laws w sd"
    and "list_all (sendable w sd) ms" "pending s = []"
  shows "\<exists>s1 s2. send_all (stream_chan w sd ops) ms s = (Ok (), s1)
    \<and> read_all (stream_chan w sd ops) (length ms) s1 = (Ok ms, s2) \<and> pending s2 = []"
proof -
  obtain s1 where "send_all (stream_chan w sd ops) ms s = (Ok (), s1)" "pending s1 = concat (map (message_bytes w sd) ms) @ []"
    using send_all_appends [OF assms(1,4), of s] assms(5) by auto
  with read_all_takes [OF assms(1-4), of s1 "[]"] show ?thesis by blast
qed

section \<open>Applied to the sample peer\<close>

lemma duplex_finite: "finite_reader duplex_ops (length \<circ> fst)"
  by (auto simp: finite_reader_def duplex_ops_def)


lemma small_serde_laws: "serde_laws mvalue_ops small_serde"
  unfolding serde_laws_def
proof (intro conjI allI impI)
  fix v b assume "pack_value small_serde v = Inr b"
  then show "unpack_value small_serde b = Inr v"
    using small_unpack [of v] by (auto simp: small_serde_def)
next
  fix m v assume m: "wire_of_message small_serde m = Inr v"
  from m show "message_of_wire small_serde v = Inr m"
    by (cases m rule: small_wire.cases) (auto simp: small_serde_def)
  from m show "schema_version_from_wire_value mvalue_ops v \<notin> {Some ''cultnet.document_put_raw.v0'', Some ''cultnet.snapshot_response_raw.v0''}"
    by (cases m rule: small_wire.cases) (auto simp: small_serde_def mvalue_ops_def schema_version_from_wire_value_def)
qed

lemma messages_delivered_witness:
  "\<exists>s1 s2. send_all (stream_chan mvalue_ops small_serde pipe_ops) [SnapshotRequest ''m1'' None None, SnapshotRequest ''m2'' None None] []
      = (Ok (), s1)
    \<and> read_all (stream_chan mvalue_ops small_serde pipe_ops) 2 s1
      = (Ok [SnapshotRequest ''m1'' None None, SnapshotRequest ''m2'' None None], s2) \<and> s2 = []"
proof -
  have "list_all (sendable mvalue_ops small_serde) [SnapshotRequest ''m1'' None None, SnapshotRequest ''m2'' None None]"
    by code_simp
  from messages_delivered [OF pipe_laws mvalue_laws(1) small_serde_laws this, of "[]"] show ?thesis
    by (simp add: numeral_2_eq_2)
qed

end
