(* ===== verification/PeerSession.thy ===== *)
theory PeerSession
  imports PeerLink
begin

text \<open>
  A whole session between two peers, at the level of messages: the dialling side against the server,
  which answers each message as it arrives. \<open>peer_laws\<close> states what both sides rely on: serialised
  documents read back, and the cache is a map from types and keys to serialised documents.
\<close>

section \<open>What the peers rely on\<close>

type_synonym 'c docs = "'c \<Rightarrow> string \<times> string \<Rightarrow> bytes option"

definition codec_laws :: "('a, 'j) type_ops \<Rightarrow> bool" where
  "codec_laws t \<longleftrightarrow> (\<forall>v. \<exists>b. t_pack t v = Inr b \<and> t_unpack t b = Inr v)"

text \<open>A typed view of the cache: what is put under a key is stored, serialised, under type and key.\<close>

definition view_laws :: "'c docs \<Rightarrow> ('a, 'j) type_ops \<Rightarrow> ('c, 'a) cache_ops \<Rightarrow> bool" where
  "view_laws docs t ops \<longleftrightarrow> codec_laws t
     \<and> (\<forall>e v c. ev_type e = t_type t \<longrightarrow> t_unpack t (ev_payload e) = Inr v \<longrightarrow>
          fst (c_put_envelope ops e c) = Inr v
          \<and> docs (snd (c_put_envelope ops e c)) = (docs c)((t_type t, ev_key e) \<mapsto> ev_payload e))
     \<and> (\<forall>k v b c. t_pack t v = Inr b \<longrightarrow>
          fst (c_put ops k v c) = Inr v \<and> docs (snd (c_put ops k v c)) = (docs c)((t_type t, k) \<mapsto> b))"

text \<open>The snapshot lists every stored document once.\<close>

definition snapshot_laws :: "'c docs \<Rightarrow> ('c \<Rightarrow> envelope list) \<Rightarrow> bool" where
  "snapshot_laws docs snap \<longleftrightarrow> (\<forall>c. distinct (map (\<lambda>e. (ev_type e, ev_key e)) (snap c))
     \<and> (\<forall>e \<in> set (snap c). docs c (ev_type e, ev_key e) = Some (ev_payload e))
     \<and> (\<forall>p b. docs c p = Some b \<longrightarrow> (\<exists>e \<in> set (snap c). (ev_type e, ev_key e) = p)))"

lemma snapshot_docs: "snapshot_laws docs snap \<Longrightarrow> e \<in> set (snap c) \<Longrightarrow> docs c (ev_type e, ev_key e) = Some (ev_payload e)"
  by (simp add: snapshot_laws_def)

definition peer_laws :: "'c docs \<Rightarrow> ('c, 'j) peer_ops \<Rightarrow> bool" where
  "peer_laws docs ops \<longleftrightarrow>
     t_type (po_note ops) = INTEROP_DOCUMENT_TYPE \<and> t_type (po_intent ops) = MUTATION_INTENT_TYPE
     \<and> t_type (po_receipt ops) = MUTATION_RECEIPT_TYPE \<and> t_type (po_command ops) = FIRE_COMMAND_TYPE
     \<and> t_type (po_shot ops) = FIRE_RECEIPT_TYPE
     \<and> view_laws docs (po_note ops) (note_cache ops) \<and> view_laws docs (po_intent ops) (intent_cache ops)
     \<and> view_laws docs (po_receipt ops) (receipt_cache ops) \<and> view_laws docs (po_command ops) (command_cache ops)
     \<and> view_laws docs (po_shot ops) (shot_cache ops)
     \<and> snapshot_laws docs (c_snapshot (note_cache ops))
     \<and> (\<forall>k c b v. docs c (INTEROP_DOCUMENT_TYPE, k) = Some b \<longrightarrow> t_unpack (po_note ops) b = Inr v \<longrightarrow>
          get_note ops k c = Inr v)"

lemma peer_lawsD:
  assumes "peer_laws docs ops"
  shows "t_type (po_note ops) = INTEROP_DOCUMENT_TYPE" "t_type (po_intent ops) = MUTATION_INTENT_TYPE"
    "t_type (po_receipt ops) = MUTATION_RECEIPT_TYPE" "t_type (po_command ops) = FIRE_COMMAND_TYPE"
    "t_type (po_shot ops) = FIRE_RECEIPT_TYPE"
    and "view_laws docs (po_note ops) (note_cache ops)" "view_laws docs (po_intent ops) (intent_cache ops)"
    "view_laws docs (po_receipt ops) (receipt_cache ops)" "view_laws docs (po_command ops) (command_cache ops)"
    "view_laws docs (po_shot ops) (shot_cache ops)"
    and "snapshot_laws docs (c_snapshot (note_cache ops))"
    and "docs c (INTEROP_DOCUMENT_TYPE, k) = Some b \<Longrightarrow> t_unpack (po_note ops) b = Inr v \<Longrightarrow> get_note ops k c = Inr v"
  using assms by (auto simp: peer_laws_def)

section \<open>The registry of both sides\<close>

definition peer_schema :: "string \<Rightarrow> string \<Rightarrow> string option" where
  "peer_schema note_schema_id ty = map_of
     [(INTEROP_DOCUMENT_TYPE, note_schema_id), (MUTATION_INTENT_TYPE, MUTATION_INTENT_SCHEMA_ID),
      (MUTATION_RECEIPT_TYPE, MUTATION_RECEIPT_SCHEMA_ID), (FIRE_COMMAND_TYPE, FIRE_COMMAND_SCHEMA_ID),
      (FIRE_RECEIPT_TYPE, FIRE_RECEIPT_SCHEMA_ID)] ty"

definition other_schema_ids :: "string list" where
  "other_schema_ids = [MUTATION_INTENT_SCHEMA_ID, MUTATION_RECEIPT_SCHEMA_ID, FIRE_COMMAND_SCHEMA_ID, FIRE_RECEIPT_SCHEMA_ID]"

abbreviation peer_registry :: "string \<Rightarrow> document_registry" where
  "peer_registry note_schema_id \<equiv> register_capability_bindings note_schema_id registry_new"

lemmas peer_names = INTEROP_DOCUMENT_TYPE_def MUTATION_INTENT_TYPE_def MUTATION_RECEIPT_TYPE_def
  FIRE_COMMAND_TYPE_def FIRE_RECEIPT_TYPE_def

lemmas peer_schema_ids = MUTATION_INTENT_SCHEMA_ID_def MUTATION_RECEIPT_SCHEMA_ID_def
  FIRE_COMMAND_SCHEMA_ID_def FIRE_RECEIPT_SCHEMA_ID_def

lemma types_distinct:
  "distinct [INTEROP_DOCUMENT_TYPE, MUTATION_INTENT_TYPE, MUTATION_RECEIPT_TYPE, FIRE_COMMAND_TYPE, FIRE_RECEIPT_TYPE]"
  by (simp add: peer_names)

lemma types_ne [simp]:
  "INTEROP_DOCUMENT_TYPE \<noteq> MUTATION_INTENT_TYPE" "INTEROP_DOCUMENT_TYPE \<noteq> MUTATION_RECEIPT_TYPE"
  "INTEROP_DOCUMENT_TYPE \<noteq> FIRE_COMMAND_TYPE" "INTEROP_DOCUMENT_TYPE \<noteq> FIRE_RECEIPT_TYPE"
  "MUTATION_INTENT_TYPE \<noteq> INTEROP_DOCUMENT_TYPE" "MUTATION_INTENT_TYPE \<noteq> MUTATION_RECEIPT_TYPE"
  "MUTATION_INTENT_TYPE \<noteq> FIRE_COMMAND_TYPE" "MUTATION_INTENT_TYPE \<noteq> FIRE_RECEIPT_TYPE"
  "MUTATION_RECEIPT_TYPE \<noteq> INTEROP_DOCUMENT_TYPE" "MUTATION_RECEIPT_TYPE \<noteq> MUTATION_INTENT_TYPE"
  "MUTATION_RECEIPT_TYPE \<noteq> FIRE_COMMAND_TYPE" "MUTATION_RECEIPT_TYPE \<noteq> FIRE_RECEIPT_TYPE"
  "FIRE_COMMAND_TYPE \<noteq> INTEROP_DOCUMENT_TYPE" "FIRE_COMMAND_TYPE \<noteq> MUTATION_INTENT_TYPE"
  "FIRE_COMMAND_TYPE \<noteq> MUTATION_RECEIPT_TYPE" "FIRE_COMMAND_TYPE \<noteq> FIRE_RECEIPT_TYPE"
  "FIRE_RECEIPT_TYPE \<noteq> INTEROP_DOCUMENT_TYPE" "FIRE_RECEIPT_TYPE \<noteq> MUTATION_INTENT_TYPE"
  "FIRE_RECEIPT_TYPE \<noteq> MUTATION_RECEIPT_TYPE" "FIRE_RECEIPT_TYPE \<noteq> FIRE_COMMAND_TYPE"
  using types_distinct by auto

lemma others_distinct: "distinct other_schema_ids"
  by (simp add: other_schema_ids_def peer_schema_ids)

lemma schemas_ne [simp]:
  "MUTATION_INTENT_SCHEMA_ID \<noteq> MUTATION_RECEIPT_SCHEMA_ID" "MUTATION_INTENT_SCHEMA_ID \<noteq> FIRE_COMMAND_SCHEMA_ID"
  "MUTATION_INTENT_SCHEMA_ID \<noteq> FIRE_RECEIPT_SCHEMA_ID" "MUTATION_RECEIPT_SCHEMA_ID \<noteq> MUTATION_INTENT_SCHEMA_ID"
  "MUTATION_RECEIPT_SCHEMA_ID \<noteq> FIRE_COMMAND_SCHEMA_ID" "MUTATION_RECEIPT_SCHEMA_ID \<noteq> FIRE_RECEIPT_SCHEMA_ID"
  "FIRE_COMMAND_SCHEMA_ID \<noteq> MUTATION_INTENT_SCHEMA_ID" "FIRE_COMMAND_SCHEMA_ID \<noteq> MUTATION_RECEIPT_SCHEMA_ID"
  "FIRE_COMMAND_SCHEMA_ID \<noteq> FIRE_RECEIPT_SCHEMA_ID" "FIRE_RECEIPT_SCHEMA_ID \<noteq> MUTATION_INTENT_SCHEMA_ID"
  "FIRE_RECEIPT_SCHEMA_ID \<noteq> MUTATION_RECEIPT_SCHEMA_ID" "FIRE_RECEIPT_SCHEMA_ID \<noteq> FIRE_COMMAND_SCHEMA_ID"
  using others_distinct [unfolded other_schema_ids_def] by auto

lemma peer_binding:
  "map_option (\<lambda>b. (db_schema_id b, db_document_type b)) (binding (peer_registry S) ty)
    = map_option (\<lambda>s. (s, ty)) (peer_schema S ty)"
  by (simp add: register_capability_bindings_def register_binding_def registry_new_def binding_def
      binding_for_entry_with_schema_id_def peer_schema_def)

lemma peer_schema_bound:
  "peer_schema S ty = Some s \<Longrightarrow> binding_by_schema_id (peer_registry S) s \<noteq> None"
  by (auto simp: register_capability_bindings_def register_binding_def registry_new_def binding_by_schema_id_def
      binding_for_entry_with_schema_id_def peer_schema_def split: if_splits)

lemma peer_schema_inj:
  assumes "S \<notin> set other_schema_ids" "peer_schema S t1 = Some s" "peer_schema S t2 = Some s"
  shows "t1 = t2"
  using assms by (auto simp: peer_schema_def other_schema_ids_def split: if_splits)

lemma require_peer_binding:
  assumes "peer_schema S ty = Some s"
  obtains b where "binding (peer_registry S) ty = Some b" "require_binding (peer_registry S) ty = Inr b"
    "db_schema_id b = s" "db_document_type b = ty"
  using assms peer_binding [of S ty] that by (cases "binding (peer_registry S) ty") (simp_all add: require_binding_def)

lemma peer_schemas:
  "peer_schema S INTEROP_DOCUMENT_TYPE = Some S" "peer_schema S MUTATION_INTENT_TYPE = Some MUTATION_INTENT_SCHEMA_ID"
  "peer_schema S MUTATION_RECEIPT_TYPE = Some MUTATION_RECEIPT_SCHEMA_ID"
  "peer_schema S FIRE_COMMAND_TYPE = Some FIRE_COMMAND_SCHEMA_ID" "peer_schema S FIRE_RECEIPT_TYPE = Some FIRE_RECEIPT_SCHEMA_ID"
  by (simp_all add: peer_schema_def)

section \<open>One document over the channel\<close>

definition put_record :: "put_options \<Rightarrow> string \<Rightarrow> string \<Rightarrow> string \<Rightarrow> bytes \<Rightarrow> raw_document_record" where
  "put_record opts now s k p = \<lparr> rd_schema_id = s, rd_record_key = k,
     rd_stored_at = (case po_stored_at opts of None \<Rightarrow> now | Some t \<Rightarrow> t), rd_payload_encoding = Messagepack, rd_payload = p,
     rd_source_runtime_id = po_source_runtime_id opts, rd_source_agent_id = po_source_agent_id opts,
     rd_source_role = po_source_role opts, rd_tags = po_tags opts \<rparr>"

lemma put_record_fields [simp]:
  "rd_schema_id (put_record opts now s k p) = s" "rd_record_key (put_record opts now s k p) = k"
  "rd_payload (put_record opts now s k p) = p"
  by (simp_all add: put_record_def)

lemma create_put:
  assumes "peer_schema S (t_type t) = Some s" "t_pack t v = Inr p"
  shows "create_raw_document_put_message t now (peer_registry S) mid k v opts = Inr (DocumentPutRaw mid (put_record opts now s k p))"
  using assms by (elim require_peer_binding) (simp add: create_raw_document_put_message_def payload_step_def put_record_def)

lemma apply_put:
  assumes "view_laws docs t cops" "peer_schema S (t_type t) = Some s"
    and "rd_schema_id d = s" "t_unpack t (rd_payload d) = Inr v"
  obtains c1 where "apply_raw_document_put_message t cops (peer_registry S) (DocumentPutRaw mid d) c = (Inr v, c1)"
    "docs c1 = (docs c)((t_type t, rd_record_key d) \<mapsto> rd_payload d)"
proof -
  obtain b where b: "require_binding (peer_registry S) (t_type t) = Inr b" "db_schema_id b = s" "db_document_type b = t_type t"
    using assms(2) by (rule require_peer_binding)
  let ?e = "\<lparr> ev_key = rd_record_key d, ev_type = t_type t, ev_payload = rd_payload d, ev_stored_at = rd_stored_at d, ev_schema_id = Some s \<rparr>"
  have "fst (c_put_envelope cops ?e c) = Inr v"
    "docs (snd (c_put_envelope cops ?e c)) = (docs c)((t_type t, rd_record_key d) \<mapsto> rd_payload d)"
    using assms(1,4) by (simp_all add: view_laws_def)
  moreover have "apply_raw_document_put_message t cops (peer_registry S) (DocumentPutRaw mid d) c = cache_step (c_put_envelope cops ?e c)"
    using b assms(3) by (simp add: apply_raw_document_put_message_def)
  ultimately show thesis
    using that by (cases "c_put_envelope cops ?e c") (simp add: cache_step_def)
qed

lemma packed:
  assumes "view_laws docs t cops"
  obtains b where "t_pack t v = Inr b" "t_unpack t b = Inr v"
  using assms unfolding view_laws_def codec_laws_def by blast

section \<open>The server behind the channel\<close>

text \<open>The server collects its answers in a list; the client's channel is the server itself.\<close>

definition outbox :: "('j cultnet_message list, 'j) chan" where
  "outbox = \<lparr> ch_send = (\<lambda>m box. (Ok (), box @ [m])), ch_read = (\<lambda>box. (Err (PeerIo ''not read''), box)) \<rparr>"

record ('c, 'j) remote =
  rm_end :: "('j cultnet_message list, 'c) endpoint"
  rm_open :: bool

definition served_by ::
  "('c, 'j) peer_ops \<Rightarrow> peer_config \<Rightarrow> document_registry \<Rightarrow> schema_registry \<Rightarrow> (('c, 'j) remote, 'j) chan" where
  "served_by ops config reg schemas = \<lparr>
     ch_send = (\<lambda>m r. if rm_open r then
         (case handle_message ops outbox config reg schemas m (rm_end r) of
            (res, ep) \<Rightarrow> (Ok (), r\<lparr>rm_end := ep, rm_open := is_ok res\<rparr>))
       else (Err (PeerIo ''closed''), r)),
     ch_read = (\<lambda>r. case ep_chan (rm_end r) of
         [] \<Rightarrow> (Err (PeerIo ''eof''), r)
       | m # ms \<Rightarrow> (Ok m, r\<lparr>rm_end := (rm_end r)\<lparr>ep_chan := ms\<rparr>\<rparr>)) \<rparr>"

text \<open>A server with an open connection, its unread answers and its cache; a client talking to it.\<close>

definition serving :: "'j cultnet_message list \<Rightarrow> 'c \<Rightarrow> ('c, 'j) remote" where
  "serving box c = \<lparr> rm_end = \<lparr> ep_chan = box, ep_cache = c \<rparr>, rm_open = True \<rparr>"

definition client :: "'j cultnet_message list \<Rightarrow> 'c \<Rightarrow> 'd \<Rightarrow> (('c, 'j) remote, 'd) endpoint" where
  "client box c d = \<lparr> ep_chan = serving box c, ep_cache = d \<rparr>"

definition server_end :: "'j cultnet_message list \<Rightarrow> 'c \<Rightarrow> ('j cultnet_message list, 'c) endpoint" where
  "server_end box c = \<lparr> ep_chan = box, ep_cache = c \<rparr>"

lemma outbox_send [simp]: "send_to outbox m (server_end box c) = (Inr (), server_end (box @ [m]) c)"
  by (simp add: send_to_def on_chan_def outbox_def server_end_def)

lemma server_look [simp]: "look f (server_end box c) = (f c, server_end box c)"
  by (simp add: look_def server_end_def)

lemma server_then_look:
  "and_then (look f) g (server_end box c) = (case f c of Inl e \<Rightarrow> (Err e, server_end box c) | Inr a \<Rightarrow> g a (server_end box c))"
  by (simp add: and_then_def)

lemma server_cache:
  "on_cache wrap m (server_end box c) = (case m c of (r, c1) \<Rightarrow> (raise wrap r, server_end box c1))"
  by (simp add: on_cache_def server_end_def)

lemma client_cache:
  "on_cache wrap m (client box c d) = (case m d of (r, d1) \<Rightarrow> (raise wrap r, client box c d1))"
  by (simp add: on_cache_def client_def)

lemma client_send:
  assumes "handle_message ops outbox config reg schemas m (server_end box c) = (Inr (), server_end box1 c1)"
  shows "send_to (served_by ops config reg schemas) m (client box c d) = (Inr (), client box1 c1 d)"
  using assms by (simp add: send_to_def on_chan_def served_by_def client_def serving_def server_end_def)

lemma client_read:
  "on_chan (ch_read (served_by ops config reg schemas)) (client (m # box) c d) = (Inr m, client box c d)"
  by (simp add: on_chan_def served_by_def client_def serving_def)

lemma pure_ok [simp]: "pure (Inr a) s = (Inr a, s)"
  by (simp add: pure_def)

lemma serve_hello:
  "handle_message ops outbox config reg schemas (Hello h) (server_end box c) = (Inr (), server_end (box @ [hello_reply config]) c)"
  by (simp add: handle_message_def)

lemma hello_reply_id: "hello_runtime_id (hello_reply config) = Inr (pc_runtime_id config)"
  by (simp add: hello_runtime_id_def hello_reply_def)

lemma serve_catalog:
  "handle_message ops outbox config reg schemas (SchemaCatalogRequest mid inc sids kinds) (server_end box c)
    = (Inr (), server_end (box @ [SchemaCatalogResponse mid (list_schemas schemas
        \<lparr> co_include_schema_json = (case inc of None \<Rightarrow> False | Some b \<Rightarrow> b), co_schema_ids = sids, co_kinds = kinds \<rparr>)]) c)"
  by (simp add: handle_message_def create_catalog_response_def)

section \<open>The server's snapshot\<close>

definition marked :: "peer_config \<Rightarrow> raw_document_record \<Rightarrow> raw_document_record" where
  "marked config r = r\<lparr> rd_source_runtime_id := Some (pc_runtime_id config), rd_source_agent_id := Some (pc_agent_id config),
     rd_source_role := Some ''peer'', rd_tags := Some [''interop'', pc_runtime_id config] \<rparr>"

definition served_record :: "peer_config \<Rightarrow> string \<Rightarrow> envelope \<Rightarrow> raw_document_record" where
  "served_record config S e = marked config (raw_projection (the (peer_schema S (ev_type e))) e)"

lemma served_record_fields [simp]:
  "rd_schema_id (served_record config S e) = the (peer_schema S (ev_type e))"
  "rd_record_key (served_record config S e) = ev_key e" "rd_payload (served_record config S e) = ev_payload e"
  by (simp_all add: served_record_def marked_def raw_projection_def)

lemma raw_of_envelope:
  "peer_schema S (ev_type e) = Some s \<Longrightarrow> raw_document_record_from_envelope (peer_registry S) e = Inr (raw_projection s e)"
  by (elim require_peer_binding) (simp add: raw_document_record_from_envelope_def raw_projection_def)

text \<open>Envelopes a peer can serve: of its types, under keys and schema ids with a visible character.\<close>

definition servable :: "string \<Rightarrow> envelope \<Rightarrow> bool" where
  "servable S e \<longleftrightarrow> (case peer_schema S (ev_type e) of None \<Rightarrow> False | Some s \<Rightarrow> named s) \<and> named (ev_key e)"

lemma servableD: "servable S e \<Longrightarrow> peer_schema S (ev_type e) = Some (the (peer_schema S (ev_type e)))"
  "servable S e \<Longrightarrow> named (the (peer_schema S (ev_type e)))" "servable S e \<Longrightarrow> named (ev_key e)"
  by (auto simp: servable_def split: option.splits)

lemma snapshot_records_all:
  "list_all (servable S) es \<Longrightarrow> \<exists>policy1. snapshot_records config (peer_registry S) es policy
      = Inr (map (served_record config S) es, policy1)
    \<and> (\<forall>p. p \<in> set (bs_elems policy1) \<longleftrightarrow> p \<in> set (bs_elems policy) \<or> p \<in> record_identity ` served_record config S ` set es)"
proof (induction es arbitrary: policy)
  case (Cons e es)
  then have e: "servable S e" and es: "list_all (servable S) es" by simp_all
  let ?r = "served_record config S e"
  have allow: "policy_allow (rd_schema_id ?r) (rd_record_key ?r) policy = (Inr (), bs_insert (rd_schema_id ?r, rd_record_key ?r) policy)"
  proof -
    have "check_all [query_require_non_empty (rd_schema_id ?r) ''schema_id'', query_require_non_empty (rd_record_key ?r) ''record_key''] = Inr ()"
      using servableD(2,3) [OF e] by (simp add: query_require_non_empty_def named_def)
    then show ?thesis by (simp only: policy_allow_def sum.case)
  qed
  obtain policy1 where rec: "snapshot_records config (peer_registry S) es (bs_insert (rd_schema_id ?r, rd_record_key ?r) policy)
        = Inr (map (served_record config S) es, policy1)"
    and pol: "\<And>p. p \<in> set (bs_elems policy1) \<longleftrightarrow> p \<in> set (bs_elems (bs_insert (rd_schema_id ?r, rd_record_key ?r) policy))
        \<or> p \<in> record_identity ` served_record config S ` set es"
    using Cons.IH [OF es] by blast
  have "snapshot_records config (peer_registry S) (e # es) policy = Inr (map (served_record config S) (e # es), policy1)"
    using rec allow raw_of_envelope [OF servableD(1) [OF e]]
    by (simp add: Let_def served_record_def marked_def)
  moreover have "set (bs_elems (bs_insert q policy)) = insert q (set (bs_elems policy))" for q
    by (auto simp flip: bs_member_elems)
  ultimately show ?case using pol by (auto simp: record_identity_def)
qed simp

lemma serve_snapshot_ok:
  assumes S: "S \<notin> set other_schema_ids" "named S" and es: "list_all (servable S) es"
    and distinct: "distinct (map (\<lambda>e. (ev_type e, ev_key e)) es)" and mid: "named mid"
  shows "serve_snapshot config (peer_registry S) es (SnapshotRequest mid (Some [S]) None)
    = Inr (SnapshotResponseRaw mid (map (served_record config S) (filter (\<lambda>e. ev_type e = INTEROP_DOCUMENT_TYPE) es)))"
proof -
  let ?ds = "map (served_record config S) es"
  obtain policy where rec: "snapshot_records config (peer_registry S) es policy_new = Inr (?ds, policy)"
    and pol: "\<And>p. p \<in> set (bs_elems policy) \<longleftrightarrow> p \<in> record_identity ` set ?ds"
    using snapshot_records_all [OF es, of config policy_new] by (auto simp: policy_new_def bs_elems_def)
  have schema: "peer_schema S (ev_type e) = Some (the (peer_schema S (ev_type e)))" if "e \<in> set es" for e
    using es that servableD(1) by (simp add: list_all_iff)
  have inj: "ev_type e = ev_type f" if "e \<in> set es" "f \<in> set es" "the (peer_schema S (ev_type e)) = the (peer_schema S (ev_type f))" for e f
    using peer_schema_inj [OF S(1) schema [OF that(1)]] schema [OF that(2)] that(3) by simp
  have "distinct (map record_identity ?ds)"
    using distinct inj by (auto simp: distinct_map inj_on_def record_identity_def)
  moreover have "list_all (\<lambda>d. binding_by_schema_id (peer_registry S) (rd_schema_id d) \<noteq> None) ?ds"
    using schema peer_schema_bound by (auto simp: list_all_iff)
  ultimately have sound: "source_sound (peer_registry S) ?ds" by (simp add: source_sound_def)
  have "filter (exposed policy (Some [S]) None) ?ds = map (served_record config S) (filter (\<lambda>e. ev_type e = INTEROP_DOCUMENT_TYPE) es)"
  proof -
    have "exposed policy (Some [S]) None (served_record config S e) \<longleftrightarrow> ev_type e = INTEROP_DOCUMENT_TYPE" if "e \<in> set es" for e
      using that pol peer_schema_inj [OF S(1) schema [OF that], of INTEROP_DOCUMENT_TYPE] schema [OF that] peer_schemas(1) [of S]
      by (auto simp: exposed_def)
    then show ?thesis by (auto simp: filter_map comp_def cong: filter_cong)
  qed
  then have "serve_read_only_raw_snapshot (peer_registry S) policy (Inr ?ds) (SnapshotRequest mid (Some [S]) None)
      = Inr (SnapshotResponseRaw mid (map (served_record config S) (filter (\<lambda>e. ev_type e = INTEROP_DOCUMENT_TYPE) es)))"
    unfolding serve_ok_iff using S mid sound by simp
  with rec show ?thesis by (simp add: serve_snapshot_def)
qed

section \<open>The server's commands\<close>

lemma serve_intent:
  assumes laws: "peer_laws docs ops" and d: "rd_schema_id d = MUTATION_INTENT_SCHEMA_ID"
    and intent: "t_unpack (po_intent ops) (rd_payload d) = Inr intent"
    and old: "docs c (INTEROP_DOCUMENT_TYPE, mi_target_document_id intent) = Some b" "t_unpack (po_note ops) b = Inr old"
  obtains c1 q p where
    "handle_message ops outbox config (peer_registry S) schemas (DocumentPutRaw mid d) (server_end box c)
      = (Inr (), server_end (box @
          [DocumentPutRaw (pc_runtime_id config @ ''-mutation-receipt'')
             (put_record (response_options config ''mutation'') (now_text ops) MUTATION_RECEIPT_SCHEMA_ID (mi_intent_id intent) q),
           DocumentPutRaw (pc_runtime_id config @ ''-mutated-note'')
             (put_record (response_options config ''mutation'') (now_text ops) S (in_document_id old) p)]) c1)"
    "t_unpack (po_receipt ops) q = Inr (receipt_for intent (decorated intent old))"
    "t_unpack (po_note ops) p = Inr (decorated intent old)"
    "docs c1 = (docs c)((MUTATION_INTENT_TYPE, rd_record_key d) \<mapsto> rd_payload d, (INTEROP_DOCUMENT_TYPE, in_document_id old) \<mapsto> p)"
proof -
  note L = peer_lawsD [OF laws]
  let ?n = "decorated intent old"
  have id: "in_document_id ?n = in_document_id old" by (simp add: decorated_def)
  obtain c0 where c0: "apply_raw_document_put_message (po_intent ops) (intent_cache ops) (peer_registry S) (DocumentPutRaw mid d) c = (Inr intent, c0)"
    and docs0: "docs c0 = (docs c)((MUTATION_INTENT_TYPE, rd_record_key d) \<mapsto> rd_payload d)"
    using apply_put [OF L(7) _ d intent, of S mid c] by (auto simp: L(2) peer_schemas)
  have "docs c0 (INTEROP_DOCUMENT_TYPE, mi_target_document_id intent) = Some b" using old(1) by (simp add: docs0)
  from L(12) [OF this old(2)] have get: "get_note ops (mi_target_document_id intent) c0 = Inr old" .
  obtain p where p: "t_pack (po_note ops) ?n = Inr p" "t_unpack (po_note ops) p = Inr ?n" using packed [OF L(6)] by blast
  obtain q where q: "t_pack (po_receipt ops) (receipt_for intent ?n) = Inr q" "t_unpack (po_receipt ops) q = Inr (receipt_for intent ?n)"
    using packed [OF L(8)] by blast
  have put: "fst (c_put (note_cache ops) (in_document_id ?n) ?n c0) = Inr ?n"
    "docs (snd (c_put (note_cache ops) (in_document_id ?n) ?n c0)) = (docs c0)((INTEROP_DOCUMENT_TYPE, in_document_id ?n) \<mapsto> p)"
    using L(6) p(1) L(1) by (simp_all add: view_laws_def)
  then obtain c1 where c1: "c_put (note_cache ops) (in_document_id ?n) ?n c0 = (Inr ?n, c1)"
    and docs1: "docs c1 = (docs c0)((INTEROP_DOCUMENT_TYPE, in_document_id ?n) \<mapsto> p)"
    by (cases "c_put (note_cache ops) (in_document_id ?n) ?n c0") simp
  have receipt_id: "mr_intent_id (receipt_for intent ?n) = mi_intent_id intent" by (simp add: receipt_for_def)
  have receipt: "create_raw_document_put_message (po_receipt ops) (now_text ops) (peer_registry S) m
      (mr_intent_id (receipt_for intent ?n)) (receipt_for intent ?n) opts
      = Inr (DocumentPutRaw m (put_record opts (now_text ops) MUTATION_RECEIPT_SCHEMA_ID (mi_intent_id intent) q))" for m opts
    unfolding receipt_id by (rule create_put) (simp_all add: L(3) peer_schemas q(1))
  have note_message: "create_raw_document_put_message (po_note ops) (now_text ops) (peer_registry S) m (in_document_id ?n) ?n opts
      = Inr (DocumentPutRaw m (put_record opts (now_text ops) S (in_document_id old) p))" for m opts
    unfolding id by (rule create_put) (simp_all add: L(1) peer_schemas p(1))
  have "handle_intent ops outbox config (peer_registry S) (DocumentPutRaw mid d) (server_end box c)
      = (Inr (), server_end (box @
          [DocumentPutRaw (pc_runtime_id config @ ''-mutation-receipt'')
             (put_record (response_options config ''mutation'') (now_text ops) MUTATION_RECEIPT_SCHEMA_ID (mi_intent_id intent) q),
           DocumentPutRaw (pc_runtime_id config @ ''-mutated-note'')
             (put_record (response_options config ''mutation'') (now_text ops) S (in_document_id old) p)]) c1)"
    unfolding handle_intent_def Let_def
    by (simp add: server_cache c0 get c1 receipt note_message)
  then show thesis
    using that [of q p c1] q(2) p(2) docs0 docs1 id d by (simp add: handle_message_def handle_raw_put_def)
qed

lemma serve_fire:
  assumes laws: "peer_laws docs ops" and d: "rd_schema_id d = FIRE_COMMAND_SCHEMA_ID"
    and command: "t_unpack (po_command ops) (rd_payload d) = Inr command"
  obtains c1 q where
    "handle_message ops outbox config (peer_registry S) schemas (DocumentPutRaw mid d) (server_end box c)
      = (Inr (), server_end (box @ [DocumentPutRaw (pc_runtime_id config @ ''-fire-receipt'')
             (put_record (response_options config ''side-effect'') (now_text ops) FIRE_RECEIPT_SCHEMA_ID (fc_command_id command) q)]) c1)"
    "t_unpack (po_shot ops) q = Inr (shot_for command)"
    "docs c1 = (docs c)((FIRE_COMMAND_TYPE, rd_record_key d) \<mapsto> rd_payload d)"
proof -
  note L = peer_lawsD [OF laws]
  obtain c1 where c1: "apply_raw_document_put_message (po_command ops) (command_cache ops) (peer_registry S) (DocumentPutRaw mid d) c = (Inr command, c1)"
    and docs1: "docs c1 = (docs c)((FIRE_COMMAND_TYPE, rd_record_key d) \<mapsto> rd_payload d)"
    using apply_put [OF L(9) _ d command, of S mid c] by (auto simp: L(4) peer_schemas)
  obtain q where q: "t_pack (po_shot ops) (shot_for command) = Inr q" "t_unpack (po_shot ops) q = Inr (shot_for command)"
    using packed [OF L(10)] by blast
  have receipt_id: "fr_command_id (shot_for command) = fc_command_id command" by (simp add: shot_for_def)
  have receipt: "create_raw_document_put_message (po_shot ops) (now_text ops) (peer_registry S) m
      (fr_command_id (shot_for command)) (shot_for command) opts
      = Inr (DocumentPutRaw m (put_record opts (now_text ops) FIRE_RECEIPT_SCHEMA_ID (fc_command_id command) q))" for m opts
    unfolding receipt_id by (rule create_put) (simp_all add: L(5) peer_schemas q(1))
  have "handle_fire ops outbox config (peer_registry S) (DocumentPutRaw mid d) (server_end box c)
      = (Inr (), server_end (box @ [DocumentPutRaw (pc_runtime_id config @ ''-fire-receipt'')
             (put_record (response_options config ''side-effect'') (now_text ops) FIRE_RECEIPT_SCHEMA_ID (fc_command_id command) q)]) c1)"
    unfolding handle_fire_def Let_def by (simp add: server_cache c1 receipt)
  then show thesis
    using that [of q c1] q(2) docs1 d by (simp add: handle_message_def handle_raw_put_def)
qed

section \<open>The client's requests\<close>

lemma peer_type_schemas:
  assumes "peer_laws docs ops"
  shows "peer_schema S (t_type (po_note ops)) = Some S"
    "peer_schema S (t_type (po_receipt ops)) = Some MUTATION_RECEIPT_SCHEMA_ID"
    "peer_schema S (t_type (po_shot ops)) = Some FIRE_RECEIPT_SCHEMA_ID"
  by (simp_all add: peer_lawsD [OF assms] peer_schemas)

lemma mutate_session:
  assumes laws: "peer_laws docs ops"
    and n: "docs c (INTEROP_DOCUMENT_TYPE, in_document_id n) = Some b" "t_unpack (po_note ops) b = Inr n"
  obtains c1 d1 i p where
    "mutate_remote_note ops (served_by ops config (peer_registry S) schemas) (peer_registry S) S rid n (client [] c d)
      = (Inr (decorated (decorate_intent rid n) n), client [] c1 d1)"
    "docs c1 = (docs c)((MUTATION_INTENT_TYPE, rid @ ''-decorate'') \<mapsto> i, (INTEROP_DOCUMENT_TYPE, in_document_id n) \<mapsto> p)"
    "t_unpack (po_note ops) p = Inr (decorated (decorate_intent rid n) n)"
proof -
  note L = peer_lawsD [OF laws]
  let ?i = "decorate_intent rid n"
  let ?n = "decorated ?i n"
  have fields: "mi_intent_id ?i = rid @ ''-decorate''" "mi_target_document_id ?i = in_document_id n"
    by (simp_all add: decorate_intent_def)
  obtain i where i: "t_pack (po_intent ops) ?i = Inr i" "t_unpack (po_intent ops) i = Inr ?i" using packed [OF L(7)] by blast
  let ?d = "put_record no_put_options (now_text ops) MUTATION_INTENT_SCHEMA_ID (rid @ ''-decorate'') i"
  have request: "create_raw_document_put_message (po_intent ops) (now_text ops) (peer_registry S) m (mi_intent_id ?i) ?i no_put_options
      = Inr (DocumentPutRaw m ?d)" for m
    unfolding fields(1) by (rule create_put) (simp_all add: L(2) peer_schemas i(1))
  obtain c1 q p where serve: "handle_message ops outbox config (peer_registry S) schemas (DocumentPutRaw (rid @ ''-decorate-put'') ?d) (server_end [] c)
      = (Inr (), server_end ([] @
          [DocumentPutRaw (pc_runtime_id config @ ''-mutation-receipt'')
             (put_record (response_options config ''mutation'') (now_text ops) MUTATION_RECEIPT_SCHEMA_ID (mi_intent_id ?i) q),
           DocumentPutRaw (pc_runtime_id config @ ''-mutated-note'')
             (put_record (response_options config ''mutation'') (now_text ops) S (in_document_id n) p)]) c1)"
    and q: "t_unpack (po_receipt ops) q = Inr (receipt_for ?i ?n)" and p: "t_unpack (po_note ops) p = Inr ?n"
    and docs1: "docs c1 = (docs c)((MUTATION_INTENT_TYPE, rd_record_key ?d) \<mapsto> rd_payload ?d, (INTEROP_DOCUMENT_TYPE, in_document_id n) \<mapsto> p)"
    by (rule serve_intent [OF laws, where d = ?d and intent = ?i and mid = "rid @ ''-decorate-put''" and box = "[]" and c = c and b = b and old = n and config = config and S = S and schemas = schemas])
      (simp_all add: fields i(2) n)
  obtain d0 where d0: "apply_raw_document_put_message (po_receipt ops) (receipt_cache ops) (peer_registry S)
      (DocumentPutRaw (pc_runtime_id config @ ''-mutation-receipt'')
        (put_record (response_options config ''mutation'') (now_text ops) MUTATION_RECEIPT_SCHEMA_ID (mi_intent_id ?i) q)) d
      = (Inr (receipt_for ?i ?n), d0)"
    by (rule apply_put [OF L(8) peer_type_schemas(2) [OF laws], where d = "put_record (response_options config ''mutation'') (now_text ops) MUTATION_RECEIPT_SCHEMA_ID (mi_intent_id ?i) q" and v = "receipt_for ?i ?n" and mid = "pc_runtime_id config @ ''-mutation-receipt''" and c = d])
      (simp_all add: q)
  obtain d1 where d1: "apply_raw_document_put_message (po_note ops) (note_cache ops) (peer_registry S)
      (DocumentPutRaw (pc_runtime_id config @ ''-mutated-note'')
        (put_record (response_options config ''mutation'') (now_text ops) S (in_document_id n) p)) d0 = (Inr ?n, d1)"
    by (rule apply_put [OF L(6) peer_type_schemas(1) [OF laws], where d = "put_record (response_options config ''mutation'') (now_text ops) S (in_document_id n) p" and v = "?n" and mid = "pc_runtime_id config @ ''-mutated-note''" and c = d0])
      (simp_all add: p)
  have "mutate_remote_note ops (served_by ops config (peer_registry S) schemas) (peer_registry S) S rid n (client [] c d)
      = (Inr ?n, client [] c1 d1)"
    unfolding mutate_remote_note_def Let_def
    by (simp add: request client_send [OF serve] client_read client_cache d0 d1 mutated_message_schema_id_def)
  with docs1 p that show thesis by simp
qed

lemma fire_session:
  assumes laws: "peer_laws docs ops"
  obtains c1 d1 f where
    "fire_remote_weapon ops (served_by ops config (peer_registry S) schemas) (peer_registry S) rid remote_id (client [] c d)
      = (Inr (shot_for (rifle_command rid remote_id)), client [] c1 d1)"
    "docs c1 = (docs c)((FIRE_COMMAND_TYPE, rid @ ''-fire'') \<mapsto> f)"
proof -
  note L = peer_lawsD [OF laws]
  let ?c = "rifle_command rid remote_id"
  have key: "fc_command_id ?c = rid @ ''-fire''" by (simp add: rifle_command_def)
  obtain f where f: "t_pack (po_command ops) ?c = Inr f" "t_unpack (po_command ops) f = Inr ?c" using packed [OF L(9)] by blast
  let ?d = "put_record no_put_options (now_text ops) FIRE_COMMAND_SCHEMA_ID (rid @ ''-fire'') f"
  have request: "create_raw_document_put_message (po_command ops) (now_text ops) (peer_registry S) m (fc_command_id ?c) ?c no_put_options
      = Inr (DocumentPutRaw m ?d)" for m
    unfolding key by (rule create_put) (simp_all add: L(4) peer_schemas f(1))
  obtain c1 q where serve: "handle_message ops outbox config (peer_registry S) schemas (DocumentPutRaw (rid @ ''-fire-put'') ?d) (server_end [] c)
      = (Inr (), server_end ([] @ [DocumentPutRaw (pc_runtime_id config @ ''-fire-receipt'')
             (put_record (response_options config ''side-effect'') (now_text ops) FIRE_RECEIPT_SCHEMA_ID (fc_command_id ?c) q)]) c1)"
    and q: "t_unpack (po_shot ops) q = Inr (shot_for ?c)"
    and docs1: "docs c1 = (docs c)((FIRE_COMMAND_TYPE, rd_record_key ?d) \<mapsto> rd_payload ?d)"
    by (rule serve_fire [OF laws, where d = ?d and command = ?c and mid = "rid @ ''-fire-put''" and box = "[]" and c = c and config = config and S = S and schemas = schemas])
      (simp_all add: f(2))
  obtain d1 where d1: "apply_raw_document_put_message (po_shot ops) (shot_cache ops) (peer_registry S)
      (DocumentPutRaw (pc_runtime_id config @ ''-fire-receipt'')
        (put_record (response_options config ''side-effect'') (now_text ops) FIRE_RECEIPT_SCHEMA_ID (fc_command_id ?c) q)) d = (Inr (shot_for ?c), d1)"
    by (rule apply_put [OF L(10) peer_type_schemas(3) [OF laws], where d = "put_record (response_options config ''side-effect'') (now_text ops) FIRE_RECEIPT_SCHEMA_ID (fc_command_id ?c) q" and v = "shot_for ?c" and mid = "pc_runtime_id config @ ''-fire-receipt''" and c = d])
      (simp_all add: q)
  have "fire_remote_weapon ops (served_by ops config (peer_registry S) schemas) (peer_registry S) rid remote_id (client [] c d)
      = (Inr (shot_for ?c), client [] c1 d1)"
    unfolding fire_remote_weapon_def Let_def
    by (simp add: request client_send [OF serve] client_read client_cache d1)
  with docs1 that show thesis by simp
qed

lemma apply_notes:
  assumes laws: "peer_laws docs ops"
    and es: "list_all (\<lambda>e. ev_type e = INTEROP_DOCUMENT_TYPE \<and> is_ok (t_unpack (po_note ops) (ev_payload e))) es"
  shows "\<exists>d1. apply_raw_snapshot_response (po_note ops) (note_cache ops) (peer_registry S)
      (SnapshotResponseRaw mid (map (served_record config S) es)) d
      = (Inr (map (\<lambda>e. projr (t_unpack (po_note ops) (ev_payload e))) es), d1)"
proof -
  note L = peer_lawsD [OF laws]
  have schema: "peer_schema S (t_type (po_note ops)) = Some S" by (simp add: L(1) peer_schemas)
  then obtain b where b: "require_binding (peer_registry S) (t_type (po_note ops)) = Inr b" "db_schema_id b = S"
    by (rule require_peer_binding)
  have "\<exists>d1. apply_all (\<lambda>r. apply_raw_document_put_message (po_note ops) (note_cache ops) (peer_registry S) (DocumentPutRaw m r))
      rd_schema_id S (map (served_record config S) es) d = (Inr (map (\<lambda>e. projr (t_unpack (po_note ops) (ev_payload e))) es), d1)" for m
    using es
  proof (induction es arbitrary: d)
    case (Cons e es)
    then obtain v where v: "t_unpack (po_note ops) (ev_payload e) = Inr v" and e: "ev_type e = INTEROP_DOCUMENT_TYPE"
      by (auto simp: is_ok_iff)
    obtain d0 where d0: "apply_raw_document_put_message (po_note ops) (note_cache ops) (peer_registry S)
        (DocumentPutRaw m (served_record config S e)) d = (Inr v, d0)"
      by (rule apply_put [OF L(6) schema, where d = "served_record config S e" and v = v and mid = m and c = d]) (simp_all add: e peer_schemas v)
    from Cons.IH [of d0] Cons.prems show ?case by (auto simp: d0 v e peer_schemas)
  qed simp
  then show ?thesis by (simp add: apply_raw_snapshot_response_def b)
qed

section \<open>The session\<close>

text \<open>
  What a peer serves: its schema is in the catalogue, all cached documents can be served, all notes
  can be read, and the only note the peer itself has written is \<open>n\<close>, under its document id.
\<close>

definition serves_note ::
  "('c, 'j) peer_ops \<Rightarrow> string \<Rightarrow> peer_config \<Rightarrow> schema_registry \<Rightarrow> interop_note \<Rightarrow> envelope list \<Rightarrow> bool" where
  "serves_note ops S config schemas n es \<longleftrightarrow>
     list_ex (\<lambda>d. sd_schema_id d = S \<and> sd_document_type d = Some INTEROP_DOCUMENT_TYPE) (bt_values schemas)
     \<and> list_all (servable S) es
     \<and> list_all (\<lambda>e. ev_type e = INTEROP_DOCUMENT_TYPE \<longrightarrow>
          is_ok (t_unpack (po_note ops) (ev_payload e))
          \<and> (in_author_runtime_id (projr (t_unpack (po_note ops) (ev_payload e))) = pc_runtime_id config \<longrightarrow>
               projr (t_unpack (po_note ops) (ev_payload e)) = n)) es
     \<and> list_ex (\<lambda>e. ev_type e = INTEROP_DOCUMENT_TYPE \<and> ev_key e = in_document_id n
          \<and> t_unpack (po_note ops) (ev_payload e) = Inr n) es
     \<and> in_author_runtime_id n = pc_runtime_id config"

lemma find_unique:
  assumes "x \<in> set xs" "P x" "\<And>y. y \<in> set xs \<Longrightarrow> P y \<Longrightarrow> y = x"
  shows "List.find P xs = Some x"
proof -
  obtain y where y: "List.find P xs = Some y"
    using assms(1,2) by (cases "List.find P xs") (auto simp: find_None_iff)
  then have "y \<in> set xs" "P y" by (auto simp: find_Some_iff)
  with assms(3) y show ?thesis by simp
qed

lemma named_suffix: "utf8_valid s \<Longrightarrow> named (s @ ''-snapshot'')"
proof -
  assume valid: "utf8_valid s"
  then obtain cs where "utf8_decode (char_codes s) = Some cs" by (auto simp: utf8_valid_def)
  then have "code_points (s @ ''-snapshot'') = cs @ code_points ''-snapshot''"
    by (simp add: code_points_def char_codes_def utf8_decode_append utf8_decode_ascii)
  moreover have "\<not> list_all is_whitespace (code_points ''-snapshot'')" by code_simp
  ultimately show ?thesis by (simp add: named_def trim_is_empty_def)
qed


section \<open>Applied to the sample peer\<close>

lemma string_codec_simps [simp]:
  "t_type (string_codec ty f g) = ty" "t_pack (string_codec ty f g) v = Inr (pack_fields (f v))"
  "t_unpack (string_codec ty f g) b = Inr (g (unpack_fields [] b))"
  by (simp_all add: string_codec_def)

lemma store_view: "(\<And>v. g (f v) = v) \<Longrightarrow> view_laws map_of (string_codec ty f g) (store_ops (string_codec ty f g))"
  by (auto simp: view_laws_def codec_laws_def store_ops_def split: sum.splits)

lemma store_snapshot_laws: "snapshot_laws map_of store_snapshot"
proof -
  have key: "(ev_type (stored_envelope c p), ev_key (stored_envelope c p)) = p" for c p by (simp add: stored_envelope_def)
  have "map_of c p = Some (ev_payload (stored_envelope c p))" if "p \<in> set (map fst c)" for c p
    using that by (cases "map_of c p") (auto simp: stored_envelope_def map_of_eq_None_iff)
  moreover have "p \<in> set (map fst c)" if "map_of c p = Some b" for c p b
    using map_of_SomeD [OF that] by force
  ultimately show ?thesis by (auto simp: snapshot_laws_def store_snapshot_def comp_def key)
qed

lemma sample_peer_laws: "peer_laws map_of sample_peer"
  unfolding peer_laws_def sample_peer_def note_type_def intent_type_def receipt_type_def command_type_def shot_type_def
  by (simp add: store_view store_snapshot_laws) (simp add: store_ops_def store_snapshot_laws)


end
