(* ===== verification/PeerWire.thy ===== *)
theory PeerWire
  imports PeerSession
begin

text \<open>
  The connection of the peer at the level of bytes against its server at the level of messages: what
  \<open>handle_connection\<close> does to a TCP stream is what the handlers do to a list of answers, encoded.
\<close>

section \<open>A stream with two directions\<close>

text \<open>
  Reading takes from the bytes the other side has sent and writing appends to those sent back; once
  the other side has closed, a read that asks for more than is left fails with an end-of-file error.
\<close>

definition duplex_laws :: "'s stream_ops \<Rightarrow> (string \<Rightarrow> bool) \<Rightarrow> ('s \<Rightarrow> bytes) \<Rightarrow> ('s \<Rightarrow> bytes) \<Rightarrow> bool" where
  "duplex_laws ops eof input written \<longleftrightarrow>
     (\<forall>b s. \<exists>s1. s_write_all ops b s = (Inr (), s1) \<and> input s1 = input s \<and> written s1 = written s @ b)
     \<and> (\<forall>s. \<exists>s1. s_flush ops s = (Inr (), s1) \<and> input s1 = input s \<and> written s1 = written s)
     \<and> (\<forall>n s. n \<le> length (input s) \<longrightarrow>
          (\<exists>s1. s_read_exact ops n s = (Inr (take n (input s)), s1) \<and> input s1 = drop n (input s) \<and> written s1 = written s))
     \<and> (\<forall>n s. length (input s) < n \<longrightarrow> (\<exists>e s1. s_read_exact ops n s = (Inl e, s1) \<and> eof e \<and> written s1 = written s))"

lemma duplex_lawsD:
  assumes "duplex_laws ops eof input written"
  shows "\<exists>s1. s_write_all ops b s = (Inr (), s1) \<and> input s1 = input s \<and> written s1 = written s @ b"
    "\<exists>s1. s_flush ops s = (Inr (), s1) \<and> input s1 = input s \<and> written s1 = written s"
    "n \<le> length (input s) \<Longrightarrow>
       \<exists>s1. s_read_exact ops n s = (Inr (take n (input s)), s1) \<and> input s1 = drop n (input s) \<and> written s1 = written s"
    "length (input s) < n \<Longrightarrow> \<exists>e s1. s_read_exact ops n s = (Inl e, s1) \<and> eof e \<and> written s1 = written s"
  using assms by (auto simp: duplex_laws_def)

lemma sendable_payload:
  assumes "sendable w sd m"
  obtains payload where "encode_cultnet_message_to_vec w sd m CultNetSchemaV0 = Inr payload" "length payload < 2 ^ 32"
    "message_bytes w sd m = u32_to_be (of_nat (length payload)) @ payload"
  using assms that by (auto simp: sendable_def message_bytes_def split: sum.splits)

lemma duplex_send:
  assumes "duplex_laws ops eof input written" "sendable w sd m"
  shows "\<exists>s1. send_message w sd ops m s = (Inr (), s1) \<and> input s1 = input s \<and> written s1 = written s @ message_bytes w sd m"
proof -
  obtain payload where p: "encode_cultnet_message_to_vec w sd m CultNetSchemaV0 = Inr payload" "length payload < 2 ^ 32"
      "message_bytes w sd m = u32_to_be (of_nat (length payload)) @ payload"
    using assms(2) by (rule sendable_payload)
  then have frame: "encode_frame payload = Inr (message_bytes w sd m)" by (simp add: encode_frame_def)
  obtain s1 where s1: "s_write_all ops (message_bytes w sd m) s = (Inr (), s1)" "input s1 = input s"
      "written s1 = written s @ message_bytes w sd m"
    using duplex_lawsD(1) [OF assms(1)] by blast
  obtain s2 where s2: "s_flush ops s1 = (Inr (), s2)" "input s2 = input s1" "written s2 = written s1"
    using duplex_lawsD(2) [OF assms(1)] by blast
  show ?thesis by (simp add: send_message_def and_then_def pure_def p(1) frame s1 s2)
qed

lemma duplex_read:
  assumes "duplex_laws ops eof input written" "rmpv_laws w" "serde_laws w sd" "sendable w sd m"
    and "input s = message_bytes w sd m @ rest"
  shows "\<exists>s1. read_message w sd ops s = (Inr m, s1) \<and> input s1 = rest \<and> written s1 = written s"
proof -
  obtain payload where p: "encode_cultnet_message_to_vec w sd m CultNetSchemaV0 = Inr payload" "length payload < 2 ^ 32"
      "message_bytes w sd m = u32_to_be (of_nat (length payload)) @ payload"
    using assms(4) by (rule sendable_payload)
  let ?h = "u32_to_be (of_nat (length payload))"
  note read = duplex_lawsD(3) [OF assms(1)]
  obtain s1 where s1: "s_read_exact ops 4 s = (Inr ?h, s1)" "input s1 = payload @ rest" "written s1 = written s"
    using read [of 4 s] by (auto simp: assms(5) p(3))
  have len: "unat (of_nat (length payload) :: u32) = length payload" using p(2) by (rule unat_of_nat_u32)
  obtain s2 where s2: "s_read_exact ops (length payload) s1 = (Inr payload, s2)" "input s2 = rest" "written s2 = written s1"
    using read [of "length payload" s1] by (auto simp: s1)
  show ?thesis
    using decode_encoded [OF assms(2,3) p(1)] by (simp add: read_message_def and_then_def pure_def s1 s2 len)
qed

lemma duplex_closed:
  assumes "duplex_laws ops eof input written" "input s = []"
  shows "\<exists>e s1. read_message w sd ops s = (Inl (PeerIo e), s1) \<and> eof e \<and> written s1 = written s"
  using duplex_lawsD(4) [OF assms(1), of s 4] by (auto simp: assms(2) read_message_def and_then_def)

section \<open>Answers and bytes\<close>

named_theorems sim_intro

text \<open>A step of the server only adds answers.\<close>

definition grows :: "(('j cultnet_message list, 'c) endpoint, 'a) step \<Rightarrow> bool" where
  "grows m \<longleftrightarrow> (\<forall>v. \<exists>more. ep_chan (snd (m v)) = ep_chan v @ more)"

lemma grows_pure [sim_intro]: "grows (pure r)"
  by (simp add: grows_def pure_def)

lemma grows_look [sim_intro]: "grows (look f)"
  by (simp add: grows_def look_def)

lemma grows_on_cache [sim_intro]: "grows (on_cache wrap m)"
  by (simp add: grows_def on_cache_def split: prod.splits)

lemma grows_send [sim_intro]: "grows (send_to outbox m)"
  by (simp add: grows_def send_to_def on_chan_def outbox_def)

lemma grows_and_then [sim_intro]: "grows m \<Longrightarrow> (\<And>a. grows (f a)) \<Longrightarrow> grows (and_then m f)"
  unfolding grows_def and_then_def by (simp split: prod.splits sum.splits) (metis append.assoc snd_conv)

text \<open>
  The server with its list of answers and the connection with its stream: the same cache, the same
  bytes to read, and on the stream the encoded answers after what was there before.
\<close>

definition answers_written ::
  "'v wire_ops \<Rightarrow> ('v, 'j) serde_ops \<Rightarrow> ('s \<Rightarrow> bytes) \<Rightarrow> ('s \<Rightarrow> bytes) \<Rightarrow> bytes \<Rightarrow> bytes
     \<Rightarrow> ('j cultnet_message list, 'c) endpoint \<Rightarrow> ('s, 'c) endpoint \<Rightarrow> bool" where
  "answers_written w sd input written unread before v u \<longleftrightarrow> ep_cache u = ep_cache v \<and> input (ep_chan u) = unread
     \<and> written (ep_chan u) = before @ concat (map (message_bytes w sd) (ep_chan v))"

definition simulates ::
  "'v wire_ops \<Rightarrow> ('v, 'j) serde_ops \<Rightarrow> ('s \<Rightarrow> bytes) \<Rightarrow> ('s \<Rightarrow> bytes)
     \<Rightarrow> (('j cultnet_message list, 'c) endpoint, 'a) step \<Rightarrow> (('s, 'c) endpoint, 'a) step \<Rightarrow> bool" where
  "simulates w sd input written m n \<longleftrightarrow> (\<forall>unread before v u. answers_written w sd input written unread before v u \<longrightarrow>
     list_all (sendable w sd) (ep_chan (snd (m v))) \<longrightarrow>
       fst (n u) = fst (m v) \<and> answers_written w sd input written unread before (snd (m v)) (snd (n u)))"

lemma simulates_pure [sim_intro]: "simulates w sd input written (pure r) (pure r)"
  by (simp add: simulates_def pure_def)

lemma simulates_look [sim_intro]: "simulates w sd input written (look f) (look f)"
  by (simp add: simulates_def look_def answers_written_def)

lemma simulates_on_cache [sim_intro]: "simulates w sd input written (on_cache wrap m) (on_cache wrap m)"
  by (simp add: simulates_def on_cache_def answers_written_def split: prod.splits)

lemma simulates_send [sim_intro]:
  assumes "duplex_laws ops eof input written"
  shows "simulates w sd input written (send_to outbox m) (send_to (stream_chan w sd ops) m)"
  unfolding simulates_def
proof (intro allI impI)
  fix unread before v u
  assume rel: "answers_written w sd input written unread before v u"
    and "list_all (sendable w sd) (ep_chan (snd (send_to outbox m v)))"
  then have "sendable w sd m" by (simp add: send_to_def on_chan_def outbox_def)
  from duplex_send [OF assms this, of "ep_chan u"] rel
  show "fst (send_to (stream_chan w sd ops) m u) = fst (send_to outbox m v)
    \<and> answers_written w sd input written unread before (snd (send_to outbox m v)) (snd (send_to (stream_chan w sd ops) m u))"
    by (auto simp: send_to_def on_chan_def outbox_def stream_chan_def answers_written_def)
qed

lemma simulates_and_then [sim_intro]:
  assumes "simulates w sd input written m n" "\<And>a. grows (f a)" "\<And>a. simulates w sd input written (f a) (g a)"
  shows "simulates w sd input written (and_then m f) (and_then n g)"
  unfolding simulates_def
proof (intro allI impI)
  fix unread before v u
  assume rel: "answers_written w sd input written unread before v u"
    and all: "list_all (sendable w sd) (ep_chan (snd (and_then m f v)))"
  obtain r v1 where m: "m v = (r, v1)" by fastforce
  obtain q u1 where n: "n u = (q, u1)" by fastforce
  have "list_all (sendable w sd) (ep_chan v1)"
  proof (cases r)
    case (Inl e)
    with all m show ?thesis by (simp add: and_then_def)
  next
    case (Inr a)
    with assms(2) [of a] obtain more where "ep_chan (snd (f a v1)) = ep_chan v1 @ more" unfolding grows_def by blast
    with all m Inr show ?thesis by (simp add: and_then_def)
  qed
  with assms(1) rel m n have first: "q = r" "answers_written w sd input written unread before v1 u1"
    unfolding simulates_def by (metis fst_conv snd_conv)+
  show "fst (and_then n g u) = fst (and_then m f v)
    \<and> answers_written w sd input written unread before (snd (and_then m f v)) (snd (and_then n g u))"
  proof (cases r)
    case (Inl e)
    with first m n show ?thesis by (simp add: and_then_def)
  next
    case (Inr a)
    with all m have "list_all (sendable w sd) (ep_chan (snd (f a v1)))" by (simp add: and_then_def)
    with assms(3) [of a] first(2) have "fst (g a u1) = fst (f a v1)
        \<and> answers_written w sd input written unread before (snd (f a v1)) (snd (g a u1))"
      unfolding simulates_def by blast
    with first m n Inr show ?thesis by (simp add: and_then_def)
  qed
qed

lemma handle_message_grows: "grows (handle_message pops outbox config reg schemas message)"
  unfolding handle_message_def handle_raw_put_def handle_intent_def handle_fire_def Let_def
  by (auto split: cultnet_message.splits intro!: sim_intro)

lemma handle_message_simulates:
  assumes "duplex_laws ops eof input written"
  shows "simulates w sd input written (handle_message pops outbox config reg schemas message)
    (handle_message pops (stream_chan w sd ops) config reg schemas message)"
  unfolding handle_message_def handle_raw_put_def handle_intent_def handle_fire_def Let_def
  by (cases message) (auto intro!: sim_intro simulates_send [OF assms])

section \<open>A whole connection\<close>

text \<open>The server without a wire: each message is handled, until one fails.\<close>

fun serve_messages ::
  "('c, 'j) peer_ops \<Rightarrow> peer_config \<Rightarrow> document_registry \<Rightarrow> schema_registry \<Rightarrow> 'j cultnet_message list
     \<Rightarrow> (('j cultnet_message list, 'c) endpoint, unit) step" where
  "serve_messages pops config reg schemas [] = pure (Ok ())"
| "serve_messages pops config reg schemas (m # ms) =
     and_then (handle_message pops outbox config reg schemas m) (\<lambda>_. serve_messages pops config reg schemas ms)"

lemma serve_messages_grows: "grows (serve_messages pops config reg schemas ms)"
  by (induction ms) (simp_all only: serve_messages.simps grows_pure grows_and_then handle_message_grows)

lemma connection_serves:
  assumes laws: "duplex_laws ops eof input written" "rmpv_laws w" "serde_laws w sd"
    and "list_all (sendable w sd) ms"
    and "answers_written w sd input written (concat (map (message_bytes w sd) ms)) before v u"
    and "serve_messages pops config reg schemas ms v = (r, v1)" "list_all (sendable w sd) (ep_chan v1)"
  shows "\<exists>u1. handle_connection eof pops (stream_chan w sd ops) config reg schemas u = Some (r, u1)
    \<and> ep_cache u1 = ep_cache v1 \<and> written (ep_chan u1) = before @ concat (map (message_bytes w sd) (ep_chan v1))"
  using assms(4-)
proof (induction ms arbitrary: v u)
  case Nil
  then have "input (ep_chan u) = []" by (simp add: answers_written_def)
  from duplex_closed [OF laws(1) this, of w sd] obtain e s1 where
    "read_message w sd ops (ep_chan u) = (Inl (PeerIo e), s1)" "eof e" "written s1 = written (ep_chan u)" by blast
  with Nil show ?case
    by (subst handle_connection.simps)
      (auto simp: on_chan_def stream_chan_def is_eof_like_def answers_written_def pure_def)
next
  case (Cons m ms)
  let ?ch = "stream_chan w sd ops"
  let ?rest = "concat (map (message_bytes w sd) ms)"
  have sendable: "sendable w sd m" "list_all (sendable w sd) ms" using Cons.prems(1) by simp_all
  have "input (ep_chan u) = message_bytes w sd m @ ?rest" using Cons.prems(2) by (simp add: answers_written_def)
  from duplex_read [OF laws sendable(1) this] obtain s1 where
    s1: "read_message w sd ops (ep_chan u) = (Inr m, s1)" "input s1 = ?rest" "written s1 = written (ep_chan u)" by blast
  let ?u = "u\<lparr>ep_chan := s1\<rparr>"
  have read: "on_chan (ch_read ?ch) u = (Inr m, ?u)" by (simp add: on_chan_def stream_chan_def s1)
  have rel: "answers_written w sd input written ?rest before v ?u"
    using Cons.prems(2) s1 by (simp add: answers_written_def)
  obtain q v2 where v2: "handle_message pops outbox config reg schemas m v = (q, v2)" by fastforce
  obtain p u2 where u2: "handle_message pops ?ch config reg schemas m ?u = (p, u2)" by fastforce
  have "list_all (sendable w sd) (ep_chan v2)"
  proof (cases q)
    case (Inl e)
    with Cons.prems(3,4) v2 show ?thesis by (simp add: and_then_def)
  next
    case (Inr a)
    obtain more where "ep_chan (snd (serve_messages pops config reg schemas ms v2)) = ep_chan v2 @ more"
      using serve_messages_grows unfolding grows_def by blast
    with Cons.prems(3,4) v2 Inr show ?thesis by (simp add: and_then_def)
  qed
  with handle_message_simulates [OF laws(1), of w sd pops config reg schemas m] rel v2 u2
  have step: "p = q" "answers_written w sd input written ?rest before v2 u2"
    unfolding simulates_def by (metis fst_conv snd_conv)+
  show ?case
  proof (cases q)
    case (Inl e)
    with Cons.prems(3) v2 have "r = Inl e" "v1 = v2" by (auto simp: and_then_def)
    with Inl step read u2 show ?thesis
      by (subst handle_connection.simps) (simp add: answers_written_def)
  next
    case (Inr a)
    with Cons.prems(3) v2 have "serve_messages pops config reg schemas ms v2 = (r, v1)" by (simp add: and_then_def)
    from Cons.IH [OF sendable(2) step(2) this Cons.prems(4)] Inr step(1) read u2 show ?thesis
      by (subst handle_connection.simps) simp
  qed
qed


section \<open>Applied to the sample peer\<close>

lemma duplex_ops_laws: "duplex_laws duplex_ops (\<lambda>e. e = ''unexpected end of file'') fst snd"
  by (auto simp: duplex_laws_def duplex_ops_def)

definition sample_answer :: "unit cultnet_message" where
  "sample_answer = SnapshotResponseRaw ''m1''
     [served_record sample_config ''note-schema'' (stored_envelope sample_store (INTEROP_DOCUMENT_TYPE, ''note:rust''))]"


end
