(* ===== verification/PeerShared.thy ===== *)
theory PeerShared
  imports PeerSession
begin

text \<open>
  The server with all its connections: one thread per connection, one cache behind a lock. Handlers
  touch the cache only while they hold the lock (\<open>handle_raw_put\<close> from the lookup of the note to its
  last answer), and what they do outside of it is on their own stream, so the runs of the program are
  the interleavings of whole handled messages. The other sides may change their streams at any time.
\<close>

section \<open>The server as a transition system\<close>

record ('k, 'c) server =
  sv_cache :: 'c
  sv_streams :: "nat \<Rightarrow> 'k option"

datatype 'j server_event = Accepted nat | Arrived nat | Handled nat "'j cultnet_message" bool | Ended nat

definition at_stream :: "('k, 'c) server \<Rightarrow> 'k \<Rightarrow> ('k, 'c) endpoint" where
  "at_stream s k = \<lparr> ep_chan = k, ep_cache = sv_cache s \<rparr>"

inductive server_step ::
  "('c, 'j) peer_ops \<Rightarrow> ('k, 'j) chan \<Rightarrow> peer_config \<Rightarrow> document_registry \<Rightarrow> schema_registry
     \<Rightarrow> ('k, 'c) server \<Rightarrow> 'j server_event \<Rightarrow> ('k, 'c) server \<Rightarrow> bool"
  for ops ch config reg schemas where
  accepted: "sv_streams s i = None \<Longrightarrow>
     server_step ops ch config reg schemas s (Accepted i) (s\<lparr>sv_streams := (sv_streams s)(i \<mapsto> k)\<rparr>)"
| arrived: "sv_streams s i = Some k \<Longrightarrow>
     server_step ops ch config reg schemas s (Arrived i) (s\<lparr>sv_streams := (sv_streams s)(i \<mapsto> k1)\<rparr>)"
| handled: "sv_streams s i = Some k \<Longrightarrow> on_chan (ch_read ch) (at_stream s k) = (Inr m, ep1) \<Longrightarrow>
     handle_message ops ch config reg schemas m ep1 = (r, ep2) \<Longrightarrow>
     server_step ops ch config reg schemas s (Handled i m (is_ok r))
       (s\<lparr>sv_cache := ep_cache ep2, sv_streams := (sv_streams s)(i := if is_ok r then Some (ep_chan ep2) else None)\<rparr>)"
| ended: "sv_streams s i = Some k \<Longrightarrow> on_chan (ch_read ch) (at_stream s k) = (Inl e, ep1) \<Longrightarrow>
     server_step ops ch config reg schemas s (Ended i) (s\<lparr>sv_streams := (sv_streams s)(i := None)\<rparr>)"

inductive server_run ::
  "('c, 'j) peer_ops \<Rightarrow> ('k, 'j) chan \<Rightarrow> peer_config \<Rightarrow> document_registry \<Rightarrow> schema_registry
     \<Rightarrow> ('k, 'c) server \<Rightarrow> 'j server_event list \<Rightarrow> ('k, 'c) server \<Rightarrow> bool"
  for ops ch config reg schemas where
  run_none: "server_run ops ch config reg schemas s [] s"
| run_more: "server_step ops ch config reg schemas s e s1 \<Longrightarrow> server_run ops ch config reg schemas s1 es s2 \<Longrightarrow>
     server_run ops ch config reg schemas s (e # es) s2"

section \<open>What a handler does to the notes\<close>

text \<open>
  The further laws of the cache: bytes that are no document are refused and change nothing, and a
  note is found only if it is stored.
\<close>

definition refuses :: "'c docs \<Rightarrow> ('a, 'j) type_ops \<Rightarrow> ('c, 'a) cache_ops \<Rightarrow> bool" where
  "refuses docs t cops \<longleftrightarrow> (\<forall>e c x. ev_type e = t_type t \<longrightarrow> t_unpack t (ev_payload e) = Inl x \<longrightarrow>
     \<not> is_ok (fst (c_put_envelope cops e c)) \<and> docs (snd (c_put_envelope cops e c)) = docs c)"

definition stored_note :: "'c docs \<Rightarrow> ('c, 'j) peer_ops \<Rightarrow> 'c \<Rightarrow> string \<Rightarrow> interop_note option" where
  "stored_note docs ops c k = Option.bind (docs c (INTEROP_DOCUMENT_TYPE, k)) (\<lambda>b.
     case t_unpack (po_note ops) b of Inl e \<Rightarrow> None | Inr n \<Rightarrow> Some n)"

definition shared_laws :: "'c docs \<Rightarrow> ('c, 'j) peer_ops \<Rightarrow> bool" where
  "shared_laws docs ops \<longleftrightarrow> peer_laws docs ops
     \<and> refuses docs (po_intent ops) (intent_cache ops) \<and> refuses docs (po_command ops) (command_cache ops)
     \<and> (\<forall>k c n. get_note ops k c = Inr n \<longrightarrow> stored_note docs ops c k = Some n)"

lemma shared_lawsD:
  assumes "shared_laws docs ops"
  shows "peer_laws docs ops" "refuses docs (po_intent ops) (intent_cache ops)"
    "refuses docs (po_command ops) (command_cache ops)" "get_note ops k c = Inr n \<Longrightarrow> stored_note docs ops c k = Some n"
  using assms by (auto simp: shared_laws_def)

text \<open>Notes are stored under their own document ids.\<close>

definition notes_keyed :: "'c docs \<Rightarrow> ('c, 'j) peer_ops \<Rightarrow> 'c \<Rightarrow> bool" where
  "notes_keyed docs ops c \<longleftrightarrow> (\<forall>k n. stored_note docs ops c k = Some n \<longrightarrow> in_document_id n = k)"

definition intent_of :: "('c, 'j) peer_ops \<Rightarrow> 'j cultnet_message \<Rightarrow> mutation_intent option" where
  "intent_of ops m = (case m of
     DocumentPutRaw mid d \<Rightarrow> if rd_schema_id d = MUTATION_INTENT_SCHEMA_ID
       then (case t_unpack (po_intent ops) (rd_payload d) of Inl e \<Rightarrow> None | Inr i \<Rightarrow> Some i) else None
   | _ \<Rightarrow> None)"

definition after_intent :: "mutation_intent option \<Rightarrow> (string \<Rightarrow> interop_note option) \<Rightarrow> string \<Rightarrow> interop_note option" where
  "after_intent intent notes = (case intent of
     None \<Rightarrow> notes
   | Some i \<Rightarrow> notes(mi_target_document_id i := map_option (decorated i) (notes (mi_target_document_id i))))"

lemma stored_note_other:
  "docs c1 = (docs c)((ty, k) \<mapsto> b) \<Longrightarrow> ty \<noteq> INTEROP_DOCUMENT_TYPE \<Longrightarrow> stored_note docs ops c1 = stored_note docs ops c"
  by (simp add: stored_note_def fun_eq_iff)

named_theorems cache_intro

definition keeps_cache :: "(('k, 'c) endpoint, 'a) step \<Rightarrow> bool" where
  "keeps_cache m \<longleftrightarrow> (\<forall>w. ep_cache (snd (m w)) = ep_cache w)"

lemma keeps_cacheD: "keeps_cache m \<Longrightarrow> ep_cache (snd (m w)) = ep_cache w"
  by (simp add: keeps_cache_def)

lemma keeps_cache_pure [cache_intro]: "keeps_cache (pure r)"
  by (simp add: keeps_cache_def pure_def)

lemma keeps_cache_look [cache_intro]: "keeps_cache (look f)"
  by (simp add: keeps_cache_def look_def)

lemma keeps_cache_send [cache_intro]: "keeps_cache (send_to ch m)"
  by (simp add: keeps_cache_def send_to_def on_chan_def split: prod.splits)

lemma keeps_cache_and_then [cache_intro]: "keeps_cache m \<Longrightarrow> (\<And>a. keeps_cache (f a)) \<Longrightarrow> keeps_cache (and_then m f)"
  unfolding keeps_cache_def and_then_def by (simp split: prod.splits sum.splits) (metis snd_conv)

lemma on_cache_at: "on_cache wrap m w = (case m (ep_cache w) of (r, c) \<Rightarrow> (raise wrap r, w\<lparr>ep_cache := c\<rparr>))"
  by (simp add: on_cache_def)

text \<open>A document of the wrong form changes nothing.\<close>

lemma apply_refused:
  assumes "refuses docs t cops" "peer_schema S (t_type t) = Some s" "rd_schema_id d = s" "t_unpack t (rd_payload d) = Inl x"
  obtains e c1 where "apply_raw_document_put_message t cops (peer_registry S) (DocumentPutRaw mid d) c = (Inl e, c1)" "docs c1 = docs c"
proof -
  obtain b where b: "require_binding (peer_registry S) (t_type t) = Inr b" "db_schema_id b = s" "db_document_type b = t_type t"
    using assms(2) by (rule require_peer_binding)
  let ?e = "\<lparr> ev_key = rd_record_key d, ev_type = t_type t, ev_payload = rd_payload d, ev_stored_at = rd_stored_at d, ev_schema_id = Some s \<rparr>"
  have "\<not> is_ok (fst (c_put_envelope cops ?e c))" "docs (snd (c_put_envelope cops ?e c)) = docs c"
    using assms(1,4) by (simp_all add: refuses_def)
  moreover have "apply_raw_document_put_message t cops (peer_registry S) (DocumentPutRaw mid d) c = cache_step (c_put_envelope cops ?e c)"
    using b assms(3) by (simp add: apply_raw_document_put_message_def)
  ultimately show thesis
    using that by (cases "c_put_envelope cops ?e c"; cases "fst (c_put_envelope cops ?e c)") (auto simp: cache_step_def is_ok_iff)
qed

lemma intent_notes:
  assumes laws: "shared_laws docs ops" and keyed: "notes_keyed docs ops (ep_cache w)"
    and d: "rd_schema_id d = MUTATION_INTENT_SCHEMA_ID"
  shows "stored_note docs ops (ep_cache (snd (handle_intent ops ch config (peer_registry S) (DocumentPutRaw mid d) w)))
    = after_intent (intent_of ops (DocumentPutRaw mid d)) (stored_note docs ops (ep_cache w))"
proof -
  note P = shared_lawsD [OF laws]
  note L = peer_lawsD [OF P(1)]
  have schema: "peer_schema S (t_type (po_intent ops)) = Some MUTATION_INTENT_SCHEMA_ID" by (simp add: L(2) peer_schemas)
  let ?w = "\<lambda>c. w\<lparr>ep_cache := c\<rparr>"
  show ?thesis
  proof (cases "t_unpack (po_intent ops) (rd_payload d)")
    case (Inl x)
    obtain e c1 where "apply_raw_document_put_message (po_intent ops) (intent_cache ops) (peer_registry S) (DocumentPutRaw mid d) (ep_cache w) = (Inl e, c1)"
      "docs c1 = docs (ep_cache w)"
      using apply_refused [OF P(2) schema d Inl] by blast
    moreover from this(2) have "stored_note docs ops c1 = stored_note docs ops (ep_cache w)"
      by (simp add: stored_note_def fun_eq_iff)
    ultimately show ?thesis
      using d Inl by (simp add: handle_intent_def and_then_def on_cache_at intent_of_def after_intent_def)
  next
    case (Inr i)
    obtain c1 where c1: "apply_raw_document_put_message (po_intent ops) (intent_cache ops) (peer_registry S) (DocumentPutRaw mid d) (ep_cache w) = (Inr i, c1)"
      and docs1: "docs c1 = (docs (ep_cache w))((t_type (po_intent ops), rd_record_key d) \<mapsto> rd_payload d)"
      using apply_put [OF L(7) schema d Inr] by blast
    have notes1: "stored_note docs ops c1 = stored_note docs ops (ep_cache w)"
      by (rule stored_note_other [OF docs1]) (simp add: L(2))
    let ?k = "mi_target_document_id i"
    show ?thesis
    proof (cases "get_note ops ?k c1")
      case (Inl e)
      have "stored_note docs ops c1 ?k = None"
        using L(12) [of c1 ?k] Inl by (auto simp: stored_note_def split: bind_splits sum.splits)
      with Inl c1 d Inr notes1 show ?thesis
        by (auto simp: handle_intent_def and_then_def on_cache_at look_def intent_of_def after_intent_def fun_eq_iff)
    next
      case old: (Inr n)
      from P(4) [OF old] have n: "stored_note docs ops (ep_cache w) ?k = Some n" by (simp add: notes1)
      with keyed have id: "in_document_id (decorated i n) = ?k" by (simp add: notes_keyed_def decorated_def)
      obtain b where b: "t_pack (po_note ops) (decorated i n) = Inr b" "t_unpack (po_note ops) b = Inr (decorated i n)"
        using packed [OF L(6)] by blast
      have put: "fst (c_put (note_cache ops) ?k (decorated i n) c1) = Inr (decorated i n)"
        "docs (snd (c_put (note_cache ops) ?k (decorated i n) c1)) = (docs c1)((INTEROP_DOCUMENT_TYPE, ?k) \<mapsto> b)"
        using L(6) b(1) L(1) by (simp_all add: view_laws_def)
      then obtain c2 where c2: "c_put (note_cache ops) ?k (decorated i n) c1 = (Inr (decorated i n), c2)"
        and docs2: "docs c2 = (docs c1)((INTEROP_DOCUMENT_TYPE, ?k) \<mapsto> b)"
        by (cases "c_put (note_cache ops) ?k (decorated i n) c1") simp
      have notes2: "stored_note docs ops c2 = (stored_note docs ops (ep_cache w))(?k \<mapsto> decorated i n)"
        by (simp add: notes1 [symmetric]) (simp add: stored_note_def docs2 b(2) fun_eq_iff)
      have "ep_cache (snd (handle_intent ops ch config (peer_registry S) (DocumentPutRaw mid d) w)) = c2"
        unfolding handle_intent_def Let_def
        by (simp add: and_then_ok [where a = i and ?s1.0 = "?w c1"] and_then_ok [where a = n and ?s1.0 = "?w c1"]
            and_then_ok [where a = "decorated i n" and ?s1.0 = "?w c2"] on_cache_at look_def c1 old c2 id)
          (subst keeps_cacheD, auto intro!: cache_intro)
      with notes2 d Inr n show ?thesis by (simp add: intent_of_def after_intent_def)
    qed
  qed
qed

lemma fire_notes:
  assumes laws: "shared_laws docs ops" and d: "rd_schema_id d = FIRE_COMMAND_SCHEMA_ID"
  shows "stored_note docs ops (ep_cache (snd (handle_fire ops ch config (peer_registry S) (DocumentPutRaw mid d) w)))
    = stored_note docs ops (ep_cache w)"
proof -
  note P = shared_lawsD [OF laws]
  note L = peer_lawsD [OF P(1)]
  have schema: "peer_schema S (t_type (po_command ops)) = Some FIRE_COMMAND_SCHEMA_ID" by (simp add: L(4) peer_schemas)
  show ?thesis
  proof (cases "t_unpack (po_command ops) (rd_payload d)")
    case (Inl x)
    obtain e c1 where "apply_raw_document_put_message (po_command ops) (command_cache ops) (peer_registry S) (DocumentPutRaw mid d) (ep_cache w) = (Inl e, c1)"
      "docs c1 = docs (ep_cache w)"
      using apply_refused [OF P(3) schema d Inl] by blast
    moreover from this(2) have "stored_note docs ops c1 = stored_note docs ops (ep_cache w)"
      by (simp add: stored_note_def fun_eq_iff)
    ultimately show ?thesis by (simp add: handle_fire_def and_then_def on_cache_at)
  next
    case (Inr v)
    obtain c1 where c1: "apply_raw_document_put_message (po_command ops) (command_cache ops) (peer_registry S) (DocumentPutRaw mid d) (ep_cache w) = (Inr v, c1)"
      and docs1: "docs c1 = (docs (ep_cache w))((t_type (po_command ops), rd_record_key d) \<mapsto> rd_payload d)"
      using apply_put [OF L(9) schema d Inr] by blast
    have notes1: "stored_note docs ops c1 = stored_note docs ops (ep_cache w)"
      by (rule stored_note_other [OF docs1]) (simp add: L(4))
    have "ep_cache (snd (handle_fire ops ch config (peer_registry S) (DocumentPutRaw mid d) w)) = c1"
      unfolding handle_fire_def Let_def
      by (simp add: and_then_ok [where a = v and ?s1.0 = "w\<lparr>ep_cache := c1\<rparr>"] on_cache_at c1)
        (subst keeps_cacheD, auto intro!: cache_intro)
    with notes1 show ?thesis by simp
  qed
qed

lemma handled_notes:
  assumes laws: "shared_laws docs ops" and keyed: "notes_keyed docs ops (ep_cache w)"
  shows "stored_note docs ops (ep_cache (snd (handle_message ops ch config (peer_registry S) schemas m w)))
    = after_intent (intent_of ops m) (stored_note docs ops (ep_cache w))"
proof (cases "\<exists>mid d. m = DocumentPutRaw mid d")
  case True
  then obtain mid d where m: "m = DocumentPutRaw mid d" by blast
  show ?thesis
  proof (cases "rd_schema_id d = MUTATION_INTENT_SCHEMA_ID")
    case True
    with intent_notes [OF laws keyed True] show ?thesis by (simp add: m handle_message_def handle_raw_put_def)
  next
    case False
    then have "intent_of ops m = None" by (simp add: m intent_of_def)
    with False fire_notes [OF laws, of d ch config S mid w] show ?thesis
      by (simp add: m handle_message_def handle_raw_put_def after_intent_def pure_def)
  qed
next
  case False
  then have "intent_of ops m = None" by (auto simp: intent_of_def split: cultnet_message.splits)
  moreover have "keeps_cache (handle_message ops ch config (peer_registry S) schemas m)"
    using False unfolding handle_message_def by (cases m) (auto intro!: cache_intro)
  ultimately show ?thesis by (simp add: after_intent_def keeps_cacheD)
qed

section \<open>No update is lost\<close>

text \<open>The intents for a note among the handled messages, in the order the server handled them.\<close>

definition intents_for :: "('c, 'j) peer_ops \<Rightarrow> string \<Rightarrow> 'j server_event list \<Rightarrow> mutation_intent list" where
  "intents_for ops k es = filter (\<lambda>i. mi_target_document_id i = k)
     (concat (map (\<lambda>e. case e of Handled i m ok \<Rightarrow> (case intent_of ops m of None \<Rightarrow> [] | Some x \<Rightarrow> [x]) | _ \<Rightarrow> []) es))"

lemma step_notes:
  assumes "server_step ops ch config (peer_registry S) schemas s e s1"
    and laws: "shared_laws docs ops" and keyed: "notes_keyed docs ops (sv_cache s)"
  shows "stored_note docs ops (sv_cache s1) k = map_option (fold decorated (intents_for ops k [e])) (stored_note docs ops (sv_cache s) k)"
  using assms(1)
proof (cases rule: server_step.cases)
  case (handled i c m ep1 r ep2)
  have "ep_cache ep1 = sv_cache s"
    using handled by (auto simp: on_chan_def at_stream_def split: prod.splits)
  with handled_notes [OF laws, of ep1 ch config S schemas m] keyed handled
  have "stored_note docs ops (sv_cache s1) = after_intent (intent_of ops m) (stored_note docs ops (sv_cache s))" by simp
  with handled show ?thesis
    by (auto simp: after_intent_def intents_for_def option.map_ident option.map_id split: option.splits)
qed (auto simp: intents_for_def option.map_id)

lemma step_keyed:
  assumes "server_step ops ch config (peer_registry S) schemas s e s1" "shared_laws docs ops" "notes_keyed docs ops (sv_cache s)"
  shows "notes_keyed docs ops (sv_cache s1)"
  unfolding notes_keyed_def
proof (intro allI impI)
  fix k n assume "stored_note docs ops (sv_cache s1) k = Some n"
  then obtain n0 where n0: "stored_note docs ops (sv_cache s) k = Some n0" "n = fold decorated (intents_for ops k [e]) n0"
    using step_notes [OF assms, of k] by auto
  have "in_document_id (fold decorated is n0) = in_document_id n0" for "is"
    by (induction "is" arbitrary: n0) (simp_all add: decorated_def)
  with n0 assms(3) show "in_document_id n = k" by (simp add: notes_keyed_def)
qed


section \<open>Applied to the sample peer\<close>

text \<open>Streams that are lists of messages to come, into which any answer goes.\<close>

definition inbox :: "('j cultnet_message list, 'j) chan" where
  "inbox = \<lparr> ch_send = (\<lambda>m k. (Ok (), k)),
     ch_read = (\<lambda>k. case k of [] \<Rightarrow> (Err (PeerIo ''eof''), []) | m # ms \<Rightarrow> (Ok m, ms)) \<rparr>"

definition intent_message :: "mutation_intent \<Rightarrow> unit cultnet_message" where
  "intent_message i = DocumentPutRaw (mi_intent_id i)
     (put_record no_put_options ''t2'' MUTATION_INTENT_SCHEMA_ID (mi_intent_id i) (pack_fields (intent_fields i)))"

abbreviation intent_by :: "string \<Rightarrow> mutation_intent" where
  "intent_by who \<equiv> decorate_intent who (build_note ''rust'' ''Rust'')"

lemma intent_of_sample [simp]: "intent_of sample_peer (intent_message i) = Some i"
  by (simp add: intent_of_def intent_message_def sample_peer_def intent_type_def)

lemma codec_refuses: "refuses map_of (string_codec ty f g) cops"
  by (simp add: refuses_def)

lemma sample_shared_laws: "shared_laws map_of sample_peer"
proof -
  have "stored_note map_of sample_peer c k = Some n" if "get_note sample_peer k c = Inr n" for k c n
    using that by (auto simp: sample_peer_def note_type_def stored_note_def split: option.splits)
  then show ?thesis
    by (simp add: shared_laws_def sample_peer_laws) (simp add: sample_peer_def intent_type_def command_type_def codec_refuses)
qed

lemma sample_store_keyed: "notes_keyed map_of sample_peer sample_store"
  by (auto simp: notes_keyed_def stored_note_def sample_store_def store_ops_def sample_peer_def note_type_def build_note_def
      split: if_splits)


end
