(* ===== verification/PeerSetup.thy ===== *)
theory PeerSetup
  imports PeerSample RustNum
begin

text \<open>
  The command line of the peer (\<open>parse_args\<close>, \<open>parse_peer_config\<close>, \<open>parse_dial_config\<close>, the choice
  of the mode in \<open>main\<close>). A panic of the program is \<open>None\<close>.
\<close>

section \<open>Arguments\<close>

text \<open>\<open>trim_start_matches("--")\<close>: as many pairs of dashes as there are.\<close>

fun trim_dashes :: "string \<Rightarrow> string" where
  "trim_dashes (c # d # s) = (if c = CHR ''-'' \<and> d = CHR ''-'' then trim_dashes s else c # d # s)"
| "trim_dashes s = s"

definition is_option :: "string \<Rightarrow> bool" where
  "is_option token \<longleftrightarrow> strip_prefix ''--'' token \<noteq> None"

type_synonym arguments = "(string, string) btree"

fun parse_args_into :: "string list \<Rightarrow> arguments \<Rightarrow> arguments option" where
  "parse_args_into [] parsed = Some parsed"
| "parse_args_into [token] parsed = (if is_option token then None else Some parsed)"
| "parse_args_into (token # value # rest) parsed =
     (if is_option token then parse_args_into rest (bt_insert (trim_dashes token) value parsed)
      else parse_args_into (value # rest) parsed)"

definition parse_args :: "string list \<Rightarrow> arguments option" where
  "parse_args args = parse_args_into args []"

definition require_arg :: "arguments \<Rightarrow> string \<Rightarrow> peer_error + string" where
  "require_arg options name = (case map_of options name of None \<Rightarrow> Err (MissingArgument name) | Some v \<Rightarrow> Ok v)"

text \<open>\<open>str::parse\<close> of the unsigned types, below the first number that does not fit.\<close>

definition parse_unsigned :: "nat \<Rightarrow> string \<Rightarrow> nat option" where
  "parse_unsigned limit s =
     (case s of
        [] \<Rightarrow> None
      | c # cs \<Rightarrow> Option.bind (unsigned_digits (if c = CHR ''+'' then cs else s)) (\<lambda>n. if n < limit then Some n else None))"

definition parse_u16_arg :: "arguments \<Rightarrow> string \<Rightarrow> peer_error + u16" where
  "parse_u16_arg options name =
     bind_result (require_arg options name) (\<lambda>s.
       case parse_unsigned (2 ^ 16) s of None \<Rightarrow> Err (BadArgument name) | Some n \<Rightarrow> Ok (of_nat n))"

text \<open>An unreadable number is a panic here.\<close>

definition parse_u64_arg :: "arguments \<Rightarrow> string \<Rightarrow> u64 option option" where
  "parse_u64_arg options name =
     (case map_of options name of
        None \<Rightarrow> Some None
      | Some value \<Rightarrow> (case parse_unsigned (2 ^ 64) value of None \<Rightarrow> None | Some n \<Rightarrow> Some (Some (of_nat n))))"

text \<open>\<open>Ipv4Addr::from_str\<close>: four numbers below 256 of at most three digits, without leading zeros.\<close>

fun split_on :: "char \<Rightarrow> string \<Rightarrow> string list" where
  "split_on d [] = [[]]"
| "split_on d (c # cs) =
     (if c = d then [] # split_on d cs
      else (case split_on d cs of [] \<Rightarrow> [[c]] | x # xs \<Rightarrow> (c # x) # xs))"

definition parse_octet :: "string \<Rightarrow> u8 option" where
  "parse_octet s =
     (if 3 < length s \<or> 1 < length s \<and> hd s = CHR ''0'' then None
      else Option.bind (unsigned_digits s) (\<lambda>n. if n < 256 then Some (of_nat n) else None))"

definition parse_ipv4 :: "string \<Rightarrow> u8 list option" where
  "parse_ipv4 s = (let parts = map parse_octet (split_on CHR ''.'' s) in
     if length parts = 4 \<and> None \<notin> set parts then Some (map the parts) else None)"

definition parse_ipv4_arg :: "arguments \<Rightarrow> string \<Rightarrow> peer_error + u8 list" where
  "parse_ipv4_arg options name =
     bind_result (require_arg options name) (\<lambda>s.
       case parse_ipv4 s of None \<Rightarrow> Err (BadArgument name) | Some a \<Rightarrow> Ok a)"

section \<open>Configurations and modes\<close>

definition parse_peer_config :: "arguments \<Rightarrow> peer_error + peer_config" where
  "parse_peer_config options =
     bind_result (require_arg options ''runtime-id'') (\<lambda>runtime_id.
     bind_result (require_arg options ''runtime-kind'') (\<lambda>runtime_kind.
     bind_result (require_arg options ''display-name'') (\<lambda>display_name.
     bind_result (require_arg options ''agent-id'') (\<lambda>agent_id.
     let bind_host = (case map_of options ''bind-host'' of None \<Rightarrow> ''127.0.0.1'' | Some h \<Rightarrow> h) in
     bind_result (require_arg options ''advertise-host'') (\<lambda>advertise_host.
     bind_result (parse_u16_arg options ''tcp-port'') (\<lambda>tcp_port.
     bind_result (parse_u16_arg options ''discovery-port'') (\<lambda>discovery_port.
     bind_result (parse_ipv4_arg options ''discovery-group'') (\<lambda>discovery_group.
     bind_result (require_arg options ''schema-path'') (\<lambda>schema_path.
       Ok \<lparr> pc_runtime_id = runtime_id, pc_runtime_kind = runtime_kind, pc_display_name = display_name,
            pc_agent_id = agent_id, pc_bind_host = bind_host, pc_advertise_host = advertise_host,
            pc_tcp_port = tcp_port, pc_discovery_port = discovery_port, pc_discovery_group = discovery_group,
            pc_schema_path = schema_path \<rparr>)))))))))"

definition parse_dial_config :: "arguments \<Rightarrow> peer_error + dial_config" where
  "parse_dial_config options =
     bind_result (require_arg options ''runtime-id'') (\<lambda>runtime_id.
     bind_result (require_arg options ''runtime-kind'') (\<lambda>runtime_kind.
     bind_result (require_arg options ''display-name'') (\<lambda>display_name.
     bind_result (require_arg options ''agent-id'') (\<lambda>agent_id.
     bind_result (require_arg options ''target-host'') (\<lambda>target_host.
     bind_result (parse_u16_arg options ''target-port'') (\<lambda>target_port.
     bind_result (require_arg options ''schema-path'') (\<lambda>schema_path.
       Ok \<lparr> dc_runtime_id = runtime_id, dc_runtime_kind = runtime_kind, dc_display_name = display_name,
            dc_agent_id = agent_id, dc_target_host = target_host, dc_target_port = target_port,
            dc_schema_path = schema_path \<rparr>)))))))"

datatype run_mode = ServeMode peer_config | ProbeMode arguments | DialMode dial_config

text \<open>\<open>main\<close>, up to the mode it runs.\<close>

definition main_mode :: "string list \<Rightarrow> (peer_error + run_mode) option" where
  "main_mode args =
     (case args of
        [] \<Rightarrow> Some (Err NoMode)
      | mode # rest \<Rightarrow>
        (case parse_args rest of
           None \<Rightarrow> None
         | Some options \<Rightarrow>
             Some (if mode = ''serve'' then bind_result (parse_peer_config options) (\<lambda>c. Ok (ServeMode c))
                   else if mode = ''probe'' then Ok (ProbeMode options)
                   else if mode = ''dial'' then bind_result (parse_dial_config options) (\<lambda>c. Ok (DialMode c))
                   else Err (UnknownMode mode))))"

section \<open>The command line of a configuration\<close>

fun option_args :: "(string \<times> string) list \<Rightarrow> string list" where
  "option_args [] = []"
| "option_args ((name, value) # rest) = (''--'' @ name) # value # option_args rest"

definition show_ipv4 :: "u8 list \<Rightarrow> string" where
  "show_ipv4 a = show_nat (unat (a ! 0)) @ CHR ''.'' # show_nat (unat (a ! 1)) @ CHR ''.'' # show_nat (unat (a ! 2))
     @ CHR ''.'' # show_nat (unat (a ! 3))"

definition peer_options :: "peer_config \<Rightarrow> (string \<times> string) list" where
  "peer_options c = [(''runtime-id'', pc_runtime_id c), (''runtime-kind'', pc_runtime_kind c), (''display-name'', pc_display_name c),
     (''agent-id'', pc_agent_id c), (''bind-host'', pc_bind_host c), (''advertise-host'', pc_advertise_host c),
     (''tcp-port'', show_nat (unat (pc_tcp_port c))), (''discovery-port'', show_nat (unat (pc_discovery_port c))),
     (''discovery-group'', show_ipv4 (pc_discovery_group c)), (''schema-path'', pc_schema_path c)]"

definition dial_options :: "dial_config \<Rightarrow> (string \<times> string) list" where
  "dial_options c = [(''runtime-id'', dc_runtime_id c), (''runtime-kind'', dc_runtime_kind c), (''display-name'', dc_display_name c),
     (''agent-id'', dc_agent_id c), (''target-host'', dc_target_host c), (''target-port'', show_nat (unat (dc_target_port c))),
     (''schema-path'', dc_schema_path c)]"

lemma trim_option: "\<not> is_option name \<Longrightarrow> trim_dashes (''--'' @ name) = name"
  by (cases name rule: trim_dashes.cases) (auto simp: is_option_def)

lemma list_all_tail: "list_all P (x # xs) \<Longrightarrow> list_all P xs"
  by simp

lemma option_args_parsed:
  assumes "list_all (\<lambda>(name, _). \<not> is_option name) opts"
  shows "\<exists>m. parse_args_into (option_args opts) parsed = Some m \<and> map_of m = map_of parsed ++ map_of (rev opts)"
  using assms
proof (induction opts arbitrary: parsed)
  case (Cons opt opts)
  obtain name v where opt: "opt = (name, v)" by fastforce
  have "is_option (''--'' @ name)" by (simp add: is_option_def)
  moreover obtain m where "parse_args_into (option_args opts) (bt_insert name v parsed) = Some m"
    "map_of m = map_of (bt_insert name v parsed) ++ map_of (rev opts)"
    using Cons.IH [of "bt_insert name v parsed"] list_all_tail [OF Cons.prems] by blast
  ultimately show ?case
    using Cons.prems trim_option [of name] by (simp add: opt)
qed simp

lemma parse_unsigned_show: "n < limit \<Longrightarrow> parse_unsigned limit (show_nat n) = Some n"
proof -
  assume n: "n < limit"
  obtain c cs where s: "show_nat n = c # cs" by (cases "show_nat n") auto
  moreover have "c \<noteq> CHR ''+''" using show_nat_digits [of c n] by (auto simp: s digit_of_None)
  ultimately show ?thesis using n unsigned_show [of n] by (simp add: parse_unsigned_def)
qed

lemma split_on_append: "d \<notin> set xs \<Longrightarrow> split_on d (xs @ d # ys) = xs # split_on d ys"
  by (induction xs) auto

lemma split_on_last: "d \<notin> set xs \<Longrightarrow> split_on d xs = [xs]"
  by (induction xs) auto

lemma show_nat_no_dot: "CHR ''.'' \<notin> set (show_nat n)"
  using show_nat_digits [of "CHR ''.''" n] by (auto simp: digit_of_None)

lemma show_nat_no_zero: "0 < n \<Longrightarrow> hd (show_nat n) \<noteq> CHR ''0''"
proof (induction n rule: show_nat.induct)
  case (1 n)
  show ?case
  proof (cases "n < 10")
    case True
    have "of_char (char_of (48 + n)) \<noteq> (of_char CHR ''0'' :: nat)"
      using 1 True by simp
    then have "char_of (48 + n) \<noteq> CHR ''0''" by metis
    with True show ?thesis by (simp add: show_nat.simps [of n])
  next
    case False
    with 1 show ?thesis by (simp add: show_nat.simps [of n])
  qed
qed

lemma length_show_nat: "n < 10 ^ Suc k \<Longrightarrow> length (show_nat n) \<le> Suc k"
proof (induction k arbitrary: n)
  case (Suc k)
  then have "n div 10 < 10 ^ Suc k" by (simp add: less_mult_imp_div_less mult.commute)
  with Suc.IH [of "n div 10"] show ?case by (simp add: show_nat.simps [of n])
qed (simp add: show_nat.simps)

lemma parse_show_octet: "parse_octet (show_nat (unat (b :: u8))) = Some b"
proof -
  have "unat b < 256" using unat_less_exp [of b] by simp
  moreover from this have "length (show_nat (unat b)) \<le> 3"
    using length_show_nat [of "unat b" 2] by simp
  moreover have "hd (show_nat (unat b)) \<noteq> CHR ''0''" if "1 < length (show_nat (unat b))"
    using that show_nat_no_zero [of "unat b"] by (cases "unat b = 0") (simp_all add: show_nat.simps [of 0])
  ultimately show ?thesis by (auto simp: parse_octet_def)
qed

lemma parse_show_ipv4: "length a = 4 \<Longrightarrow> parse_ipv4 (show_ipv4 a) = Some a"
  by (simp add: parse_ipv4_def show_ipv4_def split_on_append split_on_last show_nat_no_dot parse_show_octet Let_def
      numeral_eq_Suc length_Suc_conv, auto)

lemma u16_bound: "unat (p :: u16) < 65536"
  using unat_less_exp [of p] by simp

text \<open>C40.
  Every configuration can be given on the command line: for a server and for a dialler, naming the
  mode and then each field as an option makes the program run in that mode with exactly that
  configuration, whatever the texts are (also when a value looks like an option).\<close>

theorem command_line_roundtrip:
  assumes "length (pc_discovery_group config) = 4"
  shows "main_mode (''serve'' # option_args (peer_options config)) = Some (Ok (ServeMode config))
    \<and> main_mode (''dial'' # option_args (dial_options dialler)) = Some (Ok (DialMode dialler))"
proof
  have "list_all (\<lambda>(name, _). \<not> is_option name) (peer_options config)"
    by (simp add: peer_options_def is_option_def)
  then obtain m where m: "parse_args (option_args (peer_options config)) = Some m" "map_of m = map_of (rev (peer_options config))"
    using option_args_parsed [of "peer_options config" "[]"] by (auto simp: parse_args_def)
  have "parse_peer_config m = Ok config"
    by (simp add: parse_peer_config_def require_arg_def parse_u16_arg_def parse_ipv4_arg_def m peer_options_def
        parse_unsigned_show u16_bound parse_show_ipv4 assms)
  with m(1) show "main_mode (''serve'' # option_args (peer_options config)) = Some (Ok (ServeMode config))"
    by (simp add: main_mode_def)
next
  have "list_all (\<lambda>(name, _). \<not> is_option name) (dial_options dialler)"
    by (simp add: dial_options_def is_option_def)
  then obtain m where m: "parse_args (option_args (dial_options dialler)) = Some m" "map_of m = map_of (rev (dial_options dialler))"
    using option_args_parsed [of "dial_options dialler" "[]"] by (auto simp: parse_args_def)
  have "parse_dial_config m = Ok dialler"
    by (simp add: parse_dial_config_def require_arg_def parse_u16_arg_def m dial_options_def parse_unsigned_show u16_bound)
  with m(1) show "main_mode (''dial'' # option_args (dial_options dialler)) = Some (Ok (DialMode dialler))"
    by (simp add: main_mode_def)
qed

text \<open>A last option without its value stops the program with a panic instead of an error.\<close>

lemma missing_value_panics: "is_option token \<Longrightarrow> main_mode [mode, token] = None"
  by (simp add: main_mode_def parse_args_def)

lemma command_line_roundtrip_witness:
  "main_mode (''serve'' # option_args (peer_options sample_config)) = Some (Ok (ServeMode sample_config))
    \<and> main_mode (''dial'' # option_args (dial_options sample_dialler)) = Some (Ok (DialMode sample_dialler))"
  by (rule command_line_roundtrip) (simp add: sample_config_def)

end
