(* ===== verification/PeerDiscovery.thy ===== *)
theory PeerDiscovery
  imports PeerSetup
begin

text \<open>
  Discovery between peers: the server that answers probes (\<open>start_udp_discovery_server\<close>) and the
  \<open>probe\<close> mode. The socket is the sequence of what its receive calls return; the MessagePack bytes
  of the messages are a parameter.
\<close>

section \<open>Messages\<close>

record announcement =
  an_message_id :: string
  an_runtime_id :: string
  an_runtime_kind :: string
  an_display_name :: string
  an_agent_id :: "string option"
  an_tcp_host :: string
  an_tcp_port :: u16
  an_wire_contract :: string
  an_supported_document_types :: "string list"
  an_supports_schema_catalog :: bool

datatype discovery_message = Probe string string | Announce announcement

record discovery_ops =
  dm_pack :: "discovery_message \<Rightarrow> string + bytes"
  dm_unpack :: "bytes \<Rightarrow> string + discovery_message"

text \<open>What \<open>recv_from\<close> returns: a datagram with its sender, the read timeout, or another error.\<close>

datatype 'a udp_event = Datagram bytes 'a | NoData | SocketError string

text \<open>The buffer of both sides; \<open>recv_from\<close> drops what does not fit.\<close>

definition DISCOVERY_BUFFER :: nat where "DISCOVERY_BUFFER = 4096"

section \<open>The server\<close>

definition announcement_of :: "peer_config \<Rightarrow> string \<Rightarrow> announcement" where
  "announcement_of config message_id = \<lparr>
     an_message_id = message_id, an_runtime_id = pc_runtime_id config, an_runtime_kind = pc_runtime_kind config,
     an_display_name = pc_display_name config, an_agent_id = Some (pc_agent_id config),
     an_tcp_host = pc_advertise_host config, an_tcp_port = pc_tcp_port config,
     an_wire_contract = ''cultnet.schema.v0'', an_supported_document_types = [INTEROP_DOCUMENT_TYPE],
     an_supports_schema_catalog = True \<rparr>"

definition discovery_reply :: "discovery_ops \<Rightarrow> peer_config \<Rightarrow> bytes \<Rightarrow> bytes option" where
  "discovery_reply ops config datagram =
     (case dm_unpack ops (take DISCOVERY_BUFFER datagram) of
        Inr (Probe message_id requester_runtime_id) \<Rightarrow>
          (case dm_pack ops (Announce (announcement_of config message_id)) of Inl e \<Rightarrow> None | Inr payload \<Rightarrow> Some payload)
      | _ \<Rightarrow> None)"

text \<open>The loop of the server: the datagrams it sends, and whether it still runs.\<close>

fun discovery_server :: "discovery_ops \<Rightarrow> peer_config \<Rightarrow> 'a udp_event list \<Rightarrow> (bytes \<times> 'a) list \<times> bool" where
  "discovery_server ops config [] = ([], True)"
| "discovery_server ops config (Datagram datagram remote # events) =
     (case discovery_server ops config events of (sent, running) \<Rightarrow>
        ((case discovery_reply ops config datagram of None \<Rightarrow> sent | Some payload \<Rightarrow> (payload, remote) # sent), running))"
| "discovery_server ops config (NoData # events) = discovery_server ops config events"
| "discovery_server ops config (SocketError e # events) = ([], False)"

section \<open>The probe\<close>

definition note_announcement ::
  "discovery_ops \<Rightarrow> string \<Rightarrow> bytes \<Rightarrow> (string, announcement) btree \<Rightarrow> (string, announcement) btree" where
  "note_announcement ops message_id datagram found =
     (case dm_unpack ops (take DISCOVERY_BUFFER datagram) of
        Inr (Announce a) \<Rightarrow> if an_message_id a = message_id then bt_insert (an_runtime_id a) a found else found
      | _ \<Rightarrow> found)"

datatype 'a probing = Waiting | Panicked | Finished "peer_error + 'a"

fun collect_announcements ::
  "discovery_ops \<Rightarrow> string \<Rightarrow> 'a udp_event list \<Rightarrow> (string, announcement) btree
     \<Rightarrow> (string, announcement) btree probing" where
  "collect_announcements ops message_id [] found = Waiting"
| "collect_announcements ops message_id (Datagram datagram remote # events) found =
     collect_announcements ops message_id events (note_announcement ops message_id datagram found)"
| "collect_announcements ops message_id (NoData # events) found = Finished (Ok found)"
| "collect_announcements ops message_id (SocketError e # events) found = Finished (Err (PeerIo e))"

record probe_plan =
  pp_runtime_id :: string
  pp_message_id :: string
  pp_payload :: bytes
  pp_group :: "u8 list"
  pp_port :: u16
  pp_timeout_ms :: u64

text \<open>
  What \<open>probe\<close> sends, and where; \<open>None\<close> is the panic of an unreadable timeout. The socket refuses a
  read timeout of zero.
\<close>

definition plan_probe :: "discovery_ops \<Rightarrow> arguments \<Rightarrow> int \<Rightarrow> (peer_error + probe_plan) option" where
  "plan_probe ops options timestamp_millis =
     (case bind_result (require_arg options ''runtime-id'') (\<lambda>runtime_id.
           bind_result (parse_u16_arg options ''discovery-port'') (\<lambda>discovery_port.
           bind_result (parse_ipv4_arg options ''discovery-group'') (\<lambda>discovery_group.
             Ok (runtime_id, discovery_port, discovery_group)))) of
        Inl e \<Rightarrow> Some (Err e)
      | Inr (runtime_id, discovery_port, discovery_group) \<Rightarrow>
        (case parse_u64_arg options ''timeout-ms'' of
           None \<Rightarrow> None
         | Some given \<Rightarrow>
           (let message_id = runtime_id @ ''-'' @ show_i64 timestamp_millis;
                timeout_ms = (case given of None \<Rightarrow> 1500 | Some t \<Rightarrow> t) in
            Some (if timeout_ms = 0 then Err (PeerIo ''cannot set a 0 duration timeout'')
              else bind_result (raise PeerIo (dm_pack ops (Probe message_id runtime_id))) (\<lambda>payload.
                Ok \<lparr> pp_runtime_id = runtime_id, pp_message_id = message_id, pp_payload = payload,
                     pp_group = discovery_group, pp_port = discovery_port, pp_timeout_ms = timeout_ms \<rparr>)))))"

text \<open>The whole mode, with the report it prints: the peers found, in the order of their ids.\<close>

definition probe ::
  "discovery_ops \<Rightarrow> arguments \<Rightarrow> int \<Rightarrow> 'a udp_event list \<Rightarrow> (string \<times> announcement list) probing" where
  "probe ops options timestamp_millis events =
     (case plan_probe ops options timestamp_millis of
        None \<Rightarrow> Panicked
      | Some (Inl e) \<Rightarrow> Finished (Err e)
      | Some (Inr plan) \<Rightarrow>
        (case collect_announcements ops (pp_message_id plan) events [] of
           Waiting \<Rightarrow> Waiting
         | Panicked \<Rightarrow> Panicked
         | Finished r \<Rightarrow> Finished (bind_result r (\<lambda>found. Ok (pp_runtime_id plan, bt_values found)))))"

section \<open>What a probe finds\<close>

text \<open>Bytes read back as the message they were made from.\<close>

definition discovery_laws :: "discovery_ops \<Rightarrow> bool" where
  "discovery_laws ops \<longleftrightarrow> (\<forall>m b. dm_pack ops m = Inr b \<longrightarrow> dm_unpack ops b = Inr m)"

text \<open>A datagram that is not an answer to the probe.\<close>

definition unrelated :: "discovery_ops \<Rightarrow> string \<Rightarrow> bytes \<Rightarrow> bool" where
  "unrelated ops message_id d \<longleftrightarrow> (case dm_unpack ops (take DISCOVERY_BUFFER d) of
     Inr (Announce a) \<Rightarrow> an_message_id a \<noteq> message_id | _ \<Rightarrow> True)"

definition answer :: "discovery_ops \<Rightarrow> string \<Rightarrow> peer_config \<Rightarrow> bytes \<Rightarrow> bool" where
  "answer ops message_id config d \<longleftrightarrow>
     dm_pack ops (Announce (announcement_of config message_id)) = Inr d \<and> length d \<le> DISCOVERY_BUFFER"

lemma note_unrelated: "unrelated ops mid d \<Longrightarrow> note_announcement ops mid d found = found"
  by (auto simp: unrelated_def note_announcement_def split: sum.splits discovery_message.splits)

lemma answer_read:
  "discovery_laws ops \<Longrightarrow> answer ops mid c d \<Longrightarrow>
     dm_unpack ops (take DISCOVERY_BUFFER d) = Inr (Announce (announcement_of c mid))"
  by (simp add: discovery_laws_def answer_def)

lemma announcement_fields [simp]:
  "an_message_id (announcement_of c mid) = mid" "an_runtime_id (announcement_of c mid) = pc_runtime_id c"
  by (simp_all add: announcement_of_def)

lemma option_eqI: "(\<And>a. x = Some a \<longleftrightarrow> y = Some a) \<Longrightarrow> x = y"
  by (cases x; cases y) auto

lemma note_answer:
  "discovery_laws ops \<Longrightarrow> answer ops mid config d \<Longrightarrow>
     note_announcement ops mid d found = bt_insert (pc_runtime_id config) (announcement_of config mid) found"
  by (simp add: note_announcement_def answer_read)

lemma collect_datagrams:
  "collect_announcements ops mid (map (\<lambda>(d, a). Datagram d a) ds @ NoData # rest) found
     = Finished (Ok (foldl (\<lambda>m (d, a). note_announcement ops mid d m) found ds))"
  by (induction ds arbitrary: found) auto

lemma noted_wf: "bt_wf found \<Longrightarrow> bt_wf (foldl (\<lambda>m (d, a). note_announcement ops mid d m) found ds)"
proof (induction ds arbitrary: found)
  case (Cons p ds)
  obtain d a where p: "p = (d, a)" by fastforce
  have "bt_wf (note_announcement ops mid d found)"
    using Cons.prems by (simp add: note_announcement_def split: sum.splits discovery_message.splits)
  with Cons.IH show ?case by (simp add: p)
qed simp

text \<open>The announcements of peers with different ids, by id.\<close>

definition announced :: "string \<Rightarrow> peer_config list \<Rightarrow> string \<Rightarrow> announcement option" where
  "announced mid configs = map_of (map (\<lambda>c. (pc_runtime_id c, announcement_of c mid)) configs)"

lemma announced_Some:
  "distinct (map pc_runtime_id configs) \<Longrightarrow> announced mid configs k = Some a
     \<longleftrightarrow> (\<exists>c \<in> set configs. k = pc_runtime_id c \<and> a = announcement_of c mid)"
  by (auto simp: announced_def comp_def)

lemma announced_None: "announced mid configs k = None \<longleftrightarrow> k \<notin> pc_runtime_id ` set configs"
  by (simp add: announced_def map_of_eq_None_iff image_image)

lemma noted_lookup:
  assumes laws: "discovery_laws ops" and ids: "distinct (map pc_runtime_id configs)"
    and ds: "\<forall>(d, a) \<in> set ds. unrelated ops mid d \<or> (\<exists>c \<in> set configs. answer ops mid c d)"
  shows "map_of (foldl (\<lambda>m (d, a). note_announcement ops mid d m) found ds) k =
     (if \<exists>c \<in> set configs. k = pc_runtime_id c \<and> (\<exists>(d, a) \<in> set ds. answer ops mid c d)
      then announced mid configs k else map_of found k)"
  using ds
proof (induction ds arbitrary: found)
  case (Cons p ds)
  obtain d a where p: "p = (d, a)" by fastforce
  show ?case
  proof (cases "unrelated ops mid d")
    case True
    have "\<not> answer ops mid c d" for c
    proof
      assume "answer ops mid c d"
      from answer_read [OF laws this] True show False by (simp add: unrelated_def)
    qed
    with Cons True show ?thesis by (simp add: p note_unrelated)
  next
    case False
    with Cons.prems obtain c where c: "c \<in> set configs" "answer ops mid c d" by (auto simp: p)
    have same: "c' = c" if "c' \<in> set configs" "pc_runtime_id c' = pc_runtime_id c" for c'
      using that c(1) ids by (auto simp: distinct_map dest: inj_onD)
    have only: "announcement_of c' mid = announcement_of c mid" if "answer ops mid c' d" for c'
      using answer_read [OF laws that] answer_read [OF laws c(2)] by simp
    have here: "announced mid configs (pc_runtime_id c) = Some (announcement_of c mid)"
      using c(1) by (simp add: announced_Some [OF ids]) blast
    have id: "pc_runtime_id c' = pc_runtime_id c" if "answer ops mid c' d" for c'
      using arg_cong [OF only [OF that], of an_runtime_id] by simp
    show ?thesis
      using Cons.IH [of "bt_insert (pc_runtime_id c) (announcement_of c mid) found"] Cons.prems c here
      by (auto simp: p note_answer [OF laws c(2)] dest: id)
  qed
qed simp

text \<open>C29.
  A probe finds the peers that are there. Over a codec that reads back, if the answer of every one
  of some discovery servers to the probe arrives, in any order and any number of times, mixed with
  datagrams that are no answer to it, then the probe, once its read times out, reports exactly one
  announcement per server, in the order of their runtime ids.\<close>

theorem probe_finds_peers:
  assumes laws: "discovery_laws ops" and plan: "plan_probe ops options time = Some (Ok plan)"
    and fits: "length (pp_payload plan) \<le> DISCOVERY_BUFFER"
    and ids: "distinct (map pc_runtime_id configs)"
    and replies: "list_all (\<lambda>c. \<exists>d a. discovery_reply ops c (pp_payload plan) = Some d \<and> length d \<le> DISCOVERY_BUFFER
        \<and> (d, a) \<in> set ds) configs"
    and others: "list_all (\<lambda>(d, a). unrelated ops (pp_message_id plan) d
        \<or> list_ex (\<lambda>c. discovery_reply ops c (pp_payload plan) = Some d \<and> length d \<le> DISCOVERY_BUFFER) configs) ds"
  shows "probe ops options time (map (\<lambda>(d, a). Datagram d a) ds @ NoData # rest)
    = Finished (Ok (pp_runtime_id plan, map (\<lambda>c. announcement_of c (pp_message_id plan)) (sort_key pc_runtime_id configs)))"
proof -
  let ?mid = "pp_message_id plan"
  have sent: "dm_unpack ops (pp_payload plan) = Inr (Probe ?mid (pp_runtime_id plan))"
    using plan laws by (auto simp: plan_probe_def discovery_laws_def bind_result_Inr_iff Let_def split: sum.splits option.splits if_splits)
  have reply: "discovery_reply ops c (pp_payload plan) = Some d \<longleftrightarrow> dm_pack ops (Announce (announcement_of c ?mid)) = Inr d" for c d
    using sent fits by (auto simp: discovery_reply_def split: sum.splits)
  have answered: "\<forall>c \<in> set configs. \<exists>(d, a) \<in> set ds. answer ops ?mid c d"
    using replies by (fastforce simp: list_all_iff reply answer_def)
  have covered: "\<forall>(d, a) \<in> set ds. unrelated ops ?mid d \<or> (\<exists>c \<in> set configs. answer ops ?mid c d)"
    using others by (auto simp: list_all_iff list_ex_iff reply answer_def)
  let ?found = "foldl (\<lambda>m (d, a). note_announcement ops ?mid d m) [] ds"
  let ?target = "map (\<lambda>c. (pc_runtime_id c, announcement_of c ?mid)) (sort_key pc_runtime_id configs)"
  have "map_of ?found k = map_of ?target k" for k
  proof -
    have "map_of ?found k = announced ?mid configs k"
      using noted_lookup [OF laws ids covered, of "[]" k] answered announced_None [of ?mid configs k]
      by (cases "k \<in> pc_runtime_id ` set configs") auto
    also have "\<dots> = map_of ?target k"
    proof (rule option_eqI)
      fix a
      have "distinct (map pc_runtime_id (sort_key pc_runtime_id configs))"
        using ids by (simp add: distinct_map)
      then show "announced ?mid configs k = Some a \<longleftrightarrow> map_of ?target k = Some a"
        using announced_Some [OF ids, of ?mid k a] announced_Some [of "sort_key pc_runtime_id configs" ?mid k a]
        by (simp add: announced_def)
    qed
    finally show ?thesis .
  qed
  moreover have "bt_wf ?target"
  proof -
    have "distinct (map pc_runtime_id (sort_key pc_runtime_id configs))"
      using ids by (simp add: distinct_map)
    then show ?thesis by (simp add: bt_wf_def comp_def strict_sorted_iff)
  qed
  ultimately have "?found = ?target"
    by (intro bt.entries_ext) (auto simp: noted_wf fun_eq_iff)
  then show ?thesis
    using plan by (simp add: probe_def collect_datagrams comp_def)
qed

text \<open>
  The read timeout restarts with every datagram: as long as any datagrams keep arriving in time, the
  probe goes on waiting.\<close>

lemma probe_waits:
  "plan_probe ops options time = Some (Ok plan) \<Longrightarrow> probe ops options time (map (\<lambda>(d, a). Datagram d a) ds) = Waiting"
proof -
  have "collect_announcements ops mid (map (\<lambda>(d, a). Datagram d a) ds) found = Waiting" for mid found
    by (induction ds arbitrary: found) auto
  then show "plan_probe ops options time = Some (Ok plan) \<Longrightarrow> ?thesis" by (simp add: probe_def)
qed

section \<open>Two sample servers\<close>

definition announcement_message_fields :: "announcement \<Rightarrow> bytes list" where
  "announcement_message_fields a = [[1], str_bytes (an_message_id a), str_bytes (an_runtime_id a), str_bytes (an_runtime_kind a),
     str_bytes (an_display_name a), case an_agent_id a of None \<Rightarrow> [] | Some i \<Rightarrow> 1 # str_bytes i, str_bytes (an_tcp_host a),
     u32_to_be (ucast (an_tcp_port a)), str_bytes (an_wire_contract a), if an_supports_schema_catalog a then [1] else []]
     @ map str_bytes (an_supported_document_types a)"

definition announcement_of_fields :: "bytes list \<Rightarrow> announcement" where
  "announcement_of_fields fs = \<lparr> an_message_id = bytes_str (fs ! 1), an_runtime_id = bytes_str (fs ! 2),
     an_runtime_kind = bytes_str (fs ! 3), an_display_name = bytes_str (fs ! 4),
     an_agent_id = (case fs ! 5 of [] \<Rightarrow> None | _ # i \<Rightarrow> Some (bytes_str i)), an_tcp_host = bytes_str (fs ! 6),
     an_tcp_port = ucast (u32_from_be (fs ! 7)), an_wire_contract = bytes_str (fs ! 8),
     an_supported_document_types = map bytes_str (drop 10 fs), an_supports_schema_catalog = (fs ! 9 \<noteq> []) \<rparr>"

definition sample_discovery :: discovery_ops where
  "sample_discovery = \<lparr>
     dm_pack = (\<lambda>m. Inr (pack_fields (case m of Probe mid rid \<Rightarrow> [[0], str_bytes mid, str_bytes rid]
       | Announce a \<Rightarrow> announcement_message_fields a))),
     dm_unpack = (\<lambda>b. case unpack_fields [] b of [] \<Rightarrow> Inl ''empty''
       | t # fs \<Rightarrow> if t = [0] then Inr (Probe (bytes_str (fs ! 0)) (bytes_str (fs ! 1)))
                   else if t = [1] then Inr (Announce (announcement_of_fields (t # fs))) else Inl ''unknown'') \<rparr>"

lemma announcement_fields_read: "announcement_of_fields (announcement_message_fields a) = a"
proof -
  have "ucast (u32_from_be (u32_to_be (ucast (p :: u16)))) = p" for p
    by (simp add: ucast_up_ucast_id is_up)
  then show ?thesis
    by (cases "an_agent_id a") (simp_all add: announcement_of_fields_def announcement_message_fields_def comp_def)
qed

lemma sample_discovery_laws: "discovery_laws sample_discovery"
  unfolding discovery_laws_def
proof (intro allI impI)
  fix m b assume packed: "dm_pack sample_discovery m = Inr b"
  show "dm_unpack sample_discovery b = Inr m"
  proof (cases m)
    case (Probe mid rid)
    with packed show ?thesis by (auto simp: sample_discovery_def)
  next
    case (Announce a)
    obtain fs where fs: "announcement_message_fields a = [1] # fs" by (simp add: announcement_message_fields_def)
    with packed Announce announcement_fields_read [of a] show ?thesis by (auto simp: sample_discovery_def)
  qed
qed

definition other_config :: peer_config where
  "other_config = sample_config\<lparr>pc_runtime_id := ''go'', pc_tcp_port := 7002\<rparr>"

definition probe_arguments :: arguments where
  "probe_arguments = [(''discovery-group'', ''239.0.0.1''), (''discovery-port'', ''7001''), (''runtime-id'', ''ts'')]"

definition sample_answer :: "peer_config \<Rightarrow> bytes" where
  "sample_answer config = projr (dm_pack sample_discovery (Announce (announcement_of config ''ts-5'')))"

lemma probe_finds_peers_witness:
  "probe sample_discovery probe_arguments 5
     (map (\<lambda>(d, a). Datagram d a) [(sample_answer sample_config, 0), ([9], 1), (sample_answer other_config, 2), (sample_answer sample_config, 0 :: nat)]
       @ NoData # [])
   = Finished (Ok (''ts'', [announcement_of other_config ''ts-5'', announcement_of sample_config ''ts-5'']))"
proof -
  define plan where "plan = \<lparr> pp_runtime_id = ''ts'', pp_message_id = ''ts-5'',
    pp_payload = pack_fields [[0], str_bytes ''ts-5'', str_bytes ''ts''], pp_group = [239, 0, 0, 1], pp_port = 7001, pp_timeout_ms = 1500 \<rparr>"
  have planned: "plan_probe sample_discovery probe_arguments 5 = Some (Ok plan)"
    unfolding plan_def by code_simp
  have fits: "length (pp_payload plan) \<le> DISCOVERY_BUFFER" unfolding plan_def by code_simp
  have replies: "discovery_reply sample_discovery sample_config (pp_payload plan) = Some (sample_answer sample_config)"
    "discovery_reply sample_discovery other_config (pp_payload plan) = Some (sample_answer other_config)"
    "length (sample_answer sample_config) \<le> DISCOVERY_BUFFER" "length (sample_answer other_config) \<le> DISCOVERY_BUFFER"
    "unrelated sample_discovery (pp_message_id plan) [9]"
    unfolding plan_def by code_simp+
  have ids: "distinct (map pc_runtime_id [sample_config, other_config])" by code_simp
  have sorted: "sort_key pc_runtime_id [sample_config, other_config] = [other_config, sample_config]" by code_simp
  show ?thesis
    using probe_finds_peers [OF sample_discovery_laws planned fits ids, where rest = "[]" and
        ds = "[(sample_answer sample_config, 0), ([9], 1), (sample_answer other_config, 2), (sample_answer sample_config, 0 :: nat)]"] replies
    unfolding sorted by (simp add: plan_def) blast
qed

end
